theory Spec2Isabelle
  imports Main
begin

section \<open>Documents, requests and responses\<close>

text \<open>
  The task list service keeps two MongoDB collections, tasks and folders, and serves them
  through the handlers of \<^verbatim>\<open>taskController.js\<close> and \<^verbatim>\<open>folderController.js\<close>.
  An ObjectId is modelled as a natural number, and a string as the bytes of its UTF-8
  encoding. What the driver accepts as the text of an ObjectId, what \<^verbatim>\<open>new Date\<close> makes
  of a string and what the object mapper makes of a string on a date path belong to the
  runtime and are taken as parameters: \<open>toObjectId\<close> returns the identifier a string is cast
  to (\<open>None\<close> where the cast fails with a CastError) and \<open>isValidObjectId\<close> holds of exactly
  the strings that cast; \<open>toDate\<close> returns the time value of \<^verbatim>\<open>new Date(s)\<close> (\<open>None\<close> for
  an invalid date); \<open>castToDate\<close> returns the time value the object mapper casts a string to
  (\<open>None\<close> where that cast fails), which need not agree with \<open>toDate\<close>.
\<close>

type_synonym oid = nat

record runtime =
  toObjectId :: "string \<Rightarrow> oid option"
  toDate :: "string \<Rightarrow> int option"
  castToDate :: "string \<Rightarrow> int option"

definition isValidObjectId :: "runtime \<Rightarrow> string \<Rightarrow> bool" where
  "isValidObjectId rt s = (toObjectId rt s \<noteq> None)"

text \<open>The documents of \<^verbatim>\<open>models/task.js\<close> and \<^verbatim>\<open>models/folder.js\<close>.\<close>

record task =
  t_id :: oid
  title :: string
  dueDate :: "int option"
  status :: string
  folder :: "oid option"
  t_user :: oid

record folder =
  f_id :: oid
  name :: string
  f_user :: oid
  tasks :: "oid list"

text \<open>
  The fields a handler reads from \<^verbatim>\<open>req.body\<close>. \<open>None\<close> is \<^verbatim>\<open>undefined\<close>; the model
  covers string-valued fields, as the API declares them.
\<close>

record body =
  b_title :: "string option"
  b_dueDate :: "string option"
  b_status :: "string option"
  b_type :: "string option"
  b_folder :: "string option"
  b_name :: "string option"
  b_user :: "string option"

definition truthy :: "string option \<Rightarrow> bool" where
  "truthy v = (case v of None \<Rightarrow> False | Some s \<Rightarrow> s \<noteq> [])"

datatype json =
    ErrorBody string
  | MessageBody string
  | MessageTask string task
  | MessageFolder string folder
  | TaskBody task
  | FolderBody folder
  | PopulatedFolder folder "task list"
  | TaskList "task list"
  | TasksAndFolders "task list" "folder list"

type_synonym response = "nat \<times> json"

definition ValidationError :: "response \<Rightarrow> bool" where
  "ValidationError r = (fst r = 400)"

definition NotFoundError :: "response \<Rightarrow> bool" where
  "NotFoundError r = (fst r = 404)"

definition InternalError :: "response \<Rightarrow> bool" where
  "InternalError r = (fst r = 500)"

section \<open>The storage layer\<close>

text \<open>
  A collection is the list of its documents in insertion order. Every call that reaches the
  database is recorded in \<open>calls\<close>, so that a statement can say which lookups and writes a
  handler made. New documents take their identifier from the counter \<open>nextId\<close>.
\<close>

datatype coll = Tasks | Folders

datatype dbcall = Lookup coll | Insert coll | Update coll | Remove coll

record db =
  taskColl :: "task list"
  folderColl :: "folder list"
  nextId :: oid
  calls :: "dbcall list"

definition called :: "dbcall \<Rightarrow> db \<Rightarrow> db" where
  "called c s = s\<lparr>calls := calls s @ [c]\<rparr>"

text \<open>
  The two exceptions the object mapper throws before it reaches the database: a value that
  cannot be cast to the type of its path, and a document or update that fails a schema
  validator. \<open>message\<close> stands for the text of \<^verbatim>\<open>err.message\<close>, which the folder handlers
  send back; no statement depends on its wording.
\<close>

datatype exn = CastError | ValidatorError

definition message :: "exn \<Rightarrow> string" where
  "message e = (case e of CastError \<Rightarrow> ''Cast to ObjectId failed''
                        | ValidatorError \<Rightarrow> ''Validation failed'')"

text \<open>
  Query filters as the handlers write them: \<open>None\<close> leaves a field out of the filter;
  \<open>q_folder = Some None\<close> is the filter \<^verbatim>\<open>folder: null\<close>. Identifiers arrive as strings
  and are cast by the driver, which throws a CastError on a string that is no ObjectId.
\<close>

record tquery =
  q_id :: "string option"
  q_folder :: "string option option"
  q_user :: oid

record fquery =
  fq_id :: "string option"
  fq_user :: "oid option"

definition castId :: "runtime \<Rightarrow> string \<Rightarrow> exn + oid" where
  "castId rt s = (case toObjectId rt s of None \<Rightarrow> Inl CastError | Some i \<Rightarrow> Inr i)"

definition castTaskQuery :: "runtime \<Rightarrow> tquery \<Rightarrow> exn + (task \<Rightarrow> bool)" where
  "castTaskQuery rt q =
     (case (case q_id q of None \<Rightarrow> Inr None
            | Some s \<Rightarrow> map_sum id Some (castId rt s)) of
        Inl e \<Rightarrow> Inl e
      | Inr i \<Rightarrow>
         (case (case q_folder q of None \<Rightarrow> Inr None
                | Some None \<Rightarrow> Inr (Some None)
                | Some (Some s) \<Rightarrow> map_sum id (\<lambda>j. Some (Some j)) (castId rt s)) of
            Inl e \<Rightarrow> Inl e
          | Inr f \<Rightarrow>
              Inr (\<lambda>t. (case i of None \<Rightarrow> True | Some i' \<Rightarrow> t_id t = i')
                     \<and> (case f of None \<Rightarrow> True | Some f' \<Rightarrow> folder t = f')
                     \<and> t_user t = q_user q)))"

definition castFolderQuery :: "runtime \<Rightarrow> fquery \<Rightarrow> exn + (folder \<Rightarrow> bool)" where
  "castFolderQuery rt q =
     (case (case fq_id q of None \<Rightarrow> Inr None
            | Some s \<Rightarrow> map_sum id Some (castId rt s)) of
        Inl e \<Rightarrow> Inl e
      | Inr i \<Rightarrow>
          Inr (\<lambda>f. (case i of None \<Rightarrow> True | Some i' \<Rightarrow> f_id f = i')
                 \<and> (case fq_user q of None \<Rightarrow> True | Some u \<Rightarrow> f_user f = u)))"

text \<open>Changing the first document that satisfies a filter, and taking it out.\<close>

fun updateFirst :: "('a \<Rightarrow> bool) \<Rightarrow> ('a \<Rightarrow> 'a) \<Rightarrow> 'a list \<Rightarrow> 'a list" where
  "updateFirst P g [] = []"
| "updateFirst P g (x # xs) = (if P x then g x # xs else x # updateFirst P g xs)"

fun removeFirst :: "('a \<Rightarrow> bool) \<Rightarrow> 'a list \<Rightarrow> 'a list" where
  "removeFirst P [] = []"
| "removeFirst P (x # xs) = (if P x then xs else x # removeFirst P xs)"

subsection \<open>The Task model\<close>

text \<open>
  The schema of \<^verbatim>\<open>models/task.js\<close>: \<open>title\<close> is required, \<open>status\<close> has the enum
  \<^verbatim>\<open>['Pending', 'Completed']\<close> and the default \<^verbatim>\<open>'Pending'\<close>, \<open>folder\<close> defaults to null.
  A required string fails validation when it is missing or empty.
\<close>

definition schemaStatusEnum :: "string list" where
  "schemaStatusEnum = [''Pending'', ''Completed'']"

datatype dateArg = DateNull | DateValue int | DateText string

record taskInput =
  i_title :: "string option"
  i_dueDate :: dateArg
  i_status :: "string option"
  i_folder :: "oid option"
  i_user :: oid

definition castDate :: "runtime \<Rightarrow> dateArg \<Rightarrow> exn + int option" where
  "castDate rt d = (case d of DateNull \<Rightarrow> Inr None
                    | DateValue v \<Rightarrow> Inr (Some v)
                    | DateText s \<Rightarrow> (case castToDate rt s of None \<Rightarrow> Inl CastError
                                      | Some v \<Rightarrow> Inr (Some v)))"

definition Task_create :: "runtime \<Rightarrow> taskInput \<Rightarrow> db \<Rightarrow> exn + (task \<times> db)" where
  "Task_create rt d s =
     (case castDate rt (i_dueDate d) of
        Inl e \<Rightarrow> Inl e
      | Inr due \<Rightarrow>
         (case i_title d of
            None \<Rightarrow> Inl ValidatorError
          | Some ti \<Rightarrow>
              if ti = [] then Inl ValidatorError
              else
                let st = (case i_status d of None \<Rightarrow> ''Pending'' | Some x \<Rightarrow> x) in
                if st \<notin> set schemaStatusEnum then Inl ValidatorError
                else
                  let t = \<lparr>t_id = nextId s, title = ti, dueDate = due, status = st,
                           folder = i_folder d, t_user = i_user d\<rparr>
                  in Inr (t, called (Insert Tasks)
                               (s\<lparr>taskColl := taskColl s @ [t], nextId := Suc (nextId s)\<rparr>))))"

text \<open>
  The handlers sort what \<^verbatim>\<open>find\<close> returns by \<^verbatim>\<open>createdAt\<close> or \<^verbatim>\<open>folderName\<close>. Neither
  schema declares such a path, every document compares equal under these keys, and the
  result is modelled in the order of the collection.
\<close>

definition Task_find :: "runtime \<Rightarrow> tquery \<Rightarrow> db \<Rightarrow> exn + (task list \<times> db)" where
  "Task_find rt q s =
     (case castTaskQuery rt q of
        Inl e \<Rightarrow> Inl e
      | Inr P \<Rightarrow> Inr (filter P (taskColl s), called (Lookup Tasks) s))"

definition Task_findOne :: "runtime \<Rightarrow> tquery \<Rightarrow> db \<Rightarrow> exn + (task option \<times> db)" where
  "Task_findOne rt q s =
     (case castTaskQuery rt q of
        Inl e \<Rightarrow> Inl e
      | Inr P \<Rightarrow> Inr (find P (taskColl s), called (Lookup Tasks) s))"

text \<open>
  An update document for a task: the fields to set, as they arrive. With
  \<^verbatim>\<open>runValidators: true\<close> the schema validators run on the fields being set, before the
  database is reached; without the option an update is cast but not validated.
\<close>

record tupdate =
  u_title :: "string option"
  u_dueDate :: "string option"
  u_status :: "string option"
  u_folder :: "string option"
  u_user :: "string option"

definition validateTaskUpdate :: "tupdate \<Rightarrow> bool" where
  "validateTaskUpdate u =
     ((case u_title u of None \<Rightarrow> True | Some ti \<Rightarrow> ti \<noteq> [])
      \<and> (case u_status u of None \<Rightarrow> True | Some st \<Rightarrow> st \<in> set schemaStatusEnum))"

definition castTaskUpdate :: "runtime \<Rightarrow> tupdate \<Rightarrow> exn + (task \<Rightarrow> task)" where
  "castTaskUpdate rt u =
     (case (case u_dueDate u of None \<Rightarrow> Inr None
            | Some s \<Rightarrow> if s = [] then Inr (Some None)
                        else map_sum id Some (castDate rt (DateText s))) of
        Inl e \<Rightarrow> Inl e
      | Inr due \<Rightarrow>
         (case (case u_folder u of None \<Rightarrow> Inr None
                | Some s \<Rightarrow> map_sum id Some (castId rt s)) of
            Inl e \<Rightarrow> Inl e
          | Inr fo \<Rightarrow>
             (case (case u_user u of None \<Rightarrow> Inr None
                    | Some s \<Rightarrow> map_sum id Some (castId rt s)) of
                Inl e \<Rightarrow> Inl e
              | Inr us \<Rightarrow>
                  Inr (\<lambda>t. t\<lparr>title := (case u_title u of None \<Rightarrow> title t | Some x \<Rightarrow> x),
                             dueDate := (case due of None \<Rightarrow> dueDate t | Some x \<Rightarrow> x),
                             status := (case u_status u of None \<Rightarrow> status t | Some x \<Rightarrow> x),
                             folder := (case fo of None \<Rightarrow> folder t | Some x \<Rightarrow> Some x),
                             t_user := (case us of None \<Rightarrow> t_user t | Some x \<Rightarrow> x)\<rparr>))))"

text \<open>
  An update document with no field to set is not sent as an update: the object mapper runs
  the query as a plain find. The log records the call that reaches the database.
\<close>

definition taskUpdateCall :: "tupdate \<Rightarrow> dbcall" where
  "taskUpdateCall u =
     (if u_title u = None \<and> u_dueDate u = None \<and> u_status u = None \<and> u_folder u = None
         \<and> u_user u = None
      then Lookup Tasks else Update Tasks)"

definition Task_findOneAndUpdate ::
  "runtime \<Rightarrow> tquery \<Rightarrow> tupdate \<Rightarrow> bool \<Rightarrow> db \<Rightarrow> exn + (task option \<times> db)" where
  "Task_findOneAndUpdate rt q u runValidators s =
     (case castTaskQuery rt q of
        Inl e \<Rightarrow> Inl e
      | Inr P \<Rightarrow>
         (case castTaskUpdate rt u of
            Inl e \<Rightarrow> Inl e
          | Inr g \<Rightarrow>
              if runValidators \<and> \<not> validateTaskUpdate u then Inl ValidatorError
              else Inr (map_option g (find P (taskColl s)),
                        called (taskUpdateCall u)
                          (s\<lparr>taskColl := updateFirst P g (taskColl s)\<rparr>))))"

definition Task_findOneAndDelete :: "runtime \<Rightarrow> tquery \<Rightarrow> db \<Rightarrow> exn + (task option \<times> db)" where
  "Task_findOneAndDelete rt q s =
     (case castTaskQuery rt q of
        Inl e \<Rightarrow> Inl e
      | Inr P \<Rightarrow> Inr (find P (taskColl s),
                      called (Remove Tasks) (s\<lparr>taskColl := removeFirst P (taskColl s)\<rparr>)))"

definition Task_deleteMany :: "runtime \<Rightarrow> tquery \<Rightarrow> db \<Rightarrow> exn + db" where
  "Task_deleteMany rt q s =
     (case castTaskQuery rt q of
        Inl e \<Rightarrow> Inl e
      | Inr P \<Rightarrow> Inr (called (Remove Tasks)
                        (s\<lparr>taskColl := filter (\<lambda>t. \<not> P t) (taskColl s)\<rparr>)))"

definition Task_updateMany :: "runtime \<Rightarrow> tquery \<Rightarrow> tupdate \<Rightarrow> db \<Rightarrow> exn + db" where
  "Task_updateMany rt q u s =
     (case castTaskQuery rt q of
        Inl e \<Rightarrow> Inl e
      | Inr P \<Rightarrow>
         (case castTaskUpdate rt u of
            Inl e \<Rightarrow> Inl e
          | Inr g \<Rightarrow> Inr (called (Update Tasks)
                            (s\<lparr>taskColl := map (\<lambda>t. if P t then g t else t) (taskColl s)\<rparr>))))"

subsection \<open>The Folder model\<close>

text \<open>
  The schema of \<^verbatim>\<open>models/folder.js\<close>: \<open>name\<close> is required and \<open>tasks\<close> is a list of task
  identifiers, empty by default. The handlers change a folder in four ways: they set its
  name, push an identifier onto \<open>tasks\<close>, pull one out, or replace the list; an empty update
  document changes nothing.
\<close>

datatype fupdate = NoFields | SetName string | PushTask oid | PullTask oid | SetTasks "oid list"

definition applyFolderUpdate :: "fupdate \<Rightarrow> folder \<Rightarrow> folder" where
  "applyFolderUpdate u f =
     (case u of
        NoFields \<Rightarrow> f
      | SetName n \<Rightarrow> f\<lparr>name := n\<rparr>
      | PushTask i \<Rightarrow> f\<lparr>tasks := tasks f @ [i]\<rparr>
      | PullTask i \<Rightarrow> f\<lparr>tasks := filter (\<lambda>j. j \<noteq> i) (tasks f)\<rparr>
      | SetTasks l \<Rightarrow> f\<lparr>tasks := l\<rparr>)"

definition validateFolderUpdate :: "fupdate \<Rightarrow> bool" where
  "validateFolderUpdate u = (case u of SetName n \<Rightarrow> n \<noteq> [] | _ \<Rightarrow> True)"

definition folderUpdateCall :: "fupdate \<Rightarrow> dbcall" where
  "folderUpdateCall u = (if u = NoFields then Lookup Folders else Update Folders)"

definition Folder_create :: "string \<Rightarrow> oid \<Rightarrow> db \<Rightarrow> exn + (folder \<times> db)" where
  "Folder_create n u s =
     (if n = [] then Inl ValidatorError
      else
        let f = \<lparr>f_id = nextId s, name = n, f_user = u, tasks = []\<rparr>
        in Inr (f, called (Insert Folders)
                     (s\<lparr>folderColl := folderColl s @ [f], nextId := Suc (nextId s)\<rparr>)))"

definition Folder_find :: "runtime \<Rightarrow> fquery \<Rightarrow> db \<Rightarrow> exn + (folder list \<times> db)" where
  "Folder_find rt q s =
     (case castFolderQuery rt q of
        Inl e \<Rightarrow> Inl e
      | Inr P \<Rightarrow> Inr (filter P (folderColl s), called (Lookup Folders) s))"

definition Folder_findOne :: "runtime \<Rightarrow> fquery \<Rightarrow> db \<Rightarrow> exn + (folder option \<times> db)" where
  "Folder_findOne rt q s =
     (case castFolderQuery rt q of
        Inl e \<Rightarrow> Inl e
      | Inr P \<Rightarrow> Inr (find P (folderColl s), called (Lookup Folders) s))"

definition Folder_findOneAndUpdate ::
  "runtime \<Rightarrow> fquery \<Rightarrow> fupdate \<Rightarrow> bool \<Rightarrow> db \<Rightarrow> exn + (folder option \<times> db)" where
  "Folder_findOneAndUpdate rt q u runValidators s =
     (case castFolderQuery rt q of
        Inl e \<Rightarrow> Inl e
      | Inr P \<Rightarrow>
          if runValidators \<and> \<not> validateFolderUpdate u then Inl ValidatorError
          else Inr (map_option (applyFolderUpdate u) (find P (folderColl s)),
                    called (folderUpdateCall u)
                      (s\<lparr>folderColl := updateFirst P (applyFolderUpdate u) (folderColl s)\<rparr>)))"

definition Folder_findByIdAndUpdate ::
  "runtime \<Rightarrow> string \<Rightarrow> fupdate \<Rightarrow> db \<Rightarrow> exn + (folder option \<times> db)" where
  "Folder_findByIdAndUpdate rt i u s =
     Folder_findOneAndUpdate rt \<lparr>fq_id = Some i, fq_user = None\<rparr> u False s"

definition Folder_updateOne :: "runtime \<Rightarrow> fquery \<Rightarrow> fupdate \<Rightarrow> db \<Rightarrow> exn + db" where
  "Folder_updateOne rt q u s = map_sum id snd (Folder_findOneAndUpdate rt q u False s)"

definition Folder_findOneAndDelete ::
  "runtime \<Rightarrow> fquery \<Rightarrow> db \<Rightarrow> exn + (folder option \<times> db)" where
  "Folder_findOneAndDelete rt q s =
     (case castFolderQuery rt q of
        Inl e \<Rightarrow> Inl e
      | Inr P \<Rightarrow> Inr (find P (folderColl s),
                      called (Remove Folders) (s\<lparr>folderColl := removeFirst P (folderColl s)\<rparr>)))"

text \<open>
  \<^verbatim>\<open>folder.save()\<close> after \<^verbatim>\<open>folder.tasks.push(id)\<close> writes the pushed identifier to the
  stored document with the folder's \<open>_id\<close>; \<^verbatim>\<open>populate('tasks')\<close> replaces the
  identifiers of \<open>tasks\<close> by the task documents that still exist.
\<close>

definition Folder_pushAndSave :: "folder \<Rightarrow> oid \<Rightarrow> db \<Rightarrow> db" where
  "Folder_pushAndSave f i s =
     called (Update Folders)
       (s\<lparr>folderColl := updateFirst (\<lambda>x. f_id x = f_id f) (applyFolderUpdate (PushTask i))
                           (folderColl s)\<rparr>)"

definition populateTasks :: "folder \<Rightarrow> db \<Rightarrow> task list \<times> db" where
  "populateTasks f s =
     (List.map_filter (\<lambda>i. find (\<lambda>t. t_id t = i) (taskColl s)) (tasks f),
      called (Lookup Tasks) s)"

section \<open>The handlers of taskController.js\<close>

text \<open>
  A handler takes the authenticated user's identifier (\<^verbatim>\<open>getUserId(req)\<close>), the request's
  parameters and body and the database, and returns the response it sends together with the
  database it leaves. Each handler's body is a \<^verbatim>\<open>try\<close> block whose \<^verbatim>\<open>catch\<close> answers 500:
  an exception of the storage layer ends the handler there, with the database as the calls
  before it left it.
\<close>

definition str :: "string option \<Rightarrow> string" where
  "str v = (case v of None \<Rightarrow> [] | Some s \<Rightarrow> s)"

definition controllerStatuses :: "string list" where
  "controllerStatuses = [''Pending'', ''Working'', ''Completed'']"

text \<open>The document that \<^verbatim>\<open>createTaskOrFolder\<close> hands to \<^verbatim>\<open>Task.create\<close>.\<close>

definition newTaskInput :: "runtime \<Rightarrow> oid \<Rightarrow> body \<Rightarrow> dateArg \<Rightarrow> taskInput" where
  "newTaskInput rt userId b parsedDueDate =
     \<lparr>i_title = b_title b, i_dueDate = parsedDueDate,
      i_status = Some (if truthy (b_status b) then str (b_status b) else ''Pending''),
      i_folder = (if truthy (b_folder b) then toObjectId rt (str (b_folder b)) else None),
      i_user = userId\<rparr>"

definition createTask ::
  "runtime \<Rightarrow> oid \<Rightarrow> body \<Rightarrow> dateArg \<Rightarrow> folder option \<Rightarrow> db \<Rightarrow> response \<times> db" where
  "createTask rt userId b parsedDueDate existingFolder s =
     (case Task_create rt (newTaskInput rt userId b parsedDueDate) s of
        Inl e \<Rightarrow> ((500, ErrorBody ''Server error while creating task or folder.''), s)
      | Inr (newTask, s1) \<Rightarrow>
         (case existingFolder of
            None \<Rightarrow> ((201, MessageTask ''Task created successfully'' newTask), s1)
          | Some ef \<Rightarrow>
             (case Folder_findByIdAndUpdate rt (str (b_folder b)) (PushTask (t_id newTask)) s1 of
                Inl e \<Rightarrow> ((500, ErrorBody ''Server error while creating task or folder.''), s1)
              | Inr (r, s2) \<Rightarrow>
                  ((201, MessageTask ''Task created successfully'' newTask), s2))))"

definition createTaskOrFolder :: "runtime \<Rightarrow> oid \<Rightarrow> body \<Rightarrow> db \<Rightarrow> response \<times> db" where
  "createTaskOrFolder rt userId b s =
     (if \<not> truthy (b_title b) \<or> \<not> truthy (b_type b)
      then ((400, ErrorBody ''Title and type are required.''), s)
      else if b_type b = Some ''folder''
      then (case Folder_create (str (b_title b)) userId s of
              Inl e \<Rightarrow> ((500, ErrorBody ''Server error while creating task or folder.''), s)
            | Inr (newFolder, s1) \<Rightarrow>
                ((201, MessageFolder ''Folder created successfully'' newFolder), s1))
      else if truthy (b_status b) \<and> str (b_status b) \<notin> set controllerStatuses
      then ((400, ErrorBody ''Invalid status value.''), s)
      else if truthy (b_dueDate b) \<and> toDate rt (str (b_dueDate b)) = None
      then ((400, ErrorBody ''Invalid date format.''), s)
      else
        let parsedDueDate =
              (if truthy (b_dueDate b)
               then (case toDate rt (str (b_dueDate b)) of None \<Rightarrow> DateNull
                     | Some d \<Rightarrow> DateValue d)
               else DateNull)
        in
          if truthy (b_folder b)
          then
            if \<not> isValidObjectId rt (str (b_folder b))
            then ((400, ErrorBody ''Invalid folder ID format.''), s)
            else
              (case Folder_findOne rt \<lparr>fq_id = b_folder b, fq_user = Some userId\<rparr> s of
                 Inl e \<Rightarrow> ((500, ErrorBody ''Server error while creating task or folder.''), s)
               | Inr (None, s1) \<Rightarrow>
                   ((400, ErrorBody ''Folder does not exist or does not belong to the user.''), s1)
               | Inr (Some ef, s1) \<Rightarrow> createTask rt userId b parsedDueDate (Some ef) s1)
          else createTask rt userId b parsedDueDate None s)"

definition getAllTasksAndFolders :: "runtime \<Rightarrow> oid \<Rightarrow> db \<Rightarrow> response \<times> db" where
  "getAllTasksAndFolders rt userId s =
     (case Task_find rt \<lparr>q_id = None, q_folder = None, q_user = userId\<rparr> s of
        Inl e \<Rightarrow> ((500, ErrorBody ''Server error while fetching tasks and folders.''), s)
      | Inr (ts, s1) \<Rightarrow>
         (case Folder_find rt \<lparr>fq_id = None, fq_user = Some userId\<rparr> s1 of
            Inl e \<Rightarrow> ((500, ErrorBody ''Server error while fetching tasks and folders.''), s1)
          | Inr (fs, s2) \<Rightarrow> ((200, TasksAndFolders ts fs), s2)))"

definition getTasksByFolder :: "runtime \<Rightarrow> oid \<Rightarrow> string \<Rightarrow> db \<Rightarrow> response \<times> db" where
  "getTasksByFolder rt userId folderId s =
     (case Task_find rt \<lparr>q_id = None, q_folder = Some (Some folderId), q_user = userId\<rparr> s of
        Inl e \<Rightarrow> ((500, ErrorBody ''Server error while fetching tasks by folder.''), s)
      | Inr (ts, s1) \<Rightarrow> ((200, TaskList ts), s1))"

definition getAllTasksWithoutFolder :: "runtime \<Rightarrow> oid \<Rightarrow> db \<Rightarrow> response \<times> db" where
  "getAllTasksWithoutFolder rt userId s =
     (case Task_find rt \<lparr>q_id = None, q_folder = Some None, q_user = userId\<rparr> s of
        Inl e \<Rightarrow> ((500, ErrorBody ''Server error while fetching tasks without folder.''), s)
      | Inr (ts, s1) \<Rightarrow> ((200, TaskList ts), s1))"

definition getTaskById :: "runtime \<Rightarrow> oid \<Rightarrow> string \<Rightarrow> db \<Rightarrow> response \<times> db" where
  "getTaskById rt userId taskId s =
     (case Task_findOne rt \<lparr>q_id = Some taskId, q_folder = None, q_user = userId\<rparr> s of
        Inl e \<Rightarrow> ((500, ErrorBody ''Server error while fetching task/folder.''), s)
      | Inr (Some t, s1) \<Rightarrow> ((200, TaskBody t), s1)
      | Inr (None, s1) \<Rightarrow>
         (case Folder_findOne rt \<lparr>fq_id = Some taskId, fq_user = Some userId\<rparr> s1 of
            Inl e \<Rightarrow> ((500, ErrorBody ''Server error while fetching task/folder.''), s1)
          | Inr (None, s2) \<Rightarrow> ((404, ErrorBody ''Task or folder not found.''), s2)
          | Inr (Some f, s2) \<Rightarrow> ((200, FolderBody f), s2)))"

text \<open>The rename that \<^verbatim>\<open>updateTaskStatus\<close> falls back to: \<^verbatim>\<open>title ? { name: title } : {}\<close>.\<close>

definition folderUpdate :: "body \<Rightarrow> fupdate" where
  "folderUpdate b = (if truthy (b_title b) then SetName (str (b_title b)) else NoFields)"

definition updateTaskStatus :: "runtime \<Rightarrow> oid \<Rightarrow> string \<Rightarrow> body \<Rightarrow> db \<Rightarrow> response \<times> db" where
  "updateTaskStatus rt userId taskId b s =
     (if (case b_status b of None \<Rightarrow> False | Some st \<Rightarrow> st \<notin> set controllerStatuses)
      then ((400, ErrorBody ''Invalid status.''), s)
      else
        if b_title b = None \<and> b_status b = None
        then ((400, ErrorBody ''Provide at least title or status to update.''), s)
        else
          (case Task_findOneAndUpdate rt \<lparr>q_id = Some taskId, q_folder = None, q_user = userId\<rparr>
                  \<lparr>u_title = b_title b, u_dueDate = None, u_status = b_status b,
                   u_folder = None, u_user = None\<rparr> True s of
             Inl e \<Rightarrow> ((500, ErrorBody ''Server error while updating task or folder.''), s)
           | Inr (Some t, s1) \<Rightarrow> ((200, MessageTask ''Task or folder updated.'' t), s1)
           | Inr (None, s1) \<Rightarrow>
              (case Folder_findOneAndUpdate rt \<lparr>fq_id = Some taskId, fq_user = Some userId\<rparr>
                      (folderUpdate b) True s1 of
                 Inl e \<Rightarrow> ((500, ErrorBody ''Server error while updating task or folder.''), s1)
               | Inr (None, s2) \<Rightarrow> ((404, ErrorBody ''Task or folder not found.''), s2)
               | Inr (Some f, s2) \<Rightarrow> ((200, MessageFolder ''Task or folder updated.'' f), s2))))"

definition deleteTaskOrFolder ::
  "runtime \<Rightarrow> oid \<Rightarrow> string option \<Rightarrow> string option \<Rightarrow> db \<Rightarrow> response \<times> db" where
  "deleteTaskOrFolder rt userId type0 id0 s =
     (let swap = (\<not> truthy id0 \<and> truthy type0 \<and> isValidObjectId rt (str type0));
          ident = (if swap then type0 else id0);
          type = (if swap then None else type0)
      in
        if \<not> truthy ident then ((400, ErrorBody ''Missing id parameter.''), s)
        else if type = Some ''task''
        then (case Task_findOneAndDelete rt \<lparr>q_id = ident, q_folder = None, q_user = userId\<rparr> s of
                Inl e \<Rightarrow> ((500, ErrorBody ''Server error while deleting.''), s)
              | Inr (None, s1) \<Rightarrow> ((404, ErrorBody ''Task not found.''), s1)
              | Inr (Some t, s1) \<Rightarrow> ((200, MessageBody ''Task deleted successfully.''), s1))
        else if type = Some ''folder''
        then (case Task_deleteMany rt \<lparr>q_id = None, q_folder = Some ident, q_user = userId\<rparr> s of
                Inl e \<Rightarrow> ((500, ErrorBody ''Server error while deleting.''), s)
              | Inr s1 \<Rightarrow>
                 (case Folder_findOneAndDelete rt \<lparr>fq_id = ident, fq_user = Some userId\<rparr> s1 of
                    Inl e \<Rightarrow> ((500, ErrorBody ''Server error while deleting.''), s1)
                  | Inr (None, s2) \<Rightarrow> ((404, ErrorBody ''Folder not found.''), s2)
                  | Inr (Some f, s2) \<Rightarrow>
                      ((200, MessageBody ''Folder and its tasks deleted successfully.''), s2)))
        else
          (case Task_findOneAndDelete rt \<lparr>q_id = ident, q_folder = None, q_user = userId\<rparr> s of
             Inl e \<Rightarrow> ((500, ErrorBody ''Server error while deleting.''), s)
           | Inr (Some t, s1) \<Rightarrow> ((200, MessageBody ''Task deleted successfully.''), s1)
           | Inr (None, s1) \<Rightarrow>
              (case Folder_findOneAndDelete rt \<lparr>fq_id = ident, fq_user = Some userId\<rparr> s1 of
                 Inl e \<Rightarrow> ((500, ErrorBody ''Server error while deleting.''), s1)
               | Inr (None, s2) \<Rightarrow> ((404, ErrorBody ''Task or folder not found.''), s2)
               | Inr (Some f, s2) \<Rightarrow>
                  (case Task_deleteMany rt \<lparr>q_id = None, q_folder = Some ident, q_user = userId\<rparr>
                          s2 of
                     Inl e \<Rightarrow> ((500, ErrorBody ''Server error while deleting.''), s2)
                   | Inr s3 \<Rightarrow>
                       ((200, MessageBody ''Folder and its tasks deleted successfully.''), s3)))))"

section \<open>The handlers of folderController.js\<close>

text \<open>
  \<^verbatim>\<open>sanitize\<close> trims a path parameter with \<^verbatim>\<open>String.prototype.trim\<close> and \<^verbatim>\<open>isValidId\<close>
  tests the trimmed text. These handlers read the user from \<^verbatim>\<open>req.user.id\<close> and answer an
  exception with its message.

  \<^verbatim>\<open>trim\<close> removes from both ends every code point that ECMAScript counts as white space
  or as a line terminator: U+0009 to U+000D, U+0020, U+00A0, U+1680, U+2000 to U+200A,
  U+2028, U+2029, U+202F, U+205F, U+3000 and U+FEFF. \<open>whiteSpace\<close> lists their UTF-8
  encodings; \<open>strip\<close> removes leading members of a list of byte sequences as long as one
  leads the string, and the trailing ones are removed on the reversed string.
\<close>

definition whiteSpace :: "string list" where
  "whiteSpace =
     [[CHR 0x09], [CHR 0x0A], [CHR 0x0B], [CHR 0x0C], [CHR 0x0D], [CHR 0x20],
      [CHR 0xC2, CHR 0xA0], [CHR 0xE1, CHR 0x9A, CHR 0x80],
      [CHR 0xE2, CHR 0x80, CHR 0x80], [CHR 0xE2, CHR 0x80, CHR 0x81],
      [CHR 0xE2, CHR 0x80, CHR 0x82], [CHR 0xE2, CHR 0x80, CHR 0x83],
      [CHR 0xE2, CHR 0x80, CHR 0x84], [CHR 0xE2, CHR 0x80, CHR 0x85],
      [CHR 0xE2, CHR 0x80, CHR 0x86], [CHR 0xE2, CHR 0x80, CHR 0x87],
      [CHR 0xE2, CHR 0x80, CHR 0x88], [CHR 0xE2, CHR 0x80, CHR 0x89],
      [CHR 0xE2, CHR 0x80, CHR 0x8A], [CHR 0xE2, CHR 0x80, CHR 0xA8],
      [CHR 0xE2, CHR 0x80, CHR 0xA9], [CHR 0xE2, CHR 0x80, CHR 0xAF],
      [CHR 0xE2, CHR 0x81, CHR 0x9F], [CHR 0xE3, CHR 0x80, CHR 0x80],
      [CHR 0xEF, CHR 0xBB, CHR 0xBF]]"

definition leads :: "string \<Rightarrow> string \<Rightarrow> bool" where
  "leads s w = (w \<noteq> [] \<and> take (length w) s = w)"

function strip :: "string list \<Rightarrow> string \<Rightarrow> string" where
  "strip ws s = (case find (leads s) ws of None \<Rightarrow> s | Some w \<Rightarrow> strip ws (drop (length w) s))"
  by pat_completeness auto
termination
proof (relation "measure (\<lambda>(ws, s). length s)")
  show "wf (measure (\<lambda>(ws, s). length s))" by simp
next
  fix ws :: "string list" and s w :: string
  assume "find (leads s) ws = Some w"
  then have "leads s w"
    by (induction ws) (auto split: if_splits)
  then have "w \<noteq> []" and "take (length w) s = w"
    by (simp_all add: leads_def)
  then have "0 < length w"
    by simp
  moreover from \<open>take (length w) s = w\<close> have "length (take (length w) s) = length w"
    by simp
  then have "length w \<le> length s"
    by simp
  ultimately have "length s - length w < length s"
    by arith
  then show "((ws, drop (length w) s), (ws, s)) \<in> measure (\<lambda>(ws, s). length s)"
    by simp
qed

declare strip.simps [simp del]

definition sanitize :: "string \<Rightarrow> string" where
  "sanitize val = rev (strip (map rev whiteSpace) (rev (strip whiteSpace val)))"

definition isValidId :: "runtime \<Rightarrow> string \<Rightarrow> bool" where
  "isValidId rt i = isValidObjectId rt (sanitize i)"

definition getFolderById :: "runtime \<Rightarrow> oid \<Rightarrow> string \<Rightarrow> db \<Rightarrow> response \<times> db" where
  "getFolderById rt userId id0 s =
     (let ident = sanitize id0 in
        if \<not> isValidId rt ident then ((400, ErrorBody ''Invalid folder id''), s)
        else
          (case Folder_findOne rt \<lparr>fq_id = Some ident, fq_user = Some userId\<rparr> s of
             Inl e \<Rightarrow> ((500, ErrorBody (message e)), s)
           | Inr (None, s1) \<Rightarrow> ((404, ErrorBody ''Folder not found''), s1)
           | Inr (Some f, s1) \<Rightarrow>
               (case populateTasks f s1 of (ts, s2) \<Rightarrow> ((200, PopulatedFolder f ts), s2))))"

definition getTasksInFolder :: "runtime \<Rightarrow> oid \<Rightarrow> string \<Rightarrow> db \<Rightarrow> response \<times> db" where
  "getTasksInFolder rt userId folderId0 s =
     (let folderId = sanitize folderId0 in
        if \<not> isValidId rt folderId then ((400, ErrorBody ''Invalid folder id''), s)
        else
          (case Task_find rt \<lparr>q_id = None, q_folder = Some (Some folderId), q_user = userId\<rparr> s of
             Inl e \<Rightarrow> ((500, ErrorBody (message e)), s)
           | Inr (ts, s1) \<Rightarrow> ((200, TaskList ts), s1)))"

text \<open>The document that \<^verbatim>\<open>addTaskToFolder\<close> hands to \<^verbatim>\<open>Task.create\<close>.\<close>

definition folderTaskInput :: "oid \<Rightarrow> body \<Rightarrow> folder \<Rightarrow> taskInput" where
  "folderTaskInput userId b f =
     \<lparr>i_title = b_title b,
      i_dueDate = (if truthy (b_dueDate b) then DateText (str (b_dueDate b)) else DateNull),
      i_status = None, i_folder = Some (f_id f), i_user = userId\<rparr>"

definition addTaskToFolder :: "runtime \<Rightarrow> oid \<Rightarrow> string \<Rightarrow> body \<Rightarrow> db \<Rightarrow> response \<times> db" where
  "addTaskToFolder rt userId folderId0 b s =
     (let folderId = sanitize folderId0 in
        if \<not> isValidId rt folderId then ((400, ErrorBody ''Invalid folder id''), s)
        else
          (case Folder_findOne rt \<lparr>fq_id = Some folderId, fq_user = Some userId\<rparr> s of
             Inl e \<Rightarrow> ((500, ErrorBody (message e)), s)
           | Inr (None, s1) \<Rightarrow> ((404, ErrorBody ''Folder not found''), s1)
           | Inr (Some f, s1) \<Rightarrow>
              (case Task_create rt (folderTaskInput userId b f) s1 of
                 Inl e \<Rightarrow> ((500, ErrorBody (message e)), s1)
               | Inr (t, s2) \<Rightarrow> ((201, TaskBody t), Folder_pushAndSave f (t_id t) s2))))"

definition updateTaskInFolder ::
  "runtime \<Rightarrow> oid \<Rightarrow> string \<Rightarrow> string \<Rightarrow> body \<Rightarrow> db \<Rightarrow> response \<times> db" where
  "updateTaskInFolder rt userId folderId0 taskId0 b s =
     (let folderId = sanitize folderId0; taskId = sanitize taskId0 in
        if \<not> isValidId rt folderId \<or> \<not> isValidId rt taskId
        then ((400, ErrorBody ''Invalid id(s)''), s)
        else
          (case Task_findOneAndUpdate rt
                  \<lparr>q_id = Some taskId, q_folder = Some (Some folderId), q_user = userId\<rparr>
                  \<lparr>u_title = b_title b, u_dueDate = b_dueDate b, u_status = b_status b,
                   u_folder = b_folder b, u_user = b_user b\<rparr> False s of
             Inl e \<Rightarrow> ((400, ErrorBody (message e)), s)
           | Inr (None, s1) \<Rightarrow> ((404, ErrorBody ''Task not found''), s1)
           | Inr (Some t, s1) \<Rightarrow> ((200, TaskBody t), s1)))"

text \<open>The folder controller's own \<^verbatim>\<open>updateTaskStatus\<close>, which sets the status alone.\<close>

definition updateTaskStatusInFolder ::
  "runtime \<Rightarrow> oid \<Rightarrow> string \<Rightarrow> string \<Rightarrow> body \<Rightarrow> db \<Rightarrow> response \<times> db" where
  "updateTaskStatusInFolder rt userId folderId0 taskId0 b s =
     (let folderId = sanitize folderId0; taskId = sanitize taskId0 in
        if \<not> isValidId rt folderId \<or> \<not> isValidId rt taskId
        then ((400, ErrorBody ''Invalid id(s)''), s)
        else
          (case Task_findOneAndUpdate rt
                  \<lparr>q_id = Some taskId, q_folder = Some (Some folderId), q_user = userId\<rparr>
                  \<lparr>u_title = None, u_dueDate = None, u_status = b_status b,
                   u_folder = None, u_user = None\<rparr> False s of
             Inl e \<Rightarrow> ((400, ErrorBody (message e)), s)
           | Inr (None, s1) \<Rightarrow> ((404, ErrorBody ''Task not found''), s1)
           | Inr (Some t, s1) \<Rightarrow> ((200, TaskBody t), s1)))"

definition deleteTaskInFolder ::
  "runtime \<Rightarrow> oid \<Rightarrow> string \<Rightarrow> string \<Rightarrow> db \<Rightarrow> response \<times> db" where
  "deleteTaskInFolder rt userId folderId0 taskId0 s =
     (let folderId = sanitize folderId0; taskId = sanitize taskId0 in
        if \<not> isValidId rt folderId \<or> \<not> isValidId rt taskId
        then ((400, ErrorBody ''Invalid id(s)''), s)
        else
          (case Task_findOneAndDelete rt
                  \<lparr>q_id = Some taskId, q_folder = Some (Some folderId), q_user = userId\<rparr> s of
             Inl e \<Rightarrow> ((500, ErrorBody (message e)), s)
           | Inr (None, s1) \<Rightarrow> ((404, ErrorBody ''Task not found''), s1)
           | Inr (Some t, s1) \<Rightarrow>
              (case Folder_updateOne rt \<lparr>fq_id = Some folderId, fq_user = None\<rparr>
                      (PullTask (t_id t)) s1 of
                 Inl e \<Rightarrow> ((500, ErrorBody (message e)), s1)
               | Inr s2 \<Rightarrow> ((200, MessageBody ''Task deleted''), s2))))"

definition resetProgress :: "runtime \<Rightarrow> oid \<Rightarrow> string \<Rightarrow> db \<Rightarrow> response \<times> db" where
  "resetProgress rt userId id0 s =
     (let ident = sanitize id0 in
        if \<not> isValidId rt ident then ((400, ErrorBody ''Invalid folder id''), s)
        else
          (case Task_updateMany rt \<lparr>q_id = None, q_folder = Some (Some ident), q_user = userId\<rparr>
                  \<lparr>u_title = None, u_dueDate = None, u_status = Some ''Pending'',
                   u_folder = None, u_user = None\<rparr> s of
             Inl e \<Rightarrow> ((500, ErrorBody (message e)), s)
           | Inr s1 \<Rightarrow> ((200, MessageBody ''Folder progress reset''), s1)))"

definition clearProgress :: "runtime \<Rightarrow> oid \<Rightarrow> string \<Rightarrow> db \<Rightarrow> response \<times> db" where
  "clearProgress rt userId id0 s =
     (let ident = sanitize id0 in
        if \<not> isValidId rt ident then ((400, ErrorBody ''Invalid folder id''), s)
        else
          (case Task_deleteMany rt \<lparr>q_id = None, q_folder = Some (Some ident), q_user = userId\<rparr> s of
             Inl e \<Rightarrow> ((500, ErrorBody (message e)), s)
           | Inr s1 \<Rightarrow>
              (case Folder_findByIdAndUpdate rt ident (SetTasks []) s1 of
                 Inl e \<Rightarrow> ((500, ErrorBody (message e)), s1)
               | Inr (r, s2) \<Rightarrow> ((200, MessageBody ''Folder progress cleared''), s2))))"

definition createFolder :: "runtime \<Rightarrow> oid \<Rightarrow> body \<Rightarrow> db \<Rightarrow> response \<times> db" where
  "createFolder rt userId b s =
     (if \<not> truthy (b_name b) then ((400, ErrorBody ''Folder name required''), s)
      else
        (case Folder_create (str (b_name b)) userId s of
           Inl e \<Rightarrow> ((500, ErrorBody (message e)), s)
         | Inr (f, s1) \<Rightarrow> ((201, FolderBody f), s1)))"

section \<open>The routes\<close>

text \<open>
  The requests the two routers accept behind the authentication middleware, and the
  handler each reaches.
\<close>

datatype request =
    PostTask body
  | GetTasks
  | GetTasksOfFolder string
  | GetTasksNoFolder
  | GetTask string
  | PatchTask string body
  | DeleteTyped string string
  | DeleteById string
  | PostFolder body
  | GetFolder string
  | GetFolderTasks string
  | PostFolderTask string body
  | PatchFolderTask string string body
  | PatchFolderTaskStatus string string body
  | DeleteFolderTask string string
  | PatchProgressReset string
  | DeleteProgress string

definition handle :: "runtime \<Rightarrow> oid \<Rightarrow> request \<Rightarrow> db \<Rightarrow> response \<times> db" where
  "handle rt userId req s =
     (case req of
        PostTask b \<Rightarrow> createTaskOrFolder rt userId b s
      | GetTasks \<Rightarrow> getAllTasksAndFolders rt userId s
      | GetTasksOfFolder folderId \<Rightarrow> getTasksByFolder rt userId folderId s
      | GetTasksNoFolder \<Rightarrow> getAllTasksWithoutFolder rt userId s
      | GetTask taskId \<Rightarrow> getTaskById rt userId taskId s
      | PatchTask taskId b \<Rightarrow> updateTaskStatus rt userId taskId b s
      | DeleteTyped ty i \<Rightarrow> deleteTaskOrFolder rt userId (Some ty) (Some i) s
      | DeleteById i \<Rightarrow> deleteTaskOrFolder rt userId None (Some i) s
      | PostFolder b \<Rightarrow> createFolder rt userId b s
      | GetFolder i \<Rightarrow> getFolderById rt userId i s
      | GetFolderTasks folderId \<Rightarrow> getTasksInFolder rt userId folderId s
      | PostFolderTask folderId b \<Rightarrow> addTaskToFolder rt userId folderId b s
      | PatchFolderTask folderId taskId b \<Rightarrow> updateTaskInFolder rt userId folderId taskId b s
      | PatchFolderTaskStatus folderId taskId b \<Rightarrow>
          updateTaskStatusInFolder rt userId folderId taskId b s
      | DeleteFolderTask folderId taskId \<Rightarrow> deleteTaskInFolder rt userId folderId taskId s
      | PatchProgressReset i \<Rightarrow> resetProgress rt userId i s
      | DeleteProgress i \<Rightarrow> clearProgress rt userId i s)"

section \<open>Vocabulary of the properties\<close>

text \<open>
  A user owns a task or a folder with a given identifier when the collection holds such a
  document with that user in its owner field.
\<close>

definition ownsTask :: "db \<Rightarrow> oid \<Rightarrow> oid \<Rightarrow> bool" where
  "ownsTask s u i = (\<exists>t\<in>set (taskColl s). t_id t = i \<and> t_user t = u)"

definition ownsFolder :: "db \<Rightarrow> oid \<Rightarrow> oid \<Rightarrow> bool" where
  "ownsFolder s u i = (\<exists>f\<in>set (folderColl s). f_id f = i \<and> f_user f = u)"

text \<open>
  Identifiers are unique over both collections and were all handed out by the counter: the
  invariant of a database that the handlers have built.
\<close>

definition allIds :: "db \<Rightarrow> oid list" where
  "allIds s = map t_id (taskColl s) @ map f_id (folderColl s)"

definition wf_ids :: "db \<Rightarrow> bool" where
  "wf_ids s = (distinct (allIds s) \<and> (\<forall>i\<in>set (allIds s). i < nextId s))"

text \<open>The patch of an update as it reaches a task: the fields present replace the old ones.\<close>

definition patched :: "body \<Rightarrow> task \<Rightarrow> task" where
  "patched b t = t\<lparr>title := (case b_title b of None \<Rightarrow> title t | Some x \<Rightarrow> x),
                    status := (case b_status b of None \<Rightarrow> status t | Some x \<Rightarrow> x)\<rparr>"

text \<open>
  A patch that passes both validations on its way to a task: it has a title or a status,
  its title is not empty, and its status is one that the controller and the schema both
  accept. A folder reached by the fallback takes the title of the patch as its name.
\<close>

definition acceptedPatch :: "body \<Rightarrow> bool" where
  "acceptedPatch b =
     ((b_title b \<noteq> None \<or> b_status b \<noteq> None) \<and> b_title b \<noteq> Some []
      \<and> (case b_status b of None \<Rightarrow> True | Some st \<Rightarrow> st \<in> {''Pending'', ''Completed''}))"

definition renamed :: "body \<Rightarrow> folder \<Rightarrow> folder" where
  "renamed b f = (case b_title b of None \<Rightarrow> f | Some n \<Rightarrow> f\<lparr>name := n\<rparr>)"

text \<open>The status codes the handlers send; 403, a "forbidden" answer, is not among them.\<close>

definition httpCodes :: "nat set" where
  "httpCodes = {200, 201, 400, 404, 500}"

definition codeOk :: "response \<times> db \<Rightarrow> bool" where
  "codeOk r = (fst (fst r) \<in> httpCodes)"

text \<open>
  A request of user \<open>u\<close> keeps the documents of the others when every task and folder
  that another user owned before is still in its collection, unchanged, afterwards.
\<close>

definition othersKept :: "oid \<Rightarrow> db \<Rightarrow> db \<Rightarrow> bool" where
  "othersKept u s s' =
     ((\<forall>t\<in>set (taskColl s). t_user t \<noteq> u \<longrightarrow> t \<in> set (taskColl s'))
      \<and> (\<forall>f\<in>set (folderColl s). f_user f \<noteq> u \<longrightarrow> f \<in> set (folderColl s')))"

definition keptRes :: "oid \<Rightarrow> db \<Rightarrow> response \<times> db \<Rightarrow> bool" where
  "keptRes u s r = othersKept u s (snd r)"

text \<open>A handler's result whose database has unique identifiers.\<close>

definition wfRes :: "response \<times> db \<Rightarrow> bool" where
  "wfRes r = wf_ids (snd r)"

text \<open>
  What a user can tell of the documents of the others. \<open>withoutDoc i s\<close> is the database
  \<open>s\<close> with no document of the identifier \<open>i\<close>. Two databases look the same to the user
  \<open>u\<close> when they hold the same tasks and folders of \<open>u\<close>, in the same order, and will
  give the same identifier to the next document; two results of a handler carry the same
  response when status code and body agree.
\<close>

definition withoutDoc :: "oid \<Rightarrow> db \<Rightarrow> db" where
  "withoutDoc i s =
     s\<lparr>taskColl := filter (\<lambda>t. t_id t \<noteq> i) (taskColl s),
       folderColl := filter (\<lambda>f. f_id f \<noteq> i) (folderColl s)\<rparr>"

definition sameView :: "oid \<Rightarrow> db \<Rightarrow> db \<Rightarrow> bool" where
  "sameView u s s' =
     (filter (\<lambda>t. t_user t = u) (taskColl s) = filter (\<lambda>t. t_user t = u) (taskColl s')
      \<and> filter (\<lambda>f. f_user f = u) (folderColl s) = filter (\<lambda>f. f_user f = u) (folderColl s')
      \<and> nextId s = nextId s')"

definition sameResp :: "response \<times> db \<Rightarrow> response \<times> db \<Rightarrow> bool" where
  "sameResp a b = (fst a = fst b)"

section \<open>A concrete runtime and database for the examples\<close>

text \<open>
  In the examples an ObjectId is written as 24 hexadecimal digits and one date is known.
  Alice is user 11 and Bob is user 12; Alice has the folder 1 with the task 2, Bob has the
  unfiled task 3 and the folder 4 with the task 5.
\<close>

definition hexDigit :: "char \<Rightarrow> nat option" where
  "hexDigit c =
     map_of [(CHR ''0'', 0), (CHR ''1'', 1), (CHR ''2'', 2), (CHR ''3'', 3), (CHR ''4'', 4),
             (CHR ''5'', 5), (CHR ''6'', 6), (CHR ''7'', 7), (CHR ''8'', 8), (CHR ''9'', 9),
             (CHR ''a'', 10), (CHR ''b'', 11), (CHR ''c'', 12), (CHR ''d'', 13),
             (CHR ''e'', 14), (CHR ''f'', 15), (CHR ''A'', 10), (CHR ''B'', 11),
             (CHR ''C'', 12), (CHR ''D'', 13), (CHR ''E'', 14), (CHR ''F'', 15)] c"

fun hexValue :: "nat \<Rightarrow> string \<Rightarrow> nat option" where
  "hexValue acc [] = Some acc"
| "hexValue acc (c # cs) =
     (case hexDigit c of None \<Rightarrow> None | Some d \<Rightarrow> hexValue (16 * acc + d) cs)"

definition hexRuntime :: runtime where
  "hexRuntime = \<lparr>toObjectId = (\<lambda>s. if length s = 24 then hexValue 0 s else None),
                 toDate = (\<lambda>s. if s = ''2025-01-01'' then Some 1735689600000 else None),
                 castToDate = (\<lambda>s. if s = ''2025-01-01'' then Some 1735689600000 else None)\<rparr>"

definition hex1 :: string where "hex1 = ''000000000000000000000001''"
definition hex2 :: string where "hex2 = ''000000000000000000000002''"
definition hex3 :: string where "hex3 = ''000000000000000000000003''"
definition hex4 :: string where "hex4 = ''000000000000000000000004''"
definition hex5 :: string where "hex5 = ''000000000000000000000005''"
definition hex9 :: string where "hex9 = ''000000000000000000000009''"

definition hex11 :: string where "hex11 = ''00000000000000000000000b''"

definition alice :: oid where "alice = 11"
definition bob :: oid where "bob = 12"

definition noBody :: body where
  "noBody = \<lparr>b_title = None, b_dueDate = None, b_status = None, b_type = None,
             b_folder = None, b_name = None, b_user = None\<rparr>"

definition emptyDb :: db where
  "emptyDb = \<lparr>taskColl = [], folderColl = [], nextId = 1, calls = []\<rparr>"

definition home :: folder where
  "home = \<lparr>f_id = 1, name = ''Home'', f_user = 11, tasks = [2]\<rparr>"

definition work :: folder where
  "work = \<lparr>f_id = 4, name = ''Work'', f_user = 12, tasks = [5]\<rparr>"

definition dishes :: task where
  "dishes = \<lparr>t_id = 2, title = ''Dishes'', dueDate = None, status = ''Completed'',
             folder = Some 1, t_user = 11\<rparr>"

definition taxes :: task where
  "taxes = \<lparr>t_id = 3, title = ''Taxes'', dueDate = None, status = ''Pending'',
            folder = None, t_user = 12\<rparr>"

definition report :: task where
  "report = \<lparr>t_id = 5, title = ''Report'', dueDate = None, status = ''Completed'',
             folder = Some 4, t_user = 12\<rparr>"

definition sampleDb :: db where
  "sampleDb = \<lparr>taskColl = [dishes, taxes, report], folderColl = [home, work],
               nextId = 6, calls = []\<rparr>"

section \<open>Basic facts\<close>

lemmas query_defs = castTaskQuery_def castFolderQuery_def castId_def

lemmas task_defs = Task_create_def Task_find_def Task_findOne_def Task_findOneAndUpdate_def
  Task_findOneAndDelete_def Task_deleteMany_def Task_updateMany_def castTaskUpdate_def
  castDate_def validateTaskUpdate_def schemaStatusEnum_def taskUpdateCall_def


lemmas misc_defs = called_def isValidObjectId_def isValidId_def controllerStatuses_def

lemma sanitize_hex:
  "sanitize ''000000000000000000000001'' = ''000000000000000000000001''"
  "sanitize ''000000000000000000000002'' = ''000000000000000000000002''"
  "sanitize ''000000000000000000000003'' = ''000000000000000000000003''"
  "sanitize ''000000000000000000000004'' = ''000000000000000000000004''"
  "sanitize ''000000000000000000000005'' = ''000000000000000000000005''"
  "sanitize ''000000000000000000000009'' = ''000000000000000000000009''"
  by (simp_all add: sanitize_def strip.simps whiteSpace_def leads_def)

lemmas sample_defs = hexRuntime_def hex1_def hex2_def hex3_def hex4_def hex5_def hex9_def alice_def
  bob_def noBody_def emptyDb_def home_def work_def dishes_def taxes_def report_def sampleDb_def
  hexDigit_def sanitize_hex

lemma truthy_simps [simp]: "truthy None = False" "truthy (Some x) = (x \<noteq> [])"
  by (simp_all add: truthy_def)

lemma str_simps [simp]: "str None = []" "str (Some x) = x"
  by (simp_all add: str_def)


lemma truthy_Some_str: "truthy v \<Longrightarrow> v = Some (str v)"
  by (cases v) simp_all

lemma hex_ids:
  "toObjectId hexRuntime hex1 = Some 1" "toObjectId hexRuntime hex2 = Some 2"
  "toObjectId hexRuntime hex4 = Some 4" "toObjectId hexRuntime hex5 = Some 5"
  "toObjectId hexRuntime hex9 = Some 9" "toObjectId hexRuntime ''xyz'' = None"
  "toObjectId hexRuntime hex3 = Some 3"
  by (simp_all add: sample_defs)

lemma find_Some_mem: "find P xs = Some x \<Longrightarrow> x \<in> set xs \<and> P x"
  by (induction xs) (auto split: if_splits)

lemma updateFirst_map_key: "map k (updateFirst P g xs) = map k xs" if "\<And>x. k (g x) = k x"
  by (induction xs) (simp_all add: that)

text \<open>Trimming twice is trimming once, so \<^verbatim>\<open>isValidId\<close> of a sanitized parameter tests it as it is.\<close>

lemma strip_fixed: "find (leads s) ws = None \<Longrightarrow> strip ws s = s"
  by (subst strip.simps) simp

lemma strip_no_lead: "find (leads (strip ws s)) ws = None"
proof (induction ws s rule: strip.induct)
  case (1 ws s)
  show ?case
  proof (cases "find (leads s) ws")
    case None
    then show ?thesis by (simp add: strip_fixed)
  next
    case (Some w)
    with 1 show ?thesis by (subst strip.simps) simp
  qed
qed

lemma strip_idem: "strip ws (strip ws s) = strip ws s"
  by (rule strip_fixed) (rule strip_no_lead)

lemma strip_suffix: "\<exists>p. s = p @ strip ws s"
proof (induction ws s rule: strip.induct)
  case (1 ws s)
  show ?case
  proof (cases "find (leads s) ws")
    case None
    then show ?thesis by (simp add: strip_fixed)
  next
    case (Some w)
    with 1 obtain p where "drop (length w) s = p @ strip ws (drop (length w) s)"
      by blast
    then have "s = (take (length w) s @ p) @ strip ws (drop (length w) s)"
      by (metis append.assoc append_take_drop_id)
    moreover from Some have "strip ws s = strip ws (drop (length w) s)"
      by (subst strip.simps) simp
    ultimately show ?thesis by metis
  qed
qed

lemma leads_prefix: "leads t w \<Longrightarrow> leads (t @ q) w"
  by (auto simp: leads_def) (metis length_take min.cobounded2 nat_le_linear take_all)

lemma no_lead_prefix:
  assumes "find (leads (t @ q)) ws = None"
  shows "find (leads t) ws = None"
  using assms by (auto simp: find_None_iff dest: leads_prefix)

lemma sanitize_idem: "sanitize (sanitize s) = sanitize s"
proof -
  define t where "t = strip whiteSpace s"
  define e where "e = strip (map rev whiteSpace) (rev t)"
  have san: "sanitize s = rev e"
    by (simp add: sanitize_def t_def e_def)
  from strip_suffix [of "rev t" "map rev whiteSpace"] obtain p where "rev t = p @ e"
    by (auto simp: e_def)
  then have "t = rev e @ rev p"
    by (metis rev_append rev_rev_ident)
  moreover have "find (leads t) whiteSpace = None"
    unfolding t_def by (rule strip_no_lead)
  ultimately have "find (leads (rev e)) whiteSpace = None"
    by (metis no_lead_prefix)
  then have "strip whiteSpace (rev e) = rev e"
    by (rule strip_fixed)
  moreover have "strip (map rev whiteSpace) e = e"
    unfolding e_def by (rule strip_idem)
  ultimately have "sanitize (rev e) = rev e"
    by (simp add: sanitize_def)
  then show ?thesis
    by (simp add: san)
qed


text \<open>The filters the handlers use, after the cast.\<close>

lemma castTaskQuery_byId:
  "castTaskQuery rt \<lparr>q_id = Some sid, q_folder = None, q_user = u\<rparr> =
     (case toObjectId rt sid of None \<Rightarrow> Inl CastError
      | Some i \<Rightarrow> Inr (\<lambda>t. t_id t = i \<and> t_user t = u))"
  by (simp add: query_defs split: option.splits)

lemma castTaskQuery_byFolder:
  "castTaskQuery rt \<lparr>q_id = None, q_folder = Some (Some sid), q_user = u\<rparr> =
     (case toObjectId rt sid of None \<Rightarrow> Inl CastError
      | Some i \<Rightarrow> Inr (\<lambda>t. folder t = Some i \<and> t_user t = u))"
  by (simp add: query_defs split: option.splits)

lemma castTaskQuery_byIdFolder:
  "castTaskQuery rt \<lparr>q_id = Some sid, q_folder = Some (Some fid), q_user = u\<rparr> =
     (case toObjectId rt sid of None \<Rightarrow> Inl CastError
      | Some i \<Rightarrow> (case toObjectId rt fid of None \<Rightarrow> Inl CastError
                    | Some j \<Rightarrow> Inr (\<lambda>t. t_id t = i \<and> folder t = Some j \<and> t_user t = u)))"
  by (simp add: query_defs split: option.splits)

lemma castFolderQuery_byIdUser:
  "castFolderQuery rt \<lparr>fq_id = Some sid, fq_user = Some u\<rparr> =
     (case toObjectId rt sid of None \<Rightarrow> Inl CastError
      | Some i \<Rightarrow> Inr (\<lambda>f. f_id f = i \<and> f_user f = u))"
  by (simp add: query_defs split: option.splits)

lemma castFolderQuery_byId:
  "castFolderQuery rt \<lparr>fq_id = Some sid, fq_user = None\<rparr> =
     (case toObjectId rt sid of None \<Rightarrow> Inl CastError
      | Some i \<Rightarrow> Inr (\<lambda>f. f_id f = i))"
  by (simp add: query_defs split: option.splits)

lemmas cast_simps = castTaskQuery_byId castTaskQuery_byFolder castTaskQuery_byIdFolder
  castFolderQuery_byIdUser castFolderQuery_byId

text \<open>What the uniqueness of identifiers gives.\<close>

lemma wf_ids_task_unique:
  "wf_ids s \<Longrightarrow> t \<in> set (taskColl s) \<Longrightarrow> t' \<in> set (taskColl s) \<Longrightarrow> t_id t = t_id t'
     \<Longrightarrow> t = t'"
  by (auto simp: wf_ids_def allIds_def distinct_map inj_on_def)

lemma wf_ids_folder_unique:
  "wf_ids s \<Longrightarrow> f \<in> set (folderColl s) \<Longrightarrow> f' \<in> set (folderColl s) \<Longrightarrow> f_id f = f_id f'
     \<Longrightarrow> f = f'"
  by (auto simp: wf_ids_def allIds_def distinct_map inj_on_def)

lemma wf_ids_task_folder:
  "wf_ids s \<Longrightarrow> t \<in> set (taskColl s) \<Longrightarrow> f \<in> set (folderColl s) \<Longrightarrow> t_id t \<noteq> f_id f"
  by (auto simp: wf_ids_def allIds_def)

section \<open>Effects of the storage calls\<close>

lemma Task_create_Inr:
  "Task_create rt d s = Inr (t, s') \<Longrightarrow>
     s' = called (Insert Tasks) (s\<lparr>taskColl := taskColl s @ [t], nextId := Suc (nextId s)\<rparr>)
     \<and> t_id t = nextId s \<and> t_user t = i_user d \<and> folder t = i_folder d
     \<and> status t \<in> set schemaStatusEnum \<and> title t \<noteq> []"
  by (auto simp: Task_create_def Let_def split: sum.splits option.splits if_splits)

lemma Folder_create_Inr:
  "Folder_create n u s = Inr (f, s') \<Longrightarrow>
     s' = called (Insert Folders) (s\<lparr>folderColl := folderColl s @ [f], nextId := Suc (nextId s)\<rparr>)
     \<and> f_id f = nextId s \<and> f_user f = u \<and> name f = n \<and> tasks f = []"
  by (auto simp: Folder_create_def Let_def split: if_splits)

lemma Task_find_Inr: "Task_find rt q s = Inr (r, s') \<Longrightarrow> s' = called (Lookup Tasks) s"
  by (auto simp: Task_find_def split: sum.splits)

lemma Task_findOne_Inr:
  "Task_findOne rt q s = Inr (r, s') \<Longrightarrow>
     s' = called (Lookup Tasks) s \<and> (\<exists>P. castTaskQuery rt q = Inr P \<and> r = find P (taskColl s))"
  by (auto simp: Task_findOne_def split: sum.splits)

lemma Folder_find_Inr: "Folder_find rt q s = Inr (r, s') \<Longrightarrow> s' = called (Lookup Folders) s"
  by (auto simp: Folder_find_def split: sum.splits)

lemma Folder_findOne_Inr:
  "Folder_findOne rt q s = Inr (r, s') \<Longrightarrow>
     s' = called (Lookup Folders) s
     \<and> (\<exists>P. castFolderQuery rt q = Inr P \<and> r = find P (folderColl s))"
  by (auto simp: Folder_findOne_def split: sum.splits)

lemma castTaskUpdate_id: "castTaskUpdate rt u = Inr g \<Longrightarrow> t_id (g t) = t_id t"
  by (auto simp: castTaskUpdate_def split: sum.splits option.splits if_splits)

lemma Task_findOneAndUpdate_Inr:
  "Task_findOneAndUpdate rt q u v s = Inr (r, s') \<Longrightarrow>
     \<exists>P g. castTaskQuery rt q = Inr P \<and> castTaskUpdate rt u = Inr g
        \<and> (v \<longrightarrow> validateTaskUpdate u)
        \<and> r = map_option g (find P (taskColl s))
        \<and> s' = called (taskUpdateCall u) (s\<lparr>taskColl := updateFirst P g (taskColl s)\<rparr>)"
  by (auto simp: Task_findOneAndUpdate_def split: sum.splits if_splits)

lemma Task_findOneAndDelete_Inr:
  "Task_findOneAndDelete rt q s = Inr (r, s') \<Longrightarrow>
     \<exists>P. castTaskQuery rt q = Inr P \<and> r = find P (taskColl s)
        \<and> s' = called (Remove Tasks) (s\<lparr>taskColl := removeFirst P (taskColl s)\<rparr>)"
  by (auto simp: Task_findOneAndDelete_def split: sum.splits)

lemma Task_deleteMany_Inr:
  "Task_deleteMany rt q s = Inr s' \<Longrightarrow>
     \<exists>P. castTaskQuery rt q = Inr P
        \<and> s' = called (Remove Tasks) (s\<lparr>taskColl := filter (\<lambda>t. \<not> P t) (taskColl s)\<rparr>)"
  by (auto simp: Task_deleteMany_def split: sum.splits)

lemma Task_updateMany_Inr:
  "Task_updateMany rt q u s = Inr s' \<Longrightarrow>
     \<exists>P g. castTaskQuery rt q = Inr P \<and> castTaskUpdate rt u = Inr g
        \<and> s' = called (Update Tasks)
                 (s\<lparr>taskColl := map (\<lambda>t. if P t then g t else t) (taskColl s)\<rparr>)"
  by (auto simp: Task_updateMany_def split: sum.splits)

lemma Folder_findOneAndUpdate_Inr:
  "Folder_findOneAndUpdate rt q u v s = Inr (r, s') \<Longrightarrow>
     \<exists>P. castFolderQuery rt q = Inr P
        \<and> r = map_option (applyFolderUpdate u) (find P (folderColl s))
        \<and> s' = called (folderUpdateCall u)
                 (s\<lparr>folderColl := updateFirst P (applyFolderUpdate u) (folderColl s)\<rparr>)"
  by (auto simp: Folder_findOneAndUpdate_def split: sum.splits if_splits)


lemma Folder_updateOne_Inr:
  "Folder_updateOne rt q u s = Inr s' \<Longrightarrow>
     \<exists>P. castFolderQuery rt q = Inr P
        \<and> s' = called (folderUpdateCall u)
                 (s\<lparr>folderColl := updateFirst P (applyFolderUpdate u) (folderColl s)\<rparr>)"
  by (auto simp: Folder_updateOne_def map_sum_def split: sum.splits dest!: Folder_findOneAndUpdate_Inr)

lemma Folder_findOneAndDelete_Inr:
  "Folder_findOneAndDelete rt q s = Inr (r, s') \<Longrightarrow>
     \<exists>P. castFolderQuery rt q = Inr P \<and> r = find P (folderColl s)
        \<and> s' = called (Remove Folders) (s\<lparr>folderColl := removeFirst P (folderColl s)\<rparr>)"
  by (auto simp: Folder_findOneAndDelete_def split: sum.splits)

lemma applyFolderUpdate_id [simp]: "f_id (applyFolderUpdate u f) = f_id f"
  by (simp add: applyFolderUpdate_def split: fupdate.splits)

lemma applyFolderUpdate_user [simp]: "f_user (applyFolderUpdate u f) = f_user f"
  by (simp add: applyFolderUpdate_def split: fupdate.splits)

lemma called_simps [simp]:
  "taskColl (called c s) = taskColl s" "folderColl (called c s) = folderColl s"
  "nextId (called c s) = nextId s" "calls (called c s) = calls s @ [c]"
  by (simp_all add: called_def)

section \<open>Unique identifiers are an invariant\<close>

text \<open>
  The hypothesis \<open>wf_ids\<close> of the statements about cascade delete and about other users'
  documents holds of the empty database and is kept by every request, so it holds of every
  database the service can reach.
\<close>

lemma wfRes_leaf: "wf_ids s \<Longrightarrow> wfRes (r, s)"
  by (simp add: wfRes_def)

lemma wfRes_if: "wfRes x \<Longrightarrow> wfRes y \<Longrightarrow> wfRes (if c then x else y)"
  by simp

lemma wfRes_sum:
  "(\<And>e. r = Inl e \<Longrightarrow> wfRes (f e)) \<Longrightarrow> (\<And>x. r = Inr x \<Longrightarrow> wfRes (g x))
     \<Longrightarrow> wfRes (case_sum f g r)"
  by (cases r) simp_all

lemma wfRes_option:
  "(r = None \<Longrightarrow> wfRes x) \<Longrightarrow> (\<And>y. r = Some y \<Longrightarrow> wfRes (g y)) \<Longrightarrow> wfRes (case_option x g r)"
  by (cases r) simp_all

lemma wfRes_prod: "(\<And>x y. p = (x, y) \<Longrightarrow> wfRes (f x y)) \<Longrightarrow> wfRes (case_prod f p)"
  by (cases p) simp

lemma wfRes_Let: "wfRes (f x) \<Longrightarrow> wfRes (Let x f)"
  by simp

lemmas wfRes_rules = wfRes_if wfRes_sum wfRes_option wfRes_prod wfRes_Let wfRes_leaf

lemma wf_ids_called [simp]: "wf_ids (called c s) = wf_ids s"
  by (simp add: wf_ids_def allIds_def)

lemma removeFirst_subset: "set (removeFirst P xs) \<subseteq> set xs"
  by (induction xs) auto

lemma removeFirst_distinct: "distinct (map k xs) \<Longrightarrow> distinct (map k (removeFirst P xs))"
proof (induction xs)
  case Nil
  then show ?case by simp
next
  case (Cons x xs)
  then show ?case
    using removeFirst_subset [of P xs] by auto
qed

lemma wf_ids_shrink:
  assumes "wf_ids s" and "set ts \<subseteq> set (taskColl s)" and "distinct (map t_id ts)"
    and "set fs \<subseteq> set (folderColl s)" and "distinct (map f_id fs)"
  shows "wf_ids (s\<lparr>taskColl := ts, folderColl := fs\<rparr>)"
  using assms by (auto simp: wf_ids_def allIds_def)

lemma wf_ids_same_ids:
  assumes "wf_ids s" and "map t_id ts = map t_id (taskColl s)"
    and "map f_id fs = map f_id (folderColl s)"
  shows "wf_ids (s\<lparr>taskColl := ts, folderColl := fs\<rparr>)"
proof -
  from assms(2) have "set (map t_id ts) = set (map t_id (taskColl s))" by simp
  moreover from assms(3) have "set (map f_id fs) = set (map f_id (folderColl s))" by simp
  ultimately show ?thesis
    using assms by (simp add: wf_ids_def allIds_def)
qed

lemma wf_Task_create: "wf_ids s \<Longrightarrow> Task_create rt d s = Inr (t, s') \<Longrightarrow> wf_ids s'"
  by (drule Task_create_Inr) (auto simp: wf_ids_def allIds_def less_Suc_eq)

lemma wf_Folder_create: "wf_ids s \<Longrightarrow> Folder_create n u s = Inr (f, s') \<Longrightarrow> wf_ids s'"
  by (drule Folder_create_Inr) (auto simp: wf_ids_def allIds_def less_Suc_eq)

lemma wf_Task_find: "wf_ids s \<Longrightarrow> Task_find rt q s = Inr (r, s') \<Longrightarrow> wf_ids s'"
  by (drule Task_find_Inr) simp

lemma wf_Task_findOne: "wf_ids s \<Longrightarrow> Task_findOne rt q s = Inr (r, s') \<Longrightarrow> wf_ids s'"
  by (drule Task_findOne_Inr) simp

lemma wf_Folder_find: "wf_ids s \<Longrightarrow> Folder_find rt q s = Inr (r, s') \<Longrightarrow> wf_ids s'"
  by (drule Folder_find_Inr) simp

lemma wf_Folder_findOne: "wf_ids s \<Longrightarrow> Folder_findOne rt q s = Inr (r, s') \<Longrightarrow> wf_ids s'"
  by (drule Folder_findOne_Inr) simp

lemma wf_tasks_same_ids:
  "wf_ids s \<Longrightarrow> map t_id ts = map t_id (taskColl s) \<Longrightarrow> wf_ids (s\<lparr>taskColl := ts\<rparr>)"
  using wf_ids_same_ids [of s ts "folderColl s"] by simp

lemma wf_folders_same_ids:
  "wf_ids s \<Longrightarrow> map f_id fs = map f_id (folderColl s) \<Longrightarrow> wf_ids (s\<lparr>folderColl := fs\<rparr>)"
  using wf_ids_same_ids [of s "taskColl s" fs] by simp

lemma wf_tasks_shrink:
  "wf_ids s \<Longrightarrow> set ts \<subseteq> set (taskColl s) \<Longrightarrow> distinct (map t_id ts)
     \<Longrightarrow> wf_ids (s\<lparr>taskColl := ts\<rparr>)"
  using wf_ids_shrink [of s ts "folderColl s"] by (simp add: wf_ids_def allIds_def)

lemma wf_folders_shrink:
  "wf_ids s \<Longrightarrow> set fs \<subseteq> set (folderColl s) \<Longrightarrow> distinct (map f_id fs)
     \<Longrightarrow> wf_ids (s\<lparr>folderColl := fs\<rparr>)"
  using wf_ids_shrink [of s "taskColl s" fs] by (simp add: wf_ids_def allIds_def)

lemma wf_Task_findOneAndUpdate:
  "wf_ids s \<Longrightarrow> Task_findOneAndUpdate rt q u v s = Inr (r, s') \<Longrightarrow> wf_ids s'"
  by (drule Task_findOneAndUpdate_Inr)
     (auto simp: updateFirst_map_key castTaskUpdate_id intro!: wf_tasks_same_ids)

lemma wf_Task_updateMany:
  "wf_ids s \<Longrightarrow> Task_updateMany rt q u s = Inr s' \<Longrightarrow> wf_ids s'"
  by (drule Task_updateMany_Inr)
     (auto simp: castTaskUpdate_id intro!: wf_tasks_same_ids)

lemma wf_Task_findOneAndDelete:
  "wf_ids s \<Longrightarrow> Task_findOneAndDelete rt q s = Inr (r, s') \<Longrightarrow> wf_ids s'"
proof -
  assume wf: "wf_ids s" and "Task_findOneAndDelete rt q s = Inr (r, s')"
  then obtain P where s': "s' = called (Remove Tasks) (s\<lparr>taskColl := removeFirst P (taskColl s)\<rparr>)"
    by (auto dest: Task_findOneAndDelete_Inr)
  from wf have "distinct (map t_id (taskColl s))"
    by (simp add: wf_ids_def allIds_def)
  then have "distinct (map t_id (removeFirst P (taskColl s)))"
    by (rule removeFirst_distinct)
  with wf removeFirst_subset show ?thesis
    unfolding s' wf_ids_called by (intro wf_tasks_shrink)
qed

lemma wf_Task_deleteMany:
  "wf_ids s \<Longrightarrow> Task_deleteMany rt q s = Inr s' \<Longrightarrow> wf_ids s'"
proof -
  assume wf: "wf_ids s" and "Task_deleteMany rt q s = Inr s'"
  then obtain P where s': "s' = called (Remove Tasks)
      (s\<lparr>taskColl := filter (\<lambda>t. \<not> P t) (taskColl s)\<rparr>)"
    by (auto dest: Task_deleteMany_Inr)
  from wf have "distinct (map t_id (taskColl s))"
    by (simp add: wf_ids_def allIds_def)
  then have "distinct (map t_id (filter (\<lambda>t. \<not> P t) (taskColl s)))"
    by (rule distinct_map_filter)
  moreover have "set (filter (\<lambda>t. \<not> P t) (taskColl s)) \<subseteq> set (taskColl s)"
    by simp
  ultimately show ?thesis
    unfolding s' wf_ids_called using wf by (intro wf_tasks_shrink)
qed

lemma wf_Folder_findOneAndUpdate:
  "wf_ids s \<Longrightarrow> Folder_findOneAndUpdate rt q u v s = Inr (r, s') \<Longrightarrow> wf_ids s'"
  by (drule Folder_findOneAndUpdate_Inr)
     (auto simp: updateFirst_map_key intro!: wf_folders_same_ids)

lemma wf_Folder_findByIdAndUpdate:
  "wf_ids s \<Longrightarrow> Folder_findByIdAndUpdate rt i u s = Inr (r, s') \<Longrightarrow> wf_ids s'"
  unfolding Folder_findByIdAndUpdate_def by (rule wf_Folder_findOneAndUpdate)

lemma wf_Folder_updateOne:
  "wf_ids s \<Longrightarrow> Folder_updateOne rt q u s = Inr s' \<Longrightarrow> wf_ids s'"
  by (drule Folder_updateOne_Inr)
     (auto simp: updateFirst_map_key intro!: wf_folders_same_ids)

lemma wf_Folder_findOneAndDelete:
  "wf_ids s \<Longrightarrow> Folder_findOneAndDelete rt q s = Inr (r, s') \<Longrightarrow> wf_ids s'"
proof -
  assume wf: "wf_ids s" and "Folder_findOneAndDelete rt q s = Inr (r, s')"
  then obtain P where s': "s' = called (Remove Folders)
      (s\<lparr>folderColl := removeFirst P (folderColl s)\<rparr>)"
    by (auto dest: Folder_findOneAndDelete_Inr)
  from wf have "distinct (map f_id (folderColl s))"
    by (simp add: wf_ids_def allIds_def)
  then have "distinct (map f_id (removeFirst P (folderColl s)))"
    by (rule removeFirst_distinct)
  with wf removeFirst_subset show ?thesis
    unfolding s' wf_ids_called by (intro wf_folders_shrink)
qed

lemma wf_Folder_pushAndSave: "wf_ids s \<Longrightarrow> wf_ids (Folder_pushAndSave f i s)"
  by (auto simp: Folder_pushAndSave_def updateFirst_map_key intro!: wf_folders_same_ids)

lemma wf_populateTasks: "wf_ids s \<Longrightarrow> populateTasks f s = (ts, s') \<Longrightarrow> wf_ids s'"
  by (auto simp: populateTasks_def)

lemmas wf_storage = wf_Task_create wf_Folder_create wf_Task_find wf_Task_findOne wf_Folder_find
  wf_Folder_findOne wf_Task_findOneAndUpdate wf_Task_updateMany wf_Task_findOneAndDelete
  wf_Task_deleteMany wf_Folder_findOneAndUpdate wf_Folder_findByIdAndUpdate wf_Folder_updateOne
  wf_Folder_findOneAndDelete wf_Folder_pushAndSave wf_populateTasks

lemma wf_createTask: "wf_ids s \<Longrightarrow> wfRes (createTask rt u b d e s)"
  unfolding createTask_def by (intro wfRes_rules) (auto dest: wf_storage)

lemma wf_createTaskOrFolder: "wf_ids s \<Longrightarrow> wfRes (createTaskOrFolder rt u b s)"
  unfolding createTaskOrFolder_def by (intro wfRes_rules wf_createTask) (auto dest: wf_storage)

lemma wf_getAllTasksAndFolders: "wf_ids s \<Longrightarrow> wfRes (getAllTasksAndFolders rt u s)"
  unfolding getAllTasksAndFolders_def by (intro wfRes_rules) (auto dest: wf_storage)

lemma wf_getTasksByFolder: "wf_ids s \<Longrightarrow> wfRes (getTasksByFolder rt u i s)"
  unfolding getTasksByFolder_def by (intro wfRes_rules) (auto dest: wf_storage)

lemma wf_getAllTasksWithoutFolder: "wf_ids s \<Longrightarrow> wfRes (getAllTasksWithoutFolder rt u s)"
  unfolding getAllTasksWithoutFolder_def by (intro wfRes_rules) (auto dest: wf_storage)

lemma wf_getTaskById: "wf_ids s \<Longrightarrow> wfRes (getTaskById rt u i s)"
  unfolding getTaskById_def by (intro wfRes_rules) (auto dest: wf_storage)

lemma wf_updateTaskStatus: "wf_ids s \<Longrightarrow> wfRes (updateTaskStatus rt u i b s)"
  unfolding updateTaskStatus_def by (intro wfRes_rules) (auto dest: wf_storage)

lemma wf_deleteTaskOrFolder: "wf_ids s \<Longrightarrow> wfRes (deleteTaskOrFolder rt u ty i s)"
  unfolding deleteTaskOrFolder_def
  by (intro wfRes_rules)
     (blast dest: wf_Task_findOneAndDelete wf_Folder_findOneAndDelete wf_Task_deleteMany)+

lemma wf_createFolder: "wf_ids s \<Longrightarrow> wfRes (createFolder rt u b s)"
  unfolding createFolder_def by (intro wfRes_rules) (auto dest: wf_storage)

lemma wf_getFolderById: "wf_ids s \<Longrightarrow> wfRes (getFolderById rt u i s)"
  unfolding getFolderById_def by (intro wfRes_rules) (auto dest: wf_storage)

lemma wf_getTasksInFolder: "wf_ids s \<Longrightarrow> wfRes (getTasksInFolder rt u i s)"
  unfolding getTasksInFolder_def by (intro wfRes_rules) (auto dest: wf_storage)

lemma wf_addTaskToFolder: "wf_ids s \<Longrightarrow> wfRes (addTaskToFolder rt u i b s)"
  unfolding addTaskToFolder_def
  by (intro wfRes_rules) (auto dest: wf_storage intro!: wf_Folder_pushAndSave)

lemma wf_updateTaskInFolder: "wf_ids s \<Longrightarrow> wfRes (updateTaskInFolder rt u i j b s)"
  unfolding updateTaskInFolder_def by (intro wfRes_rules) (auto dest: wf_storage)

lemma wf_updateTaskStatusInFolder:
  "wf_ids s \<Longrightarrow> wfRes (updateTaskStatusInFolder rt u i j b s)"
  unfolding updateTaskStatusInFolder_def by (intro wfRes_rules) (auto dest: wf_storage)

lemma wf_deleteTaskInFolder: "wf_ids s \<Longrightarrow> wfRes (deleteTaskInFolder rt u i j s)"
  unfolding deleteTaskInFolder_def by (intro wfRes_rules) (auto dest: wf_storage)

lemma wf_resetProgress: "wf_ids s \<Longrightarrow> wfRes (resetProgress rt u i s)"
  unfolding resetProgress_def by (intro wfRes_rules) (auto dest: wf_storage)

lemma wf_clearProgress: "wf_ids s \<Longrightarrow> wfRes (clearProgress rt u i s)"
  unfolding clearProgress_def by (intro wfRes_rules) (auto dest: wf_storage)

lemmas wf_handlers = wf_createTaskOrFolder wf_getAllTasksAndFolders wf_getTasksByFolder
  wf_getAllTasksWithoutFolder wf_getTaskById wf_updateTaskStatus wf_deleteTaskOrFolder
  wf_createFolder wf_getFolderById wf_getTasksInFolder wf_addTaskToFolder wf_updateTaskInFolder
  wf_updateTaskStatusInFolder wf_deleteTaskInFolder wf_resetProgress wf_clearProgress

lemma wf_ids_handle: "wf_ids s \<Longrightarrow> wf_ids (snd (handle rt u req s))"
  by (cases req) (simp_all add: handle_def wf_handlers [unfolded wfRes_def])

lemma wf_ids_emptyDb: "wf_ids emptyDb"
  by (simp add: wf_ids_def allIds_def emptyDb_def)

section \<open>Progress reset and clear\<close>

lemma resetProgress_tasks:
  "taskColl (snd (resetProgress rt u sid s)) =
     (case toObjectId rt (sanitize sid) of
        None \<Rightarrow> taskColl s
      | Some i \<Rightarrow> map (\<lambda>t. if folder t = Some i \<and> t_user t = u
                            then t\<lparr>status := ''Pending''\<rparr> else t) (taskColl s))"
  by (auto simp: resetProgress_def Let_def sanitize_idem query_defs task_defs misc_defs
      split: option.splits)

lemma resetProgress_rest:
  "folderColl (snd (resetProgress rt u sid s)) = folderColl s
   \<and> nextId (snd (resetProgress rt u sid s)) = nextId s"
  by (auto simp: resetProgress_def Let_def sanitize_idem query_defs task_defs misc_defs
      split: option.splits)

text \<open>
  Claim C9. \<^verbatim>\<open>resetProgress\<close> sets the status of every task of the caller whose folder field
  is the given identifier to \<open>Pending\<close> and changes nothing else: every folder, with its
  task references, is as before, the number of tasks is the same, and every task keeps its
  identifier, title, due date, folder and owner. (A parameter that is no ObjectId selects no
  task.)
\<close>

theorem C9_resetProgress_frame:
  "taskColl (snd (resetProgress rt u sid s)) =
     map (\<lambda>t. if t_user t = u \<and> folder t \<noteq> None \<and> folder t = toObjectId rt (sanitize sid)
              then t\<lparr>status := ''Pending''\<rparr> else t) (taskColl s)
   \<and> folderColl (snd (resetProgress rt u sid s)) = folderColl s
   \<and> length (taskColl (snd (resetProgress rt u sid s))) = length (taskColl s)
   \<and> map (\<lambda>t. (t_id t, title t, dueDate t, folder t, t_user t))
         (taskColl (snd (resetProgress rt u sid s))) =
     map (\<lambda>t. (t_id t, title t, dueDate t, folder t, t_user t)) (taskColl s)"
proof -
  have tasks: "taskColl (snd (resetProgress rt u sid s)) =
     map (\<lambda>t. if t_user t = u \<and> folder t \<noteq> None \<and> folder t = toObjectId rt (sanitize sid)
              then t\<lparr>status := ''Pending''\<rparr> else t) (taskColl s)"
  proof (cases "toObjectId rt (sanitize sid)")
    case None
    then have "map (\<lambda>t. if t_user t = u \<and> folder t \<noteq> None
                            \<and> folder t = toObjectId rt (sanitize sid)
                         then t\<lparr>status := ''Pending''\<rparr> else t) (taskColl s) = taskColl s"
      by (intro map_idI) auto
    with None show ?thesis
      by (simp add: resetProgress_tasks)
  next
    case (Some i)
    then show ?thesis
      by (auto simp: resetProgress_tasks)
  qed
  show ?thesis
    unfolding tasks using resetProgress_rest [of rt u sid s] by (simp add: comp_def)
qed

theorem C9_witness:
  "taskColl (snd (resetProgress hexRuntime alice hex1 sampleDb)) =
     [dishes\<lparr>status := ''Pending''\<rparr>, taxes, report]
   \<and> folderColl (snd (resetProgress hexRuntime alice hex1 sampleDb)) = [home, work]"
  using C9_resetProgress_frame [of hexRuntime alice hex1 sampleDb]
  by (simp add: sample_defs)




section \<open>Creation: the type discriminator\<close>









section \<open>Lookup by identifier\<close>

lemma getTaskById_found:
  assumes "toObjectId rt sid = Some i"
  shows "fst (getTaskById rt u sid s) =
     (case find (\<lambda>t. t_id t = i \<and> t_user t = u) (taskColl s) of
        Some t \<Rightarrow> (200, TaskBody t)
      | None \<Rightarrow> (case find (\<lambda>f. f_id f = i \<and> f_user f = u) (folderColl s) of
                   Some f \<Rightarrow> (200, FolderBody f)
                 | None \<Rightarrow> (404, ErrorBody ''Task or folder not found.'')))"
  using assms
  by (simp add: getTaskById_def Task_findOne_def Folder_findOne_def cast_simps called_def
      split: option.splits)

lemma getTaskById_frame:
  "taskColl (snd (getTaskById rt u sid s)) = taskColl s
   \<and> folderColl (snd (getTaskById rt u sid s)) = folderColl s
   \<and> nextId (snd (getTaskById rt u sid s)) = nextId s"
  by (simp add: getTaskById_def Task_findOne_def Folder_findOne_def cast_simps called_def
      split: option.splits)

lemma getTaskById_notFound_iff:
  assumes "toObjectId rt sid = Some i"
  shows "NotFoundError (fst (getTaskById rt u sid s)) \<longleftrightarrow> \<not> ownsTask s u i \<and> \<not> ownsFolder s u i"
  by (auto simp: getTaskById_found [OF assms] ownsTask_def ownsFolder_def NotFoundError_def
      find_None_iff split: option.splits dest: find_Some_mem)

text \<open>
  Claim C4, for identifiers that are well formed. \<^verbatim>\<open>getTaskById\<close> answers with a task of
  that identifier and owner when the caller owns one; otherwise with a folder of that
  identifier and owner when the caller owns one; and with NotFoundError exactly when the
  caller owns neither. It changes no document.
\<close>

theorem C4_getById:
  assumes "toObjectId rt sid = Some i"
  shows "(ownsTask s u i \<longrightarrow>
           (\<exists>t\<in>set (taskColl s). t_id t = i \<and> t_user t = u
               \<and> fst (getTaskById rt u sid s) = (200, TaskBody t)))
       \<and> (\<not> ownsTask s u i \<and> ownsFolder s u i \<longrightarrow>
           (\<exists>f\<in>set (folderColl s). f_id f = i \<and> f_user f = u
               \<and> fst (getTaskById rt u sid s) = (200, FolderBody f)))
       \<and> (NotFoundError (fst (getTaskById rt u sid s)) \<longleftrightarrow>
            \<not> ownsTask s u i \<and> \<not> ownsFolder s u i)
       \<and> taskColl (snd (getTaskById rt u sid s)) = taskColl s
       \<and> folderColl (snd (getTaskById rt u sid s)) = folderColl s"
  using getTaskById_frame [of rt u sid s]
  by (auto simp: getTaskById_found [OF assms] ownsTask_def ownsFolder_def NotFoundError_def
      find_None_iff split: option.splits dest: find_Some_mem)

theorem C4_witness:
  "toObjectId hexRuntime hex2 = Some 2
   \<and> fst (getTaskById hexRuntime alice hex2 sampleDb) = (200, TaskBody dishes)
   \<and> fst (getTaskById hexRuntime alice hex1 sampleDb) = (200, FolderBody home)
   \<and> NotFoundError (fst (getTaskById hexRuntime alice hex9 sampleDb))"
  using C4_getById [OF hex_ids(2), of sampleDb alice] C4_getById [OF hex_ids(1), of sampleDb alice]
    C4_getById [OF hex_ids(5), of sampleDb alice] hex_ids(2)
  by (simp add: ownsTask_def ownsFolder_def sample_defs)

text \<open>
  For a parameter that is no ObjectId the lookup throws a CastError and the handler's
  \<^verbatim>\<open>catch\<close> answers 500: the caller owns nothing under \<open>xyz\<close>, and the outcome is
  InternalError, not NotFoundError.
\<close>

theorem C4_counterexample:
  "\<not> isValidObjectId hexRuntime ''xyz''
   \<and> InternalError (fst (getTaskById hexRuntime alice ''xyz'' sampleDb))
   \<and> \<not> NotFoundError (fst (getTaskById hexRuntime alice ''xyz'' sampleDb))"
  by (simp add: getTaskById_def Task_findOne_def cast_simps InternalError_def NotFoundError_def
      isValidObjectId_def hex_ids)

section \<open>Cascade delete of a folder\<close>

lemma removeFirst_none: "\<not> (\<exists>x\<in>set xs. P x) \<Longrightarrow> removeFirst P xs = xs"
  by (induction xs) auto

lemma removeFirst_distinct_key:
  "distinct (map k xs) \<Longrightarrow> \<exists>x\<in>set xs. P x \<Longrightarrow> \<forall>x. P x \<longrightarrow> k x = i \<Longrightarrow>
     removeFirst P xs = filter (\<lambda>x. k x \<noteq> i) xs"
proof (induction xs)
  case Nil
  then show ?case by simp
next
  case (Cons x xs)
  from Cons.prems(1) have fresh: "k x \<notin> k ` set xs" and dist: "distinct (map k xs)"
    by simp_all
  show ?case
  proof (cases "P x")
    case True
    with Cons.prems(3) have "k x = i" by blast
    with fresh have "\<forall>y\<in>set xs. k y \<noteq> i" by (metis imageI)
    then have "filter (\<lambda>x. k x \<noteq> i) xs = xs" by (simp add: filter_id_conv)
    with True \<open>k x = i\<close> show ?thesis by simp
  next
    case False
    with Cons.prems(2) obtain y where y: "y \<in> set xs" "P y" by auto
    with Cons.prems(3) have "k y = i" by blast
    moreover from y(1) have "k y \<in> k ` set xs" by (rule imageI)
    ultimately have "k x \<noteq> i" using fresh by metis
    moreover have "removeFirst P xs = filter (\<lambda>x. k x \<noteq> i) xs"
      using Cons.IH [OF dist _ Cons.prems(3)] y by blast
    ultimately show ?thesis using False by simp
  qed
qed

lemma delete_folder_unfold:
  assumes "toObjectId rt sid = Some i" and "sid \<noteq> []"
  shows "deleteTaskOrFolder rt u (Some ''folder'') (Some sid) s =
     ((case find (\<lambda>f. f_id f = i \<and> f_user f = u) (folderColl s) of
         None \<Rightarrow> (404, ErrorBody ''Folder not found.'')
       | Some f \<Rightarrow> (200, MessageBody ''Folder and its tasks deleted successfully.'')),
      s\<lparr>taskColl := filter (\<lambda>t. \<not> (folder t = Some i \<and> t_user t = u)) (taskColl s),
        folderColl := removeFirst (\<lambda>f. f_id f = i \<and> f_user f = u) (folderColl s),
        calls := calls s @ [Remove Tasks, Remove Folders]\<rparr>)"
  using assms
  by (simp add: deleteTaskOrFolder_def Let_def Task_deleteMany_def Folder_findOneAndDelete_def
      cast_simps called_def split: option.splits)

text \<open>
  Claim C3, for identifiers that are well formed. \<^verbatim>\<open>deleteTaskOrFolder\<close> with the type
  \<open>folder\<close> first removes every task of the caller whose folder field is the identifier, then
  removes the caller's folder with that identifier. The tasks are removed whether or not
  the folder exists; without the folder the answer is NotFoundError. After a successful
  cascade \<^verbatim>\<open>getTaskById\<close> answers NotFoundError for the folder's identifier and for the
  identifier of every task that was removed.
\<close>

theorem C3_cascade_delete:
  assumes wf: "wf_ids s" and cast: "toObjectId rt sid = Some i" and nonempty: "sid \<noteq> []"
  shows "taskColl (snd (deleteTaskOrFolder rt u (Some ''folder'') (Some sid) s)) =
           filter (\<lambda>t. \<not> (folder t = Some i \<and> t_user t = u)) (taskColl s)
       \<and> calls (snd (deleteTaskOrFolder rt u (Some ''folder'') (Some sid) s)) =
           calls s @ [Remove Tasks, Remove Folders]
       \<and> (ownsFolder s u i \<longrightarrow>
            fst (deleteTaskOrFolder rt u (Some ''folder'') (Some sid) s) =
              (200, MessageBody ''Folder and its tasks deleted successfully.'')
          \<and> folderColl (snd (deleteTaskOrFolder rt u (Some ''folder'') (Some sid) s)) =
              filter (\<lambda>f. f_id f \<noteq> i) (folderColl s)
          \<and> NotFoundError (fst (getTaskById rt u sid
                (snd (deleteTaskOrFolder rt u (Some ''folder'') (Some sid) s))))
          \<and> (\<forall>t\<in>set (taskColl s). folder t = Some i \<and> t_user t = u \<longrightarrow>
               (\<forall>tid. toObjectId rt tid = Some (t_id t) \<longrightarrow>
                  NotFoundError (fst (getTaskById rt u tid
                     (snd (deleteTaskOrFolder rt u (Some ''folder'') (Some sid) s)))))))
       \<and> (\<not> ownsFolder s u i \<longrightarrow>
            NotFoundError (fst (deleteTaskOrFolder rt u (Some ''folder'') (Some sid) s))
          \<and> folderColl (snd (deleteTaskOrFolder rt u (Some ''folder'') (Some sid) s)) =
              folderColl s)"
proof -
  let ?r = "deleteTaskOrFolder rt u (Some ''folder'') (Some sid) s"
  let ?P = "\<lambda>f. f_id f = i \<and> f_user f = u"
  note unfold = delete_folder_unfold [OF cast nonempty, of u s]
  have tasks: "taskColl (snd ?r) = filter (\<lambda>t. \<not> (folder t = Some i \<and> t_user t = u)) (taskColl s)"
    and calls: "calls (snd ?r) = calls s @ [Remove Tasks, Remove Folders]"
    and folders: "folderColl (snd ?r) = removeFirst ?P (folderColl s)"
    by (simp_all add: unfold)
  have absent: "NotFoundError (fst ?r) \<and> folderColl (snd ?r) = folderColl s"
    if "\<not> ownsFolder s u i"
  proof -
    from that have none: "\<not> (\<exists>f\<in>set (folderColl s). ?P f)"
      by (simp add: ownsFolder_def)
    then have "find ?P (folderColl s) = None"
      by (simp add: find_None_iff)
    with none show ?thesis
      by (simp add: unfold NotFoundError_def removeFirst_none)
  qed
  have present: "fst ?r = (200, MessageBody ''Folder and its tasks deleted successfully.'')
      \<and> folderColl (snd ?r) = filter (\<lambda>f. f_id f \<noteq> i) (folderColl s)
      \<and> NotFoundError (fst (getTaskById rt u sid (snd ?r)))
      \<and> (\<forall>t\<in>set (taskColl s). folder t = Some i \<and> t_user t = u \<longrightarrow>
            (\<forall>tid. toObjectId rt tid = Some (t_id t) \<longrightarrow>
               NotFoundError (fst (getTaskById rt u tid (snd ?r)))))"
    if owned: "ownsFolder s u i"
  proof -
    from owned obtain f where f: "f \<in> set (folderColl s)" "f_id f = i" "f_user f = u"
      by (auto simp: ownsFolder_def)
    then have "find ?P (folderColl s) \<noteq> None"
      by (auto simp: find_None_iff)
    then have code: "fst ?r = (200, MessageBody ''Folder and its tasks deleted successfully.'')"
      by (auto simp: unfold)
    have "distinct (map f_id (folderColl s))"
      using wf by (simp add: wf_ids_def allIds_def)
    moreover have "\<exists>x\<in>set (folderColl s). ?P x"
      using f by (intro bexI [of _ f]) simp_all
    moreover have "\<forall>x. ?P x \<longrightarrow> f_id x = i"
      by simp
    ultimately have "removeFirst ?P (folderColl s) = filter (\<lambda>f. f_id f \<noteq> i) (folderColl s)"
      by (rule removeFirst_distinct_key)
    then have gone: "folderColl (snd ?r) = filter (\<lambda>f. f_id f \<noteq> i) (folderColl s)"
      by (simp add: folders)
    have noTaskI: "\<not> ownsTask (snd ?r) u i"
    proof
      assume "ownsTask (snd ?r) u i"
      then obtain t where "t \<in> set (taskColl s)" "t_id t = i"
        by (auto simp: ownsTask_def tasks)
      with wf_ids_task_folder [OF wf _ f(1)] f(2) show False
        by metis
    qed
    have noFolderI: "\<not> ownsFolder (snd ?r) u i"
      by (simp add: ownsFolder_def gone)
    have child: "NotFoundError (fst (getTaskById rt u tid (snd ?r)))"
      if t: "t \<in> set (taskColl s)" "folder t = Some i" "t_user t = u"
        and tid: "toObjectId rt tid = Some (t_id t)" for t tid
    proof -
      have "\<not> ownsTask (snd ?r) u (t_id t)"
      proof
        assume "ownsTask (snd ?r) u (t_id t)"
        then obtain t' where t': "t' \<in> set (taskColl s)" "t_id t' = t_id t"
          "\<not> (folder t' = Some i \<and> t_user t' = u)"
          by (auto simp: ownsTask_def tasks)
        from wf_ids_task_unique [OF wf t'(1) t(1) t'(2)] have "t' = t" .
        with t'(3) t(2,3) show False by simp
      qed
      moreover have "\<not> ownsFolder (snd ?r) u (t_id t)"
      proof
        assume "ownsFolder (snd ?r) u (t_id t)"
        then obtain f' where "f' \<in> set (folderColl s)" "f_id f' = t_id t"
          by (auto simp: ownsFolder_def gone)
        with wf_ids_task_folder [OF wf t(1)] show False
          by metis
      qed
      ultimately show ?thesis
        by (simp add: getTaskById_notFound_iff [OF tid])
    qed
    have "NotFoundError (fst (getTaskById rt u sid (snd ?r)))"
      using noTaskI noFolderI by (simp add: getTaskById_notFound_iff [OF cast])
    with code gone child show ?thesis
      by simp
  qed
  from tasks calls absent present show ?thesis
    by simp
qed


theorem C3_witness:
  "wf_ids sampleDb \<and> toObjectId hexRuntime hex4 = Some 4 \<and> ownsFolder sampleDb bob 4
   \<and> fst (deleteTaskOrFolder hexRuntime bob (Some ''folder'') (Some hex4) sampleDb) =
       (200, MessageBody ''Folder and its tasks deleted successfully.'')
   \<and> taskColl (snd (deleteTaskOrFolder hexRuntime bob (Some ''folder'') (Some hex4) sampleDb)) =
       [dishes, taxes]
   \<and> folderColl (snd (deleteTaskOrFolder hexRuntime bob (Some ''folder'') (Some hex4) sampleDb)) =
       [home]
   \<and> NotFoundError (fst (getTaskById hexRuntime bob hex5
        (snd (deleteTaskOrFolder hexRuntime bob (Some ''folder'') (Some hex4) sampleDb))))"
proof -
  let ?r = "deleteTaskOrFolder hexRuntime bob (Some ''folder'') (Some hex4) sampleDb"
  have wf: "wf_ids sampleDb"
    by (simp add: wf_ids_def allIds_def sample_defs)
  have ne: "hex4 \<noteq> []"
    by (simp add: hex4_def)
  have owned: "ownsFolder sampleDb bob 4"
    by (simp add: ownsFolder_def sample_defs)
  note c = C3_cascade_delete [OF wf hex_ids(3) ne, of bob]
  note c_owned = c [THEN conjunct2, THEN conjunct2, THEN conjunct1, THEN mp, OF owned]
  have "taskColl (snd ?r) = [dishes, taxes]"
    unfolding c [THEN conjunct1] by (simp add: sample_defs)
  moreover have "folderColl (snd ?r) = [home]"
    unfolding c_owned [THEN conjunct2, THEN conjunct1] by (simp add: sample_defs)
  moreover have "report \<in> set (taskColl sampleDb)"
    by (simp add: sampleDb_def)
  moreover have "folder report = Some 4 \<and> t_user report = bob"
    by (simp add: report_def bob_def)
  moreover have "toObjectId hexRuntime hex5 = Some (t_id report)"
    by (simp add: hex_ids report_def)
  ultimately show ?thesis
    using wf owned hex_ids(3) c_owned by blast
qed

text \<open>
  With a parameter that is no ObjectId the first storage call throws, and the answer is
  InternalError although the caller owns no folder under that parameter.
\<close>

theorem C3_counterexample:
  "\<not> isValidObjectId hexRuntime ''xyz''
   \<and> InternalError (fst (deleteTaskOrFolder hexRuntime alice (Some ''folder'') (Some ''xyz'')
        sampleDb))
   \<and> \<not> NotFoundError (fst (deleteTaskOrFolder hexRuntime alice (Some ''folder'') (Some ''xyz'')
        sampleDb))"
  by (simp add: deleteTaskOrFolder_def Let_def Task_deleteMany_def cast_simps InternalError_def
      NotFoundError_def isValidObjectId_def hex_ids)

section \<open>Creation: the folder reference\<close>

lemma Folder_findOne_owned:
  "toObjectId rt fs = Some i \<Longrightarrow>
     Folder_findOne rt \<lparr>fq_id = Some fs, fq_user = Some u\<rparr> s =
       Inr (find (\<lambda>f. f_id f = i \<and> f_user f = u) (folderColl s), called (Lookup Folders) s)"
  by (simp add: Folder_findOne_def cast_simps)

lemma not_ownsFolder_find:
  "\<not> ownsFolder s u i \<Longrightarrow> find (\<lambda>f. f_id f = i \<and> f_user f = u) (folderColl s) = None"
  by (simp add: ownsFolder_def find_None_iff)

lemma not_ownsTask_find:
  "\<not> ownsTask s u i \<Longrightarrow> find (\<lambda>t. t_id t = i \<and> t_user t = u) (taskColl s) = None"
  by (simp add: ownsTask_def find_None_iff)

lemma create_malformed_folder:
  assumes "b_type b \<noteq> Some ''folder''" and "b_folder b = Some fs" and "fs \<noteq> []"
    and "\<not> isValidObjectId rt fs"
  shows "fst (fst (createTaskOrFolder rt u b s)) = 400 \<and> snd (createTaskOrFolder rt u b s) = s"
  using assms by (simp add: createTaskOrFolder_def Let_def)

lemma create_missing_folder:
  assumes "b_type b \<noteq> Some ''folder''" and "b_folder b = Some fs" and "fs \<noteq> []"
    and "toObjectId rt fs = Some i" and "\<not> ownsFolder s u i"
  shows "fst (fst (createTaskOrFolder rt u b s)) = 400
       \<and> (snd (createTaskOrFolder rt u b s) = s
          \<or> snd (createTaskOrFolder rt u b s) = called (Lookup Folders) s)"
  using assms
  by (simp add: createTaskOrFolder_def Let_def isValidObjectId_def Folder_findOne_owned
      not_ownsFolder_find)

text \<open>
  Claim C6, as the code has it. In a creation that is not folder-typed and carries a
  non-empty folder reference, a reference that is no ObjectId is answered with
  ValidationError and the database is left exactly as it was, no storage call having been
  made; a well-formed reference to a folder that the caller does not own (none exists, or it
  is another user's) is answered with a failure as well, with every task and folder as
  before and at most the folder lookup among the storage calls.
\<close>

theorem C6_folder_reference_checked:
  assumes "b_type b \<noteq> Some ''folder''" and "truthy (b_folder b)"
  shows "(\<not> isValidObjectId rt (str (b_folder b)) \<longrightarrow>
            ValidationError (fst (createTaskOrFolder rt u b s))
          \<and> snd (createTaskOrFolder rt u b s) = s)
       \<and> (\<forall>i. toObjectId rt (str (b_folder b)) = Some i \<and> \<not> ownsFolder s u i \<longrightarrow>
            ValidationError (fst (createTaskOrFolder rt u b s))
          \<and> taskColl (snd (createTaskOrFolder rt u b s)) = taskColl s
          \<and> folderColl (snd (createTaskOrFolder rt u b s)) = folderColl s
          \<and> nextId (snd (createTaskOrFolder rt u b s)) = nextId s
          \<and> (calls (snd (createTaskOrFolder rt u b s)) = calls s
             \<or> calls (snd (createTaskOrFolder rt u b s)) = calls s @ [Lookup Folders]))"
proof -
  from assms(2) obtain fs where fs: "b_folder b = Some fs" "fs \<noteq> []"
    by (cases "b_folder b") simp_all
  have malformed: "ValidationError (fst (createTaskOrFolder rt u b s))
      \<and> snd (createTaskOrFolder rt u b s) = s" if "\<not> isValidObjectId rt fs"
    using create_malformed_folder [OF assms(1) fs that, of u s]
    by (simp add: ValidationError_def)
  have missing: "ValidationError (fst (createTaskOrFolder rt u b s))
          \<and> taskColl (snd (createTaskOrFolder rt u b s)) = taskColl s
          \<and> folderColl (snd (createTaskOrFolder rt u b s)) = folderColl s
          \<and> nextId (snd (createTaskOrFolder rt u b s)) = nextId s
          \<and> (calls (snd (createTaskOrFolder rt u b s)) = calls s
             \<or> calls (snd (createTaskOrFolder rt u b s)) = calls s @ [Lookup Folders])"
    if "toObjectId rt fs = Some i" "\<not> ownsFolder s u i" for i
    using create_missing_folder [OF assms(1) fs that]
    by (auto simp: ValidationError_def)
  from malformed missing show ?thesis
    by (simp add: fs)
qed

theorem C6_witness:
  "createTaskOrFolder hexRuntime alice
      (noBody\<lparr>b_title := Some ''Call'', b_type := Some ''task'', b_folder := Some ''xyz''\<rparr>)
      sampleDb =
     ((400, ErrorBody ''Invalid folder ID format.''), sampleDb)
   \<and> \<not> ownsFolder sampleDb alice 4
   \<and> fst (createTaskOrFolder hexRuntime alice
        (noBody\<lparr>b_title := Some ''Call'', b_type := Some ''task'', b_folder := Some hex4\<rparr>)
        sampleDb) =
     (400, ErrorBody ''Folder does not exist or does not belong to the user.'')
   \<and> taskColl (snd (createTaskOrFolder hexRuntime alice
        (noBody\<lparr>b_title := Some ''Call'', b_type := Some ''task'', b_folder := Some hex4\<rparr>)
        sampleDb)) = [dishes, taxes, report]
   \<and> folderColl (snd (createTaskOrFolder hexRuntime alice
        (noBody\<lparr>b_title := Some ''Call'', b_type := Some ''task'', b_folder := Some hex4\<rparr>)
        sampleDb)) = [home, work]"
proof -
  let ?bad = "noBody\<lparr>b_title := Some ''Call'', b_type := Some ''task'', b_folder := Some ''xyz''\<rparr>"
  let ?foreign = "noBody\<lparr>b_title := Some ''Call'', b_type := Some ''task'', b_folder := Some hex4\<rparr>"
  have ty: "b_type ?bad \<noteq> Some ''folder''" "b_type ?foreign \<noteq> Some ''folder''"
    by (simp_all add: noBody_def)
  have fo: "truthy (b_folder ?bad)" "truthy (b_folder ?foreign)"
    by (simp_all add: noBody_def hex4_def)
  have bad: "\<not> isValidObjectId hexRuntime (str (b_folder ?bad))"
    by (simp add: isValidObjectId_def hex_ids)
  have foreign: "toObjectId hexRuntime (str (b_folder ?foreign)) = Some 4"
    "\<not> ownsFolder sampleDb alice 4"
    by (simp_all add: hex_ids ownsFolder_def sample_defs)
  have ne: "hex4 \<noteq> []"
    by (simp add: hex4_def)
  have code1: "fst (createTaskOrFolder hexRuntime alice ?bad sampleDb) =
      (400, ErrorBody ''Invalid folder ID format.'')"
    by (simp add: createTaskOrFolder_def Let_def isValidObjectId_def hex_ids noBody_def)
  have code2: "fst (createTaskOrFolder hexRuntime alice ?foreign sampleDb) =
      (400, ErrorBody ''Folder does not exist or does not belong to the user.'')"
    by (simp add: createTaskOrFolder_def Let_def isValidObjectId_def hex_ids noBody_def
        Folder_findOne_owned [OF hex_ids(3)] not_ownsFolder_find [OF foreign(2)] ne)
  from C6_folder_reference_checked [OF ty(1) fo(1), of hexRuntime alice sampleDb] bad
  have "snd (createTaskOrFolder hexRuntime alice ?bad sampleDb) = sampleDb"
    by blast
  moreover from C6_folder_reference_checked [OF ty(2) fo(2), of hexRuntime alice sampleDb] foreign
  have "taskColl (snd (createTaskOrFolder hexRuntime alice ?foreign sampleDb)) = taskColl sampleDb
      \<and> folderColl (snd (createTaskOrFolder hexRuntime alice ?foreign sampleDb)) = folderColl sampleDb"
    by blast
  ultimately show ?thesis
    using code1 code2 foreign(2)
    by (simp add: sampleDb_def prod_eq_iff)
qed

text \<open>
  The claim as the specification states it, for every non-null reference, fails: the empty
  string is a non-null reference and no ObjectId, and the handler answers 201 and stores an
  unfiled task.
\<close>

theorem C6_counterexample:
  "b_type (noBody\<lparr>b_title := Some ''Call'', b_type := Some ''task'', b_folder := Some ''''\<rparr>)
     \<noteq> Some ''folder''
   \<and> b_folder (noBody\<lparr>b_title := Some ''Call'', b_type := Some ''task'', b_folder := Some ''''\<rparr>)
     \<noteq> None
   \<and> \<not> isValidObjectId hexRuntime ''''
   \<and> fst (createTaskOrFolder hexRuntime alice
        (noBody\<lparr>b_title := Some ''Call'', b_type := Some ''task'', b_folder := Some ''''\<rparr>)
        sampleDb) =
     (201, MessageTask ''Task created successfully''
        \<lparr>t_id = 6, title = ''Call'', dueDate = None, status = ''Pending'', folder = None,
         t_user = alice\<rparr>)
   \<and> \<not> ValidationError (fst (createTaskOrFolder hexRuntime alice
        (noBody\<lparr>b_title := Some ''Call'', b_type := Some ''task'', b_folder := Some ''''\<rparr>)
        sampleDb))
   \<and> taskColl (snd (createTaskOrFolder hexRuntime alice
        (noBody\<lparr>b_title := Some ''Call'', b_type := Some ''task'', b_folder := Some ''''\<rparr>)
        sampleDb)) =
     [dishes, taxes, report,
      \<lparr>t_id = 6, title = ''Call'', dueDate = None, status = ''Pending'', folder = None,
       t_user = alice\<rparr>]"
  by (simp add: createTaskOrFolder_def createTask_def newTaskInput_def Let_def ValidationError_def
      isValidObjectId_def task_defs misc_defs sample_defs)

text \<open>
  The handler treats an empty string in the folder field as it treats an absent field.
\<close>

lemma create_empty_folder_is_unfiled:
  "createTaskOrFolder rt u (b\<lparr>b_folder := Some []\<rparr>) s =
   createTaskOrFolder rt u (b\<lparr>b_folder := None\<rparr>) s"
  by (simp add: createTaskOrFolder_def createTask_def newTaskInput_def Let_def
      cong: sum.case_cong option.case_cong prod.case_cong)

section \<open>Update by identifier\<close>

lemma updateFirst_none: "\<not> (\<exists>x\<in>set xs. P x) \<Longrightarrow> updateFirst P g xs = xs"
  by (induction xs) auto

lemma updateFirst_nth:
  "find P xs = Some x \<Longrightarrow>
     \<exists>k<length xs. xs ! k = x \<and> P x \<and> updateFirst P g xs = xs[k := g x]"
proof (induction xs)
  case Nil
  then show ?case by simp
next
  case (Cons y ys)
  show ?case
  proof (cases "P y")
    case True
    with Cons.prems have "y = x" by simp
    with True have "0 < length (y # ys) \<and> (y # ys) ! 0 = x \<and> P x
        \<and> updateFirst P g (y # ys) = (y # ys)[0 := g x]"
      by simp
    then show ?thesis by (rule exI [of _ 0])
  next
    case False
    with Cons.prems have "find P ys = Some x" by simp
    from Cons.IH [OF this] obtain k where k: "k < length ys" "ys ! k = x" "P x"
      "updateFirst P g ys = ys[k := g x]" by auto
    with False have "Suc k < length (y # ys) \<and> (y # ys) ! Suc k = x \<and> P x
        \<and> updateFirst P g (y # ys) = (y # ys)[Suc k := g x]"
      by simp
    then show ?thesis by (rule exI [of _ "Suc k"])
  qed
qed

lemma patch_update_cast:
  "castTaskUpdate rt \<lparr>u_title = b_title b, u_dueDate = None, u_status = b_status b,
       u_folder = None, u_user = None\<rparr> = Inr (patched b)"
  by (simp add: castTaskUpdate_def patched_def fun_eq_iff)

lemma patch_update_valid:
  "acceptedPatch b \<Longrightarrow>
     validateTaskUpdate \<lparr>u_title = b_title b, u_dueDate = None, u_status = b_status b,
       u_folder = None, u_user = None\<rparr>"
  by (auto simp: acceptedPatch_def validateTaskUpdate_def schemaStatusEnum_def split: option.splits)

lemma patch_task_step:
  assumes "toObjectId rt sid = Some i" and "acceptedPatch b"
  shows "Task_findOneAndUpdate rt \<lparr>q_id = Some sid, q_folder = None, q_user = u\<rparr>
       \<lparr>u_title = b_title b, u_dueDate = None, u_status = b_status b,
        u_folder = None, u_user = None\<rparr> True s =
     Inr (map_option (patched b) (find (\<lambda>t. t_id t = i \<and> t_user t = u) (taskColl s)),
          called (Update Tasks)
            (s\<lparr>taskColl := updateFirst (\<lambda>t. t_id t = i \<and> t_user t = u) (patched b) (taskColl s)\<rparr>))"
  using assms
  by (auto simp: Task_findOneAndUpdate_def cast_simps patch_update_cast patch_update_valid
      taskUpdateCall_def acceptedPatch_def)

lemma patch_folder_update:
  "acceptedPatch b \<Longrightarrow> applyFolderUpdate (folderUpdate b) = renamed b
     \<and> validateFolderUpdate (folderUpdate b)"
  by (cases "b_title b")
     (auto simp: acceptedPatch_def folderUpdate_def applyFolderUpdate_def renamed_def
        validateFolderUpdate_def fun_eq_iff)

lemma patch_folder_step:
  assumes "toObjectId rt sid = Some i" and "acceptedPatch b"
  shows "Folder_findOneAndUpdate rt \<lparr>fq_id = Some sid, fq_user = Some u\<rparr> (folderUpdate b) True s =
     Inr (map_option (renamed b) (find (\<lambda>f. f_id f = i \<and> f_user f = u) (folderColl s)),
          called (folderUpdateCall (folderUpdate b))
            (s\<lparr>folderColl := updateFirst (\<lambda>f. f_id f = i \<and> f_user f = u) (renamed b) (folderColl s)\<rparr>))"
  using assms
  by (simp add: Folder_findOneAndUpdate_def cast_simps patch_folder_update)

lemma patch_passes_controller:
  "acceptedPatch b \<Longrightarrow>
     \<not> (case b_status b of None \<Rightarrow> False | Some st \<Rightarrow> st \<notin> set controllerStatuses)
     \<and> \<not> (b_title b = None \<and> b_status b = None)"
  by (auto simp: acceptedPatch_def controllerStatuses_def split: option.splits)

lemma update_unfold:
  assumes "toObjectId rt sid = Some i" and "acceptedPatch b"
  shows "updateTaskStatus rt u sid b s =
     (case find (\<lambda>t. t_id t = i \<and> t_user t = u) (taskColl s) of
        Some t \<Rightarrow>
          ((200, MessageTask ''Task or folder updated.'' (patched b t)),
           called (Update Tasks)
             (s\<lparr>taskColl := updateFirst (\<lambda>t. t_id t = i \<and> t_user t = u) (patched b) (taskColl s)\<rparr>))
      | None \<Rightarrow>
         (case find (\<lambda>f. f_id f = i \<and> f_user f = u) (folderColl s) of
            Some f \<Rightarrow>
              ((200, MessageFolder ''Task or folder updated.'' (renamed b f)),
               called (folderUpdateCall (folderUpdate b)) (called (Update Tasks)
                 (s\<lparr>folderColl := updateFirst (\<lambda>f. f_id f = i \<and> f_user f = u) (renamed b)
                                    (folderColl s)\<rparr>)))
          | None \<Rightarrow>
              ((404, ErrorBody ''Task or folder not found.''),
               called (folderUpdateCall (folderUpdate b)) (called (Update Tasks) s))))"
proof (cases "find (\<lambda>t. t_id t = i \<and> t_user t = u) (taskColl s)")
  case (Some t)
  then show ?thesis
    using patch_passes_controller [OF assms(2)]
    by (simp add: updateTaskStatus_def patch_task_step [OF assms])
next
  case None
  then have same: "updateFirst (\<lambda>t. t_id t = i \<and> t_user t = u) (patched b) (taskColl s) = taskColl s"
    by (simp add: find_None_iff updateFirst_none)
  show ?thesis
  proof (cases "find (\<lambda>f. f_id f = i \<and> f_user f = u) (folderColl s)")
    case None
    then have "updateFirst (\<lambda>f. f_id f = i \<and> f_user f = u) (renamed b) (folderColl s) = folderColl s"
      by (simp add: find_None_iff updateFirst_none)
    with None \<open>find (\<lambda>t. t_id t = i \<and> t_user t = u) (taskColl s) = None\<close> same show ?thesis
      using patch_passes_controller [OF assms(2)]
      by (simp add: updateTaskStatus_def patch_task_step [OF assms] patch_folder_step [OF assms]
          called_def)
  next
    case (Some f)
    with \<open>find (\<lambda>t. t_id t = i \<and> t_user t = u) (taskColl s) = None\<close> same show ?thesis
      using patch_passes_controller [OF assms(2)]
      by (simp add: updateTaskStatus_def patch_task_step [OF assms] patch_folder_step [OF assms]
          called_def)
  qed
qed

text \<open>
  Claim C5, for a well-formed identifier and a patch that passes validation. When the caller
  owns a task with the identifier, that one task is replaced by its patched version (the
  title and status of the patch where present, every other field as before) and
  no folder changes. When the caller owns no such task but owns a folder with the
  identifier, that one folder takes the title of the patch as its name, the status of the
  patch playing no part, and no task changes. The answer is NotFoundError exactly when the
  caller owns neither, and then nothing changes.
\<close>

theorem C5_update_dispatch:
  assumes cast: "toObjectId rt sid = Some i" and patch: "acceptedPatch b"
  shows "(ownsTask s u i \<longrightarrow>
           (\<exists>k<length (taskColl s). t_id (taskColl s ! k) = i \<and> t_user (taskColl s ! k) = u
              \<and> fst (updateTaskStatus rt u sid b s) =
                  (200, MessageTask ''Task or folder updated.'' (patched b (taskColl s ! k)))
              \<and> taskColl (snd (updateTaskStatus rt u sid b s)) =
                  (taskColl s)[k := patched b (taskColl s ! k)]
              \<and> folderColl (snd (updateTaskStatus rt u sid b s)) = folderColl s))
       \<and> (\<not> ownsTask s u i \<and> ownsFolder s u i \<longrightarrow>
           (\<exists>k<length (folderColl s). f_id (folderColl s ! k) = i \<and> f_user (folderColl s ! k) = u
              \<and> fst (updateTaskStatus rt u sid b s) =
                  (200, MessageFolder ''Task or folder updated.'' (renamed b (folderColl s ! k)))
              \<and> folderColl (snd (updateTaskStatus rt u sid b s)) =
                  (folderColl s)[k := renamed b (folderColl s ! k)]
              \<and> taskColl (snd (updateTaskStatus rt u sid b s)) = taskColl s))
       \<and> (NotFoundError (fst (updateTaskStatus rt u sid b s)) \<longleftrightarrow>
            \<not> ownsTask s u i \<and> \<not> ownsFolder s u i)
       \<and> (NotFoundError (fst (updateTaskStatus rt u sid b s)) \<longrightarrow>
            taskColl (snd (updateTaskStatus rt u sid b s)) = taskColl s
          \<and> folderColl (snd (updateTaskStatus rt u sid b s)) = folderColl s)"
proof -
  let ?Pt = "\<lambda>t. t_id t = i \<and> t_user t = u"
  let ?Pf = "\<lambda>f. f_id f = i \<and> f_user f = u"
  let ?r = "updateTaskStatus rt u sid b s"
  note unfold = update_unfold [OF cast patch, of u s]
  show ?thesis
  proof (cases "find ?Pt (taskColl s)")
    case (Some t)
    from updateFirst_nth [OF Some, of "patched b"] obtain k where k: "k < length (taskColl s)"
      "taskColl s ! k = t" "?Pt t"
      "updateFirst ?Pt (patched b) (taskColl s) = (taskColl s)[k := patched b t]"
      by auto
    from Some have owned: "ownsTask s u i"
      by (auto simp: ownsTask_def dest: find_Some_mem)
    have "fst ?r = (200, MessageTask ''Task or folder updated.'' (patched b t))"
      "taskColl (snd ?r) = (taskColl s)[k := patched b t]"
      "folderColl (snd ?r) = folderColl s"
      using Some k(4) by (simp_all add: unfold)
    with k owned show ?thesis
      by (auto simp: NotFoundError_def)
  next
    case None
    then have noTask: "\<not> ownsTask s u i"
      by (simp add: ownsTask_def find_None_iff)
    have sameTasks: "taskColl (snd ?r) = taskColl s"
      using None by (simp add: unfold split: option.splits)
    show ?thesis
    proof (cases "find ?Pf (folderColl s)")
      case (Some f)
      from updateFirst_nth [OF Some, of "renamed b"] obtain k where k: "k < length (folderColl s)"
        "folderColl s ! k = f" "?Pf f"
        "updateFirst ?Pf (renamed b) (folderColl s) = (folderColl s)[k := renamed b f]"
        by auto
      from Some have owned: "ownsFolder s u i"
        by (auto simp: ownsFolder_def dest: find_Some_mem)
      have "fst ?r = (200, MessageFolder ''Task or folder updated.'' (renamed b f))"
        "folderColl (snd ?r) = (folderColl s)[k := renamed b f]"
        using Some None k(4) by (simp_all add: unfold)
      with k owned noTask sameTasks show ?thesis
        by (auto simp: NotFoundError_def)
    next
      case noFolderFound: None
      then have noFolder: "\<not> ownsFolder s u i"
        by (simp add: ownsFolder_def find_None_iff)
      have "fst ?r = (404, ErrorBody ''Task or folder not found.'')"
        "folderColl (snd ?r) = folderColl s"
        using None noFolderFound by (simp_all add: unfold)
      with noTask noFolder sameTasks show ?thesis
        by (simp add: NotFoundError_def)
    qed
  qed
qed

theorem C5_witness:
  "acceptedPatch (noBody\<lparr>b_title := Some ''Plates''\<rparr>)
   \<and> fst (updateTaskStatus hexRuntime alice hex2 (noBody\<lparr>b_title := Some ''Plates''\<rparr>) sampleDb) =
       (200, MessageTask ''Task or folder updated.'' (dishes\<lparr>title := ''Plates''\<rparr>))
   \<and> taskColl (snd (updateTaskStatus hexRuntime alice hex2 (noBody\<lparr>b_title := Some ''Plates''\<rparr>)
        sampleDb)) = [dishes\<lparr>title := ''Plates''\<rparr>, taxes, report]
   \<and> NotFoundError (fst (updateTaskStatus hexRuntime alice hex9
        (noBody\<lparr>b_title := Some ''Plates''\<rparr>) sampleDb))"
proof -
  let ?b = "noBody\<lparr>b_title := Some ''Plates''\<rparr>"
  have patch: "acceptedPatch ?b"
    by (simp add: acceptedPatch_def noBody_def)
  have owned: "ownsTask sampleDb alice 2"
    by (simp add: ownsTask_def sample_defs)
  have absent: "\<not> ownsTask sampleDb alice 9" "\<not> ownsFolder sampleDb alice 9"
    by (simp_all add: ownsTask_def ownsFolder_def sample_defs)
  have code: "fst (updateTaskStatus hexRuntime alice hex2 ?b sampleDb) =
       (200, MessageTask ''Task or folder updated.'' (dishes\<lparr>title := ''Plates''\<rparr>))"
    "taskColl (snd (updateTaskStatus hexRuntime alice hex2 ?b sampleDb)) =
       [dishes\<lparr>title := ''Plates''\<rparr>, taxes, report]"
    unfolding update_unfold [OF hex_ids(2) patch]
    by (simp_all add: patched_def noBody_def sampleDb_def dishes_def taxes_def report_def
        alice_def)
  from C5_update_dispatch [OF hex_ids(5) patch, of sampleDb alice] absent
  have "NotFoundError (fst (updateTaskStatus hexRuntime alice hex9 ?b sampleDb))"
    by blast
  with patch code show ?thesis
    by simp
qed

text \<open>
  As stated the claim fails: an empty patch is answered with ValidationError although the
  caller owns neither a task nor a folder with the identifier.
\<close>

theorem C5_counterexample:
  "\<not> ownsTask sampleDb alice 9 \<and> \<not> ownsFolder sampleDb alice 9
   \<and> toObjectId hexRuntime hex9 = Some 9
   \<and> ValidationError (fst (updateTaskStatus hexRuntime alice hex9 noBody sampleDb))
   \<and> \<not> NotFoundError (fst (updateTaskStatus hexRuntime alice hex9 noBody sampleDb))"
  by (simp add: updateTaskStatus_def ValidationError_def NotFoundError_def ownsTask_def
      ownsFolder_def hex_ids noBody_def sampleDb_def dishes_def taxes_def report_def home_def
      work_def alice_def)

section \<open>Responses to other users\<close>

lemma codeOk_leaf:
  "codeOk ((200, j), s)" "codeOk ((201, j), s)" "codeOk ((400, j), s)" "codeOk ((404, j), s)"
  "codeOk ((500, j), s)"
  by (simp_all add: codeOk_def httpCodes_def)

lemma codeOk_if: "codeOk x \<Longrightarrow> codeOk y \<Longrightarrow> codeOk (if c then x else y)"
  by simp

lemma codeOk_sum:
  "(\<And>e. codeOk (f e)) \<Longrightarrow> (\<And>x. codeOk (g x)) \<Longrightarrow> codeOk (case_sum f g r)"
  by (cases r) simp_all

lemma codeOk_option:
  "codeOk x \<Longrightarrow> (\<And>y. codeOk (g y)) \<Longrightarrow> codeOk (case_option x g r)"
  by (cases r) simp_all

lemma codeOk_prod: "(\<And>x y. codeOk (f x y)) \<Longrightarrow> codeOk (case_prod f p)"
  by (cases p) simp

lemma codeOk_Let: "codeOk (f x) \<Longrightarrow> codeOk (Let x f)"
  by simp

lemmas codeOk_rules = codeOk_leaf codeOk_if codeOk_sum codeOk_option codeOk_prod codeOk_Let

lemma code_createTask: "codeOk (createTask rt u b d e s)"
  unfolding createTask_def by (intro codeOk_rules)

lemma code_createTaskOrFolder: "codeOk (createTaskOrFolder rt u b s)"
  unfolding createTaskOrFolder_def by (intro codeOk_rules code_createTask)

lemma code_getAllTasksAndFolders: "codeOk (getAllTasksAndFolders rt u s)"
  unfolding getAllTasksAndFolders_def by (intro codeOk_rules)

lemma code_getTasksByFolder: "codeOk (getTasksByFolder rt u i s)"
  unfolding getTasksByFolder_def by (intro codeOk_rules)

lemma code_getAllTasksWithoutFolder: "codeOk (getAllTasksWithoutFolder rt u s)"
  unfolding getAllTasksWithoutFolder_def by (intro codeOk_rules)

lemma code_getTaskById: "codeOk (getTaskById rt u i s)"
  unfolding getTaskById_def by (intro codeOk_rules)

lemma code_updateTaskStatus: "codeOk (updateTaskStatus rt u i b s)"
  unfolding updateTaskStatus_def by (intro codeOk_rules)

lemma code_deleteTaskOrFolder: "codeOk (deleteTaskOrFolder rt u ty i s)"
  unfolding deleteTaskOrFolder_def by (intro codeOk_rules)

lemma code_createFolder: "codeOk (createFolder rt u b s)"
  unfolding createFolder_def by (intro codeOk_rules)

lemma code_getFolderById: "codeOk (getFolderById rt u i s)"
  unfolding getFolderById_def by (intro codeOk_rules)

lemma code_getTasksInFolder: "codeOk (getTasksInFolder rt u i s)"
  unfolding getTasksInFolder_def by (intro codeOk_rules)

lemma code_addTaskToFolder: "codeOk (addTaskToFolder rt u i b s)"
  unfolding addTaskToFolder_def by (intro codeOk_rules)

lemma code_updateTaskInFolder: "codeOk (updateTaskInFolder rt u i j b s)"
  unfolding updateTaskInFolder_def by (intro codeOk_rules)

lemma code_updateTaskStatusInFolder: "codeOk (updateTaskStatusInFolder rt u i j b s)"
  unfolding updateTaskStatusInFolder_def by (intro codeOk_rules)

lemma code_deleteTaskInFolder: "codeOk (deleteTaskInFolder rt u i j s)"
  unfolding deleteTaskInFolder_def by (intro codeOk_rules)

lemma code_resetProgress: "codeOk (resetProgress rt u i s)"
  unfolding resetProgress_def by (intro codeOk_rules)

lemma code_clearProgress: "codeOk (clearProgress rt u i s)"
  unfolding clearProgress_def by (intro codeOk_rules)

lemmas handler_codes = code_createTaskOrFolder code_getAllTasksAndFolders code_getTasksByFolder
  code_getAllTasksWithoutFolder code_getTaskById code_updateTaskStatus code_deleteTaskOrFolder
  code_createFolder code_getFolderById code_getTasksInFolder code_addTaskToFolder
  code_updateTaskInFolder code_updateTaskStatusInFolder code_deleteTaskInFolder
  code_resetProgress code_clearProgress

lemma code_handle: "codeOk (handle rt u req s)"
  by (cases req) (simp_all add: handle_def handler_codes)

lemma foreign_not_owned:
  assumes wf: "wf_ids s" and diff: "u2 \<noteq> u1" and owned: "ownsTask s u1 i \<or> ownsFolder s u1 i"
  shows "\<not> ownsTask s u2 i \<and> \<not> ownsFolder s u2 i"
proof -
  from owned show ?thesis
  proof
    assume "ownsTask s u1 i"
    then obtain t where t: "t \<in> set (taskColl s)" "t_id t = i" "t_user t = u1"
      by (auto simp: ownsTask_def)
    have "\<not> ownsTask s u2 i"
    proof
      assume "ownsTask s u2 i"
      then obtain t' where t': "t' \<in> set (taskColl s)" "t_id t' = i" "t_user t' = u2"
        by (auto simp: ownsTask_def)
      from wf_ids_task_unique [OF wf t'(1) t(1)] t'(2) t(2) have "t' = t" by simp
      with t'(3) t(3) diff show False by simp
    qed
    moreover have "\<not> ownsFolder s u2 i"
    proof
      assume "ownsFolder s u2 i"
      then obtain f where "f \<in> set (folderColl s)" "f_id f = i"
        by (auto simp: ownsFolder_def)
      with wf_ids_task_folder [OF wf t(1)] t(2) show False by metis
    qed
    ultimately show ?thesis by simp
  next
    assume "ownsFolder s u1 i"
    then obtain f where f: "f \<in> set (folderColl s)" "f_id f = i" "f_user f = u1"
      by (auto simp: ownsFolder_def)
    have "\<not> ownsFolder s u2 i"
    proof
      assume "ownsFolder s u2 i"
      then obtain f' where f': "f' \<in> set (folderColl s)" "f_id f' = i" "f_user f' = u2"
        by (auto simp: ownsFolder_def)
      from wf_ids_folder_unique [OF wf f'(1) f(1)] f'(2) f(2) have "f' = f" by simp
      with f'(3) f(3) diff show False by simp
    qed
    moreover have "\<not> ownsTask s u2 i"
    proof
      assume "ownsTask s u2 i"
      then obtain t where "t \<in> set (taskColl s)" "t_id t = i"
        by (auto simp: ownsTask_def)
      with wf_ids_task_folder [OF wf _ f(1)] f(2) show False by metis
    qed
    ultimately show ?thesis by simp
  qed
qed

lemma absent_not_owned:
  "j \<notin> set (allIds s) \<Longrightarrow> \<not> ownsTask s u j \<and> \<not> ownsFolder s u j"
  by (auto simp: allIds_def ownsTask_def ownsFolder_def)

lemma getTaskById_not_owned:
  assumes "toObjectId rt sid = Some i" and "\<not> ownsTask s u i" and "\<not> ownsFolder s u i"
  shows "fst (getTaskById rt u sid s) = (404, ErrorBody ''Task or folder not found.'')"
  using assms(2,3)
  by (simp add: getTaskById_found [OF assms(1)] not_ownsTask_find not_ownsFolder_find)

section \<open>The status enumeration\<close>

text \<open>
  Claim C1 says that each of \<open>Pending\<close>, \<open>Working\<close> and \<open>Completed\<close> is accepted and stored,
  at creation and at update. The controller's list admits \<open>Working\<close>, but the enum of the
  task schema does not: creating a task with the status \<open>Working\<close>, and setting the
  status of an existing task to \<open>Working\<close>, both pass the controller's check, fail the
  schema's validation inside the storage call, and end in the answer 500 with the database
  unchanged.
\<close>

theorem C1_working_rejected_by_schema:
  "''Working'' \<in> set controllerStatuses \<and> ''Working'' \<notin> set schemaStatusEnum
   \<and> createTaskOrFolder hexRuntime alice
        (noBody\<lparr>b_title := Some ''Call'', b_type := Some ''task'', b_status := Some ''Working''\<rparr>)
        sampleDb =
       ((500, ErrorBody ''Server error while creating task or folder.''), sampleDb)
   \<and> ownsTask sampleDb bob 3
   \<and> updateTaskStatus hexRuntime bob hex3 (noBody\<lparr>b_status := Some ''Working''\<rparr>) sampleDb =
       ((500, ErrorBody ''Server error while updating task or folder.''), sampleDb)"
  by (simp add: createTaskOrFolder_def createTask_def newTaskInput_def Task_create_def
      castDate_def updateTaskStatus_def Task_findOneAndUpdate_def cast_simps castTaskUpdate_def
      validateTaskUpdate_def controllerStatuses_def schemaStatusEnum_def ownsTask_def hex_ids
      noBody_def sampleDb_def dishes_def taxes_def report_def bob_def)

theorem C1_witness:
  "InternalError (fst (createTaskOrFolder hexRuntime alice
      (noBody\<lparr>b_title := Some ''Call'', b_type := Some ''task'', b_status := Some ''Working''\<rparr>)
      sampleDb))
   \<and> taskColl (snd (createTaskOrFolder hexRuntime alice
      (noBody\<lparr>b_title := Some ''Call'', b_type := Some ''task'', b_status := Some ''Working''\<rparr>)
      sampleDb)) = taskColl sampleDb
   \<and> InternalError (fst (updateTaskStatus hexRuntime bob hex3
      (noBody\<lparr>b_status := Some ''Working''\<rparr>) sampleDb))
   \<and> taskColl (snd (updateTaskStatus hexRuntime bob hex3
      (noBody\<lparr>b_status := Some ''Working''\<rparr>) sampleDb)) = taskColl sampleDb"
  using C1_working_rejected_by_schema by (simp add: InternalError_def)

text \<open>
  The same holds of every request, not only of the example. With the status \<open>Working\<close> a
  creation never stores a task and an update never changes one; a status outside the
  controller's list is answered 400; and an unfiled task with the status \<open>Pending\<close> or
  \<open>Completed\<close>, or with none, is created with that status, \<open>Pending\<close> by default. The
  folder routes' own status update has no check at all.
\<close>

lemma Task_create_Working:
  "i_status d = Some ''Working'' \<Longrightarrow> \<exists>e. Task_create rt d s = Inl e"
  by (simp add: Task_create_def schemaStatusEnum_def split: sum.splits option.splits)

lemma createTask_Working:
  assumes "b_status b = Some ''Working''"
  shows "createTask rt u b d e s =
     ((500, ErrorBody ''Server error while creating task or folder.''), s)"
proof -
  from assms have "i_status (newTaskInput rt u b d) = Some ''Working''"
    by (simp add: newTaskInput_def)
  from Task_create_Working [OF this] obtain x where
    "Task_create rt (newTaskInput rt u b d) s = Inl x" by blast
  then show ?thesis
    by (simp add: createTask_def)
qed

lemma create_Working_never_stored:
  assumes "b_status b = Some ''Working''" and "b_type b \<noteq> Some ''folder''"
  shows "fst (fst (createTaskOrFolder rt u b s)) \<in> {400, 500}
       \<and> taskColl (snd (createTaskOrFolder rt u b s)) = taskColl s
       \<and> folderColl (snd (createTaskOrFolder rt u b s)) = folderColl s"
proof (cases "Folder_findOne rt \<lparr>fq_id = b_folder b, fq_user = Some u\<rparr> s")
  case (Inl e)
  with assms show ?thesis
    by (simp add: createTaskOrFolder_def Let_def createTask_Working)
next
  case (Inr x)
  obtain r s1 where x: "x = (r, s1)" by (cases x)
  from Inr x have "s1 = called (Lookup Folders) s"
    by (simp add: Folder_findOne_Inr)
  with Inr x assms show ?thesis
    by (cases r) (simp_all add: createTaskOrFolder_def Let_def createTask_Working)
qed

lemma update_Working_fails:
  assumes "b_status b = Some ''Working''"
  shows "updateTaskStatus rt u sid b s =
     ((500, ErrorBody ''Server error while updating task or folder.''), s)"
proof -
  have "\<not> validateTaskUpdate \<lparr>u_title = b_title b, u_dueDate = None, u_status = b_status b,
       u_folder = None, u_user = None\<rparr>"
    using assms by (simp add: validateTaskUpdate_def schemaStatusEnum_def)
  then have "\<exists>e. Task_findOneAndUpdate rt \<lparr>q_id = Some sid, q_folder = None, q_user = u\<rparr>
       \<lparr>u_title = b_title b, u_dueDate = None, u_status = b_status b,
        u_folder = None, u_user = None\<rparr> True s = Inl e"
    by (simp add: Task_findOneAndUpdate_def split: sum.splits)
  then obtain e where "Task_findOneAndUpdate rt \<lparr>q_id = Some sid, q_folder = None, q_user = u\<rparr>
       \<lparr>u_title = b_title b, u_dueDate = None, u_status = b_status b,
        u_folder = None, u_user = None\<rparr> True s = Inl e" ..
  with assms show ?thesis
    by (simp add: updateTaskStatus_def controllerStatuses_def)
qed

lemma folder_route_stores_any_status:
  "fst (updateTaskStatusInFolder hexRuntime bob hex4 hex5 (noBody\<lparr>b_status := Some ''todo''\<rparr>)
        sampleDb) = (200, TaskBody (report\<lparr>status := ''todo''\<rparr>))"
  by (simp add: updateTaskStatusInFolder_def Let_def isValidId_def isValidObjectId_def
      Task_findOneAndUpdate_def cast_simps castTaskUpdate_def sample_defs)

lemma create_invalid_status:
  assumes "truthy (b_title b)" and "truthy (b_type b)" and "b_type b \<noteq> Some ''folder''"
    and "truthy (b_status b)" and "str (b_status b) \<notin> set controllerStatuses"
  shows "createTaskOrFolder rt u b s = ((400, ErrorBody ''Invalid status value.''), s)"
  using assms by (simp add: createTaskOrFolder_def)

lemma update_invalid_status:
  assumes "b_status b = Some st" and "st \<notin> set controllerStatuses"
  shows "updateTaskStatus rt u sid b s = ((400, ErrorBody ''Invalid status.''), s)"
  using assms by (simp add: updateTaskStatus_def)

lemma create_status_stored:
  assumes "truthy (b_title b)" and "truthy (b_type b)" and "b_type b \<noteq> Some ''folder''"
    and "\<not> truthy (b_dueDate b)" and "\<not> truthy (b_folder b)"
    and "\<not> truthy (b_status b) \<or> b_status b = Some ''Pending'' \<or> b_status b = Some ''Completed''"
  shows "createTaskOrFolder rt u b s =
     ((201, MessageTask ''Task created successfully''
              \<lparr>t_id = nextId s, title = str (b_title b), dueDate = None,
               status = (if truthy (b_status b) then str (b_status b) else ''Pending''),
               folder = None, t_user = u\<rparr>),
      called (Insert Tasks)
        (s\<lparr>taskColl := taskColl s @
              [\<lparr>t_id = nextId s, title = str (b_title b), dueDate = None,
                status = (if truthy (b_status b) then str (b_status b) else ''Pending''),
                folder = None, t_user = u\<rparr>],
           nextId := Suc (nextId s)\<rparr>))"
proof -
  from assms(1) obtain ti where ti: "b_title b = Some ti" "ti \<noteq> []"
    by (cases "b_title b") simp_all
  from assms(6) have st: "(if truthy (b_status b) then str (b_status b) else ''Pending'')
      \<in> set schemaStatusEnum"
    by (auto simp: schemaStatusEnum_def)
  from assms(6) have ctl: "\<not> (truthy (b_status b) \<and> str (b_status b) \<notin> set controllerStatuses)"
    by (auto simp: controllerStatuses_def)
  have "Task_create rt (newTaskInput rt u b DateNull) s =
     Inr (\<lparr>t_id = nextId s, title = ti, dueDate = None,
            status = (if truthy (b_status b) then str (b_status b) else ''Pending''),
            folder = None, t_user = u\<rparr>,
          called (Insert Tasks)
            (s\<lparr>taskColl := taskColl s @
                  [\<lparr>t_id = nextId s, title = ti, dueDate = None,
                    status = (if truthy (b_status b) then str (b_status b) else ''Pending''),
                    folder = None, t_user = u\<rparr>],
               nextId := Suc (nextId s)\<rparr>))"
    using ti st assms(5)
    by (simp add: Task_create_def newTaskInput_def castDate_def Let_def)
  with assms ti ctl show ?thesis
    by (simp add: createTaskOrFolder_def createTask_def Let_def)
qed

section \<open>Ownership of the documents a handler writes\<close>

text \<open>
  Claim C2 says that a request of one user changes no document of another. In
  \<^verbatim>\<open>clearProgress\<close> the tasks are deleted under the filter \<^verbatim>\<open>{ folder: id, user }\<close>, but the
  folder is updated by \<^verbatim>\<open>findByIdAndUpdate(id, { tasks: [] })\<close>, which has no owner in its
  filter: Alice's request with the identifier of Bob's folder empties the task
  references of Bob's folder.
\<close>

theorem C2_clearProgress_empties_foreign_folder:
  "work \<in> set (folderColl sampleDb) \<and> f_user work = bob \<and> alice \<noteq> bob \<and> tasks work = [5]
   \<and> fst (clearProgress hexRuntime alice hex4 sampleDb) =
       (200, MessageBody ''Folder progress cleared'')
   \<and> folderColl (snd (clearProgress hexRuntime alice hex4 sampleDb)) =
       [home, work\<lparr>tasks := []\<rparr>]"
  by (simp add: clearProgress_def Let_def isValidId_def isValidObjectId_def Task_deleteMany_def
      Folder_findByIdAndUpdate_def Folder_findOneAndUpdate_def cast_simps applyFolderUpdate_def
      sample_defs)

theorem C2_witness:
  "\<exists>f\<in>set (folderColl sampleDb). f_user f \<noteq> alice
      \<and> f \<notin> set (folderColl (snd (clearProgress hexRuntime alice hex4 sampleDb)))"
proof -
  have "work \<noteq> home" "work \<noteq> work\<lparr>tasks := []\<rparr>" "f_user work \<noteq> alice"
    by (simp_all add: work_def home_def alice_def)
  with C2_clearProgress_empties_foreign_folder show ?thesis
    by (intro bexI [of _ work]) simp_all
qed

text \<open>
  \<^verbatim>\<open>deleteTaskInFolder\<close> pulls the task's identifier from the folder by \<^verbatim>\<open>{ _id: folderId }\<close>
  alone as well. It reaches another user's folder when a task of the caller is filed under
  it: after Bob hands his task 5 over to Alice through the unrestricted body of
  \<^verbatim>\<open>updateTaskInFolder\<close>, Alice's deletion of that task rewrites the references of Bob's
  folder.
\<close>

lemma deleteTaskInFolder_reaches_foreign_folder:
  "taskColl (snd (handle hexRuntime bob
       (PatchFolderTask hex4 hex5 (noBody\<lparr>b_user := Some hex11\<rparr>)) sampleDb)) =
     [dishes, taxes, report\<lparr>t_user := alice\<rparr>]
   \<and> folderColl (snd (handle hexRuntime alice (DeleteFolderTask hex4 hex5)
       (snd (handle hexRuntime bob
          (PatchFolderTask hex4 hex5 (noBody\<lparr>b_user := Some hex11\<rparr>)) sampleDb)))) =
     [home, work\<lparr>tasks := []\<rparr>]"
  by (simp add: handle_def updateTaskInFolder_def deleteTaskInFolder_def Let_def isValidId_def
      isValidObjectId_def Task_findOneAndUpdate_def Task_findOneAndDelete_def
      Folder_updateOne_def Folder_findOneAndUpdate_def cast_simps castTaskUpdate_def
      castDate_def castId_def applyFolderUpdate_def sample_defs hex11_def)

text \<open>
  Every other write is filtered by owner. In a database with unique identifiers, a request
  to any route except the two that update a folder by identifier alone,
  \<^verbatim>\<open>clearProgress\<close> and \<^verbatim>\<open>deleteTaskInFolder\<close>, keeps the documents of the other users.
\<close>

lemma othersKept_refl: "othersKept u s s"
  by (simp add: othersKept_def)

lemma othersKept_called [simp]: "othersKept u s (called c s') = othersKept u s s'"
  by (simp add: othersKept_def)

lemma othersKept_tasks:
  assumes "othersKept u s0 s" and "\<And>t. t \<in> set (taskColl s) \<Longrightarrow> t_user t \<noteq> u \<Longrightarrow> t \<in> set ts"
  shows "othersKept u s0 (s\<lparr>taskColl := ts\<rparr>)"
  using assms by (simp add: othersKept_def)

lemma othersKept_folders:
  assumes "othersKept u s0 s"
    and "\<And>f. f \<in> set (folderColl s) \<Longrightarrow> f_user f \<noteq> u \<Longrightarrow> f \<in> set fs"
  shows "othersKept u s0 (s\<lparr>folderColl := fs\<rparr>)"
  using assms by (simp add: othersKept_def)

lemma updateFirst_keeps: "x \<in> set xs \<Longrightarrow> \<not> P x \<Longrightarrow> x \<in> set (updateFirst P g xs)"
  by (induction xs) auto

lemma removeFirst_keeps: "x \<in> set xs \<Longrightarrow> \<not> P x \<Longrightarrow> x \<in> set (removeFirst P xs)"
  by (induction xs) auto

lemma castTaskQuery_user: "castTaskQuery rt q = Inr P \<Longrightarrow> P t \<Longrightarrow> t_user t = q_user q"
  by (auto simp: castTaskQuery_def split: sum.splits)

lemma castFolderQuery_user:
  "castFolderQuery rt q = Inr P \<Longrightarrow> fq_user q = Some u \<Longrightarrow> P f \<Longrightarrow> f_user f = u"
  by (auto simp: castFolderQuery_def split: sum.splits)

lemma kept_Task_find:
  "Task_find rt q s = Inr (r, s') \<Longrightarrow> othersKept u s0 s \<Longrightarrow> othersKept u s0 s'"
  by (drule Task_find_Inr) simp

lemma kept_Task_findOne:
  "Task_findOne rt q s = Inr (r, s') \<Longrightarrow> othersKept u s0 s \<Longrightarrow> othersKept u s0 s'"
  by (drule Task_findOne_Inr) simp

lemma kept_Folder_find:
  "Folder_find rt q s = Inr (r, s') \<Longrightarrow> othersKept u s0 s \<Longrightarrow> othersKept u s0 s'"
  by (drule Folder_find_Inr) simp

lemma kept_Folder_findOne:
  "Folder_findOne rt q s = Inr (r, s') \<Longrightarrow> othersKept u s0 s \<Longrightarrow> othersKept u s0 s'"
  by (drule Folder_findOne_Inr) simp

lemma kept_populateTasks:
  "populateTasks f s = (ts, s') \<Longrightarrow> othersKept u s0 s \<Longrightarrow> othersKept u s0 s'"
  by (auto simp: populateTasks_def)

lemma kept_Task_create:
  "Task_create rt d s = Inr (t, s') \<Longrightarrow> othersKept u s0 s \<Longrightarrow> othersKept u s0 s'"
  by (drule Task_create_Inr) (simp add: othersKept_def)

lemma kept_Folder_create:
  "Folder_create n v s = Inr (f, s') \<Longrightarrow> othersKept u s0 s \<Longrightarrow> othersKept u s0 s'"
  by (drule Folder_create_Inr) (simp add: othersKept_def)

lemma kept_Task_findOneAndUpdate:
  assumes "Task_findOneAndUpdate rt \<lparr>q_id = a, q_folder = b, q_user = u\<rparr> upd v s = Inr (r, s')"
    and "othersKept u s0 s"
  shows "othersKept u s0 s'"
proof -
  from Task_findOneAndUpdate_Inr [OF assms(1)] obtain P g where
    P: "castTaskQuery rt \<lparr>q_id = a, q_folder = b, q_user = u\<rparr> = Inr P"
    and s': "s' = called (taskUpdateCall upd) (s\<lparr>taskColl := updateFirst P g (taskColl s)\<rparr>)"
    by blast
  have "t \<in> set (updateFirst P g (taskColl s))" if "t \<in> set (taskColl s)" "t_user t \<noteq> u" for t
    using that castTaskQuery_user [OF P, of t] by (intro updateFirst_keeps) auto
  with assms(2) show ?thesis
    unfolding s' othersKept_called by (intro othersKept_tasks)
qed

lemma kept_Task_findOneAndDelete:
  assumes "Task_findOneAndDelete rt \<lparr>q_id = a, q_folder = b, q_user = u\<rparr> s = Inr (r, s')"
    and "othersKept u s0 s"
  shows "othersKept u s0 s'"
proof -
  from Task_findOneAndDelete_Inr [OF assms(1)] obtain P where
    P: "castTaskQuery rt \<lparr>q_id = a, q_folder = b, q_user = u\<rparr> = Inr P"
    and s': "s' = called (Remove Tasks) (s\<lparr>taskColl := removeFirst P (taskColl s)\<rparr>)"
    by blast
  have "t \<in> set (removeFirst P (taskColl s))" if "t \<in> set (taskColl s)" "t_user t \<noteq> u" for t
    using that castTaskQuery_user [OF P, of t] by (intro removeFirst_keeps) auto
  with assms(2) show ?thesis
    unfolding s' othersKept_called by (intro othersKept_tasks)
qed

lemma kept_Task_deleteMany:
  assumes "Task_deleteMany rt \<lparr>q_id = a, q_folder = b, q_user = u\<rparr> s = Inr s'"
    and "othersKept u s0 s"
  shows "othersKept u s0 s'"
proof -
  from Task_deleteMany_Inr [OF assms(1)] obtain P where
    P: "castTaskQuery rt \<lparr>q_id = a, q_folder = b, q_user = u\<rparr> = Inr P"
    and s': "s' = called (Remove Tasks) (s\<lparr>taskColl := filter (\<lambda>t. \<not> P t) (taskColl s)\<rparr>)"
    by blast
  have "t \<in> set (filter (\<lambda>t. \<not> P t) (taskColl s))" if "t \<in> set (taskColl s)" "t_user t \<noteq> u" for t
    using that castTaskQuery_user [OF P, of t] by auto
  with assms(2) show ?thesis
    unfolding s' othersKept_called by (intro othersKept_tasks)
qed

lemma kept_Task_updateMany:
  assumes "Task_updateMany rt \<lparr>q_id = a, q_folder = b, q_user = u\<rparr> upd s = Inr s'"
    and "othersKept u s0 s"
  shows "othersKept u s0 s'"
proof -
  from Task_updateMany_Inr [OF assms(1)] obtain P g where
    P: "castTaskQuery rt \<lparr>q_id = a, q_folder = b, q_user = u\<rparr> = Inr P"
    and s': "s' = called (Update Tasks)
               (s\<lparr>taskColl := map (\<lambda>t. if P t then g t else t) (taskColl s)\<rparr>)"
    by blast
  have "t \<in> set (map (\<lambda>t. if P t then g t else t) (taskColl s))"
    if "t \<in> set (taskColl s)" "t_user t \<noteq> u" for t
  proof -
    from that castTaskQuery_user [OF P, of t] have "\<not> P t" by auto
    with that(1) show ?thesis
      unfolding set_map by (intro image_eqI [of _ _ t]) simp_all
  qed
  with assms(2) show ?thesis
    unfolding s' othersKept_called by (intro othersKept_tasks)
qed

lemma kept_Folder_findOneAndUpdate:
  assumes "Folder_findOneAndUpdate rt \<lparr>fq_id = a, fq_user = Some u\<rparr> upd v s = Inr (r, s')"
    and "othersKept u s0 s"
  shows "othersKept u s0 s'"
proof -
  from Folder_findOneAndUpdate_Inr [OF assms(1)] obtain P where
    P: "castFolderQuery rt \<lparr>fq_id = a, fq_user = Some u\<rparr> = Inr P"
    and s': "s' = called (folderUpdateCall upd)
               (s\<lparr>folderColl := updateFirst P (applyFolderUpdate upd) (folderColl s)\<rparr>)"
    by blast
  have "f \<in> set (updateFirst P (applyFolderUpdate upd) (folderColl s))"
    if "f \<in> set (folderColl s)" "f_user f \<noteq> u" for f
    using that castFolderQuery_user [OF P, of u f] by (intro updateFirst_keeps) auto
  with assms(2) show ?thesis
    unfolding s' othersKept_called by (intro othersKept_folders)
qed

lemma kept_Folder_findOneAndDelete:
  assumes "Folder_findOneAndDelete rt \<lparr>fq_id = a, fq_user = Some u\<rparr> s = Inr (r, s')"
    and "othersKept u s0 s"
  shows "othersKept u s0 s'"
proof -
  from Folder_findOneAndDelete_Inr [OF assms(1)] obtain P where
    P: "castFolderQuery rt \<lparr>fq_id = a, fq_user = Some u\<rparr> = Inr P"
    and s': "s' = called (Remove Folders) (s\<lparr>folderColl := removeFirst P (folderColl s)\<rparr>)"
    by blast
  have "f \<in> set (removeFirst P (folderColl s))"
    if "f \<in> set (folderColl s)" "f_user f \<noteq> u" for f
    using that castFolderQuery_user [OF P, of u f] by (intro removeFirst_keeps) auto
  with assms(2) show ?thesis
    unfolding s' othersKept_called by (intro othersKept_folders)
qed

lemmas kept_storage = kept_Task_find kept_Task_findOne kept_Folder_find kept_Folder_findOne
  kept_populateTasks kept_Task_create kept_Folder_create kept_Task_findOneAndUpdate
  kept_Task_findOneAndDelete kept_Task_deleteMany kept_Task_updateMany
  kept_Folder_findOneAndUpdate kept_Folder_findOneAndDelete

lemma keptRes_leaf: "othersKept u s0 s \<Longrightarrow> keptRes u s0 (r, s)"
  by (simp add: keptRes_def)

lemma keptRes_if:
  "(c \<Longrightarrow> keptRes u s0 x) \<Longrightarrow> (\<not> c \<Longrightarrow> keptRes u s0 y) \<Longrightarrow> keptRes u s0 (if c then x else y)"
  by simp

lemma keptRes_sum:
  "(\<And>e. r = Inl e \<Longrightarrow> keptRes u s0 (f e)) \<Longrightarrow> (\<And>x. r = Inr x \<Longrightarrow> keptRes u s0 (g x))
     \<Longrightarrow> keptRes u s0 (case_sum f g r)"
  by (cases r) simp_all

lemma keptRes_option:
  "(r = None \<Longrightarrow> keptRes u s0 x) \<Longrightarrow> (\<And>y. r = Some y \<Longrightarrow> keptRes u s0 (g y))
     \<Longrightarrow> keptRes u s0 (case_option x g r)"
  by (cases r) simp_all

lemma keptRes_prod:
  "(\<And>x y. p = (x, y) \<Longrightarrow> keptRes u s0 (f x y)) \<Longrightarrow> keptRes u s0 (case_prod f p)"
  by (cases p) simp

lemma keptRes_Let: "keptRes u s0 (f x) \<Longrightarrow> keptRes u s0 (Let x f)"
  by simp

lemmas keptRes_rules = keptRes_if keptRes_sum keptRes_option keptRes_prod keptRes_Let
  keptRes_leaf

lemma foreign_folder_other_id:
  assumes "wf_ids s" and "ownsFolder s u i" and "f \<in> set (folderColl s)" and "f_user f \<noteq> u"
  shows "f_id f \<noteq> i"
proof
  assume "f_id f = i"
  from assms(2) obtain g where g: "g \<in> set (folderColl s)" "f_id g = i" "f_user g = u"
    by (auto simp: ownsFolder_def)
  from wf_ids_folder_unique [OF assms(1,3) g(1)] \<open>f_id f = i\<close> g(2) have "f = g" by simp
  with g(3) assms(4) show False by simp
qed

lemma kept_Folder_byId:
  assumes step: "Folder_findOneAndUpdate rt \<lparr>fq_id = Some fs, fq_user = None\<rparr> upd v s = Inr (r, s')"
    and cast: "toObjectId rt fs = Some i" and wf: "wf_ids s" and owned: "ownsFolder s u i"
    and kept: "othersKept u s0 s"
  shows "othersKept u s0 s'"
proof -
  from Folder_findOneAndUpdate_Inr [OF step] cast have
    s': "s' = called (folderUpdateCall upd)
          (s\<lparr>folderColl := updateFirst (\<lambda>f. f_id f = i) (applyFolderUpdate upd) (folderColl s)\<rparr>)"
    by (auto simp: cast_simps)
  have "f \<in> set (updateFirst (\<lambda>f. f_id f = i) (applyFolderUpdate upd) (folderColl s))"
    if "f \<in> set (folderColl s)" "f_user f \<noteq> u" for f
    using that foreign_folder_other_id [OF wf owned that] by (intro updateFirst_keeps)
  with kept show ?thesis
    unfolding s' othersKept_called by (intro othersKept_folders)
qed

lemma kept_Folder_pushAndSave:
  assumes "f \<in> set (folderColl s)" and "f_user f = u" and wf: "wf_ids s"
    and kept: "othersKept u s0 s"
  shows "othersKept u s0 (Folder_pushAndSave f i s)"
proof -
  from assms(1,2) have owned: "ownsFolder s u (f_id f)"
    by (auto simp: ownsFolder_def)
  have "g \<in> set (updateFirst (\<lambda>x. f_id x = f_id f) (applyFolderUpdate (PushTask i)) (folderColl s))"
    if "g \<in> set (folderColl s)" "f_user g \<noteq> u" for g
    using that foreign_folder_other_id [OF wf owned that] by (intro updateFirst_keeps)
  with kept show ?thesis
    unfolding Folder_pushAndSave_def othersKept_called by (intro othersKept_folders)
qed

lemma ownsFolder_called [simp]: "ownsFolder (called c s) u i = ownsFolder s u i"
  by (simp add: ownsFolder_def)

lemma kept_createTask:
  assumes wf: "wf_ids s"
    and pre: "\<And>ef. e = Some ef \<Longrightarrow> \<exists>i. toObjectId rt (str (b_folder b)) = Some i \<and> ownsFolder s u i"
    and kept: "othersKept u s0 s"
  shows "keptRes u s0 (createTask rt u b d e s)"
proof (cases "Task_create rt (newTaskInput rt u b d) s")
  case (Inl x)
  with kept show ?thesis
    by (simp add: createTask_def keptRes_def)
next
  case (Inr x)
  obtain t s1 where x: "x = (t, s1)" by (cases x)
  from Inr x have created: "Task_create rt (newTaskInput rt u b d) s = Inr (t, s1)" by simp
  from kept_Task_create [OF created kept] have kept1: "othersKept u s0 s1" .
  from wf_Task_create [OF wf created] have wf1: "wf_ids s1" .
  from Task_create_Inr [OF created] have folders1: "folderColl s1 = folderColl s"
    by simp
  show ?thesis
  proof (cases e)
    case None
    with created kept1 show ?thesis
      by (simp add: createTask_def keptRes_def)
  next
    case (Some ef)
    from pre [OF Some] obtain i where i: "toObjectId rt (str (b_folder b)) = Some i"
      "ownsFolder s u i" by blast
    from i(2) folders1 have owned1: "ownsFolder s1 u i"
      by (simp add: ownsFolder_def)
    show ?thesis
    proof (cases "Folder_findByIdAndUpdate rt (str (b_folder b)) (PushTask (t_id t)) s1")
      case (Inl y)
      with created Some kept1 show ?thesis
        by (simp add: createTask_def keptRes_def)
    next
      case (Inr y)
      obtain r s2 where y: "y = (r, s2)" by (cases y)
      from Inr y have "Folder_findOneAndUpdate rt \<lparr>fq_id = Some (str (b_folder b)), fq_user = None\<rparr>
          (PushTask (t_id t)) False s1 = Inr (r, s2)"
        by (simp add: Folder_findByIdAndUpdate_def)
      from kept_Folder_byId [OF this i(1) wf1 owned1 kept1] have "othersKept u s0 s2" .
      with created Some Inr y show ?thesis
        by (simp add: createTask_def keptRes_def)
    qed
  qed
qed

lemma kept_createTaskOrFolder:
  assumes wf: "wf_ids s"
  shows "keptRes u s (createTaskOrFolder rt u b s)"
proof -
  have found: "keptRes u s (createTask rt u b d (Some ef) s1)"
    if "Folder_findOne rt \<lparr>fq_id = b_folder b, fq_user = Some u\<rparr> s = Inr (Some ef, s1)"
      and "truthy (b_folder b)" for ef s1 d
  proof -
    from that(2) obtain fs where fs: "b_folder b = Some fs"
      by (cases "b_folder b") simp_all
    from Folder_findOne_Inr [OF that(1)] obtain P where s1: "s1 = called (Lookup Folders) s"
      and P: "castFolderQuery rt \<lparr>fq_id = b_folder b, fq_user = Some u\<rparr> = Inr P"
      and ef: "Some ef = find P (folderColl s)"
      by blast
    from P obtain i where i: "toObjectId rt (str (b_folder b)) = Some i"
      and P': "P = (\<lambda>f. f_id f = i \<and> f_user f = u)"
      unfolding fs by (cases "toObjectId rt fs") (auto simp: cast_simps)
    from ef [symmetric] have "ef \<in> set (folderColl s) \<and> P ef"
      by (rule find_Some_mem)
    with P' have "ownsFolder s1 u i"
      by (auto simp: ownsFolder_def s1)
    with i have "\<exists>i. toObjectId rt (str (b_folder b)) = Some i \<and> ownsFolder s1 u i"
      by blast
    moreover have "wf_ids s1" "othersKept u s s1"
      using wf by (simp_all add: s1 othersKept_refl)
    ultimately show ?thesis
      by (intro kept_createTask) simp_all
  qed
  have unfiled: "keptRes u s (createTask rt u b d None s)" for d
    using wf by (intro kept_createTask) (simp_all add: othersKept_refl)
  show ?thesis
    unfolding createTaskOrFolder_def
    by (intro keptRes_rules unfiled)
       (auto intro: kept_storage othersKept_refl found simp del: truthy_simps)
qed

lemma kept_getAllTasksAndFolders: "keptRes u s (getAllTasksAndFolders rt u s)"
  using othersKept_refl [of u s] unfolding getAllTasksAndFolders_def
  by (intro keptRes_rules) (auto dest: kept_storage [rotated])

lemma kept_getTasksByFolder: "keptRes u s (getTasksByFolder rt u i s)"
  using othersKept_refl [of u s] unfolding getTasksByFolder_def
  by (intro keptRes_rules) (auto dest: kept_storage [rotated])

lemma kept_getAllTasksWithoutFolder: "keptRes u s (getAllTasksWithoutFolder rt u s)"
  using othersKept_refl [of u s] unfolding getAllTasksWithoutFolder_def
  by (intro keptRes_rules) (auto dest: kept_storage [rotated])

lemma kept_getTaskById: "keptRes u s (getTaskById rt u i s)"
  using othersKept_refl [of u s] unfolding getTaskById_def
  by (intro keptRes_rules) (auto dest: kept_storage [rotated])

lemma kept_updateTaskStatus: "keptRes u s (updateTaskStatus rt u i b s)"
  using othersKept_refl [of u s] unfolding updateTaskStatus_def
  by (intro keptRes_rules) (auto dest: kept_storage [rotated])

lemma kept_deleteTaskOrFolder: "keptRes u s (deleteTaskOrFolder rt u ty i s)"
  using othersKept_refl [of u s] unfolding deleteTaskOrFolder_def
  by (intro keptRes_rules)
     (blast dest: kept_Task_findOneAndDelete [rotated] kept_Folder_findOneAndDelete [rotated]
        kept_Task_deleteMany [rotated])+

lemma kept_createFolder: "keptRes u s (createFolder rt u b s)"
  using othersKept_refl [of u s] unfolding createFolder_def
  by (intro keptRes_rules) (auto dest: kept_storage [rotated])

lemma kept_getFolderById: "keptRes u s (getFolderById rt u i s)"
  using othersKept_refl [of u s] unfolding getFolderById_def
  by (intro keptRes_rules) (auto dest: kept_storage [rotated])

lemma kept_getTasksInFolder: "keptRes u s (getTasksInFolder rt u i s)"
  using othersKept_refl [of u s] unfolding getTasksInFolder_def
  by (intro keptRes_rules) (auto dest: kept_storage [rotated])

lemma kept_updateTaskInFolder: "keptRes u s (updateTaskInFolder rt u i j b s)"
  using othersKept_refl [of u s] unfolding updateTaskInFolder_def
  by (intro keptRes_rules) (auto dest: kept_storage [rotated])

lemma kept_updateTaskStatusInFolder: "keptRes u s (updateTaskStatusInFolder rt u i j b s)"
  using othersKept_refl [of u s] unfolding updateTaskStatusInFolder_def
  by (intro keptRes_rules) (auto dest: kept_storage [rotated])

lemma kept_resetProgress: "keptRes u s (resetProgress rt u i s)"
  using othersKept_refl [of u s] unfolding resetProgress_def
  by (intro keptRes_rules) (auto dest: kept_storage [rotated])

lemma kept_addTaskToFolder:
  assumes wf: "wf_ids s"
  shows "keptRes u s (addTaskToFolder rt u i b s)"
proof -
  have added: "othersKept u s (Folder_pushAndSave f (t_id t) s2)"
    if found: "Folder_findOne rt \<lparr>fq_id = Some (sanitize i), fq_user = Some u\<rparr> s = Inr (Some f, s1)"
      and created: "Task_create rt (folderTaskInput u b f) s1 = Inr (t, s2)" for f s1 t s2
  proof -
    from Folder_findOne_Inr [OF found] obtain P where s1: "s1 = called (Lookup Folders) s"
      and P: "castFolderQuery rt \<lparr>fq_id = Some (sanitize i), fq_user = Some u\<rparr> = Inr P"
      and f: "Some f = find P (folderColl s)"
      by blast
    from f [symmetric] have "f \<in> set (folderColl s) \<and> P f"
      by (rule find_Some_mem)
    with castFolderQuery_user [OF P, of u f] have mem: "f \<in> set (folderColl s)" "f_user f = u"
      by simp_all
    from Task_create_Inr [OF created] have "folderColl s2 = folderColl s"
      by (simp add: s1)
    with mem have mem2: "f \<in> set (folderColl s2)"
      by simp
    have "wf_ids s1" "othersKept u s s1"
      using wf by (simp_all add: s1 othersKept_refl)
    with wf_Task_create [OF _ created] kept_Task_create [OF created]
    have "wf_ids s2" "othersKept u s s2"
      by simp_all
    with mem2 mem(2) show ?thesis
      by (intro kept_Folder_pushAndSave)
  qed
  show ?thesis
    unfolding addTaskToFolder_def
    by (intro keptRes_rules) (auto intro: kept_storage othersKept_refl added)
qed

lemmas kept_handlers = kept_createTaskOrFolder kept_getAllTasksAndFolders kept_getTasksByFolder
  kept_getAllTasksWithoutFolder kept_getTaskById kept_updateTaskStatus kept_deleteTaskOrFolder
  kept_createFolder kept_getFolderById kept_getTasksInFolder kept_addTaskToFolder
  kept_updateTaskInFolder kept_updateTaskStatusInFolder kept_resetProgress

lemma handle_keeps_others:
  assumes "wf_ids s" and "\<forall>i. req \<noteq> DeleteProgress i"
    and "\<forall>i j. req \<noteq> DeleteFolderTask i j"
  shows "othersKept u s (snd (handle rt u req s))"
  using assms
  by (cases req) (simp_all add: handle_def kept_handlers [unfolded keptRes_def])

section \<open>What a request tells of the documents of other users\<close>

text \<open>
  The queries of the handlers filter by the caller, and a creation takes the next
  identifier: such a call returns the same, and leaves the same documents of the caller, in
  two databases that look the same to the caller. The exceptions are the writes to a folder
  by its identifier alone (\<^verbatim>\<open>findByIdAndUpdate\<close>, \<^verbatim>\<open>updateOne\<close>, \<^verbatim>\<open>save\<close>), each the last
  call of its handler with a result that is not read, and \<^verbatim>\<open>populate\<close> in \<^verbatim>\<open>getFolderById\<close>,
  which is treated apart. So the response of every other handler is the same in two such
  databases.
\<close>

subsection \<open>Filters and the caller's part of a collection\<close>

lemma find_filter_imp: "(\<And>x. P x \<Longrightarrow> Q x) \<Longrightarrow> find P (filter Q xs) = find P xs"
  by (induction xs) auto

lemma filter_filter_imp: "(\<And>x. P x \<Longrightarrow> Q x) \<Longrightarrow> filter P (filter Q xs) = filter P xs"
  by (induction xs) auto

lemma filter_updateFirst:
  "(\<And>x. P x \<Longrightarrow> Q x) \<Longrightarrow>
     filter Q (updateFirst P g (filter Q xs)) = filter Q (updateFirst P g xs)"
  by (induction xs) auto

lemma filter_removeFirst:
  "(\<And>x. P x \<Longrightarrow> Q x) \<Longrightarrow> removeFirst P (filter Q xs) = filter Q (removeFirst P xs)"
  by (induction xs) auto

lemma filter_map_if:
  "(\<And>x. P x \<Longrightarrow> Q x) \<Longrightarrow>
     filter Q (map (\<lambda>t. if P t then g t else t) (filter Q xs)) =
     filter Q (map (\<lambda>t. if P t then g t else t) xs)"
  by (induction xs) auto

lemma filter_not_commute:
  "filter Q (filter (\<lambda>t. \<not> P t) xs) = filter (\<lambda>t. \<not> P t) (filter Q xs)"
  by (induction xs) auto

text \<open>What a filter within \<open>Q\<close> makes of a list depends on the \<open>Q\<close> part of the list only.\<close>

lemma view_find:
  assumes "filter Q xs = filter Q ys" and "\<And>x. P x \<Longrightarrow> Q x"
  shows "find P xs = find P ys"
  using find_filter_imp [of P Q xs] find_filter_imp [of P Q ys] assms by simp

lemma view_filter:
  assumes "filter Q xs = filter Q ys" and "\<And>x. P x \<Longrightarrow> Q x"
  shows "filter P xs = filter P ys"
  using filter_filter_imp [of P Q xs] filter_filter_imp [of P Q ys] assms by simp

lemma view_updateFirst:
  assumes "filter Q xs = filter Q ys" and "\<And>x. P x \<Longrightarrow> Q x"
  shows "filter Q (updateFirst P g xs) = filter Q (updateFirst P g ys)"
  using filter_updateFirst [of P Q g xs] filter_updateFirst [of P Q g ys] assms by simp

lemma view_removeFirst:
  assumes "filter Q xs = filter Q ys" and "\<And>x. P x \<Longrightarrow> Q x"
  shows "filter Q (removeFirst P xs) = filter Q (removeFirst P ys)"
  using filter_removeFirst [of P Q xs] filter_removeFirst [of P Q ys] assms by simp

lemma view_map_if:
  assumes "filter Q xs = filter Q ys" and "\<And>x. P x \<Longrightarrow> Q x"
  shows "filter Q (map (\<lambda>t. if P t then g t else t) xs) =
         filter Q (map (\<lambda>t. if P t then g t else t) ys)"
  using filter_map_if [of P Q g xs] filter_map_if [of P Q g ys] assms by simp

lemma view_filter_not:
  assumes "filter Q xs = filter Q ys"
  shows "filter Q (filter (\<lambda>t. \<not> P t) xs) = filter Q (filter (\<lambda>t. \<not> P t) ys)"
proof -
  have "filter Q (filter (\<lambda>t. \<not> P t) xs) = filter (\<lambda>t. \<not> P t) (filter Q xs)"
    by (rule filter_not_commute)
  also have "\<dots> = filter (\<lambda>t. \<not> P t) (filter Q ys)"
    by (simp only: assms)
  also have "\<dots> = filter Q (filter (\<lambda>t. \<not> P t) ys)"
    by (rule filter_not_commute [symmetric])
  finally show ?thesis .
qed

subsection \<open>The storage calls\<close>

lemma sameView_called [simp]:
  "sameView u (called c s) s' = sameView u s s'" "sameView u s (called c s') = sameView u s s'"
  by (simp_all add: sameView_def called_def)

lemma sameView_tasks:
  "sameView u s s' \<Longrightarrow>
     filter (\<lambda>t. t_user t = u) (taskColl s) = filter (\<lambda>t. t_user t = u) (taskColl s')"
  by (simp add: sameView_def)

lemma sameView_folders:
  "sameView u s s' \<Longrightarrow>
     filter (\<lambda>f. f_user f = u) (folderColl s) = filter (\<lambda>f. f_user f = u) (folderColl s')"
  by (simp add: sameView_def)

lemma sameView_set_tasks:
  assumes "sameView u s s'"
    and "filter (\<lambda>t. t_user t = u) xs = filter (\<lambda>t. t_user t = u) ys"
  shows "sameView u (s\<lparr>taskColl := xs\<rparr>) (s'\<lparr>taskColl := ys\<rparr>)"
  using assms by (simp add: sameView_def)

lemma sameView_set_folders:
  assumes "sameView u s s'"
    and "filter (\<lambda>f. f_user f = u) xs = filter (\<lambda>f. f_user f = u) ys"
  shows "sameView u (s\<lparr>folderColl := xs\<rparr>) (s'\<lparr>folderColl := ys\<rparr>)"
  using assms by (simp add: sameView_def)

lemma sim_Task_create:
  assumes "sameView u s s'"
  shows "rel_sum (=) (rel_prod (=) (sameView u)) (Task_create rt d s) (Task_create rt d s')"
proof (cases "Task_create rt d s")
  case (Inl e)
  then have "Task_create rt d s' = Inl e"
    by (auto simp: Task_create_def Let_def split: sum.splits option.splits if_splits)
  with Inl show ?thesis by simp
next
  case (Inr p)
  obtain t s1 where p: "p = (t, s1)" by (cases p)
  from Inr assms have "Task_create rt d s' =
      Inr (t, called (Insert Tasks) (s'\<lparr>taskColl := taskColl s' @ [t], nextId := Suc (nextId s')\<rparr>))"
    unfolding p
    by (auto simp: Task_create_def Let_def sameView_def split: sum.splits option.splits if_splits)
  moreover from Inr have "s1 =
      called (Insert Tasks) (s\<lparr>taskColl := taskColl s @ [t], nextId := Suc (nextId s)\<rparr>)"
    unfolding p by (auto dest: Task_create_Inr)
  ultimately show ?thesis
    using Inr assms unfolding p by (simp add: sameView_def)
qed

lemma sim_Folder_create:
  assumes "sameView u s s'"
  shows "rel_sum (=) (rel_prod (=) (sameView u)) (Folder_create n v s) (Folder_create n v s')"
  using assms by (simp add: Folder_create_def Let_def sameView_def called_def)

lemma sim_Task_find:
  assumes "sameView u s s'"
  shows "rel_sum (=) (rel_prod (=) (sameView u))
     (Task_find rt \<lparr>q_id = a, q_folder = b, q_user = u\<rparr> s)
     (Task_find rt \<lparr>q_id = a, q_folder = b, q_user = u\<rparr> s')"
proof (cases "castTaskQuery rt \<lparr>q_id = a, q_folder = b, q_user = u\<rparr>")
  case (Inl e)
  then show ?thesis by (simp add: Task_find_def)
next
  case (Inr P)
  from castTaskQuery_user [OF Inr] have "\<And>t. P t \<Longrightarrow> t_user t = u" by simp
  with sameView_tasks [OF assms] have "filter P (taskColl s) = filter P (taskColl s')"
    by (rule view_filter)
  with Inr assms show ?thesis by (simp add: Task_find_def)
qed

lemma sim_Task_findOne:
  assumes "sameView u s s'"
  shows "rel_sum (=) (rel_prod (=) (sameView u))
     (Task_findOne rt \<lparr>q_id = a, q_folder = b, q_user = u\<rparr> s)
     (Task_findOne rt \<lparr>q_id = a, q_folder = b, q_user = u\<rparr> s')"
proof (cases "castTaskQuery rt \<lparr>q_id = a, q_folder = b, q_user = u\<rparr>")
  case (Inl e)
  then show ?thesis by (simp add: Task_findOne_def)
next
  case (Inr P)
  from castTaskQuery_user [OF Inr] have "\<And>t. P t \<Longrightarrow> t_user t = u" by simp
  with sameView_tasks [OF assms] have "find P (taskColl s) = find P (taskColl s')"
    by (rule view_find)
  with Inr assms show ?thesis by (simp add: Task_findOne_def)
qed

lemma sim_Task_findOneAndUpdate:
  assumes "sameView u s s'"
  shows "rel_sum (=) (rel_prod (=) (sameView u))
     (Task_findOneAndUpdate rt \<lparr>q_id = a, q_folder = b, q_user = u\<rparr> upd v s)
     (Task_findOneAndUpdate rt \<lparr>q_id = a, q_folder = b, q_user = u\<rparr> upd v s')"
proof (cases "castTaskQuery rt \<lparr>q_id = a, q_folder = b, q_user = u\<rparr>")
  case (Inl e)
  then show ?thesis by (simp add: Task_findOneAndUpdate_def)
next
  case (Inr P)
  from castTaskQuery_user [OF Inr] have P: "\<And>t. P t \<Longrightarrow> t_user t = u" by simp
  show ?thesis
  proof (cases "castTaskUpdate rt upd")
    case (Inl e)
    with Inr show ?thesis by (simp add: Task_findOneAndUpdate_def)
  next
    case g: (Inr g)
    from sameView_tasks [OF assms] P have "find P (taskColl s) = find P (taskColl s')"
      by (rule view_find)
    moreover from sameView_tasks [OF assms] P
    have "filter (\<lambda>t. t_user t = u) (updateFirst P g (taskColl s)) =
          filter (\<lambda>t. t_user t = u) (updateFirst P g (taskColl s'))"
      by (rule view_updateFirst)
    then have "sameView u (s\<lparr>taskColl := updateFirst P g (taskColl s)\<rparr>)
        (s'\<lparr>taskColl := updateFirst P g (taskColl s')\<rparr>)"
      by (rule sameView_set_tasks [OF assms])
    ultimately show ?thesis
      using Inr g by (simp add: Task_findOneAndUpdate_def)
  qed
qed

lemma sim_Task_findOneAndDelete:
  assumes "sameView u s s'"
  shows "rel_sum (=) (rel_prod (=) (sameView u))
     (Task_findOneAndDelete rt \<lparr>q_id = a, q_folder = b, q_user = u\<rparr> s)
     (Task_findOneAndDelete rt \<lparr>q_id = a, q_folder = b, q_user = u\<rparr> s')"
proof (cases "castTaskQuery rt \<lparr>q_id = a, q_folder = b, q_user = u\<rparr>")
  case (Inl e)
  then show ?thesis by (simp add: Task_findOneAndDelete_def)
next
  case (Inr P)
  from castTaskQuery_user [OF Inr] have P: "\<And>t. P t \<Longrightarrow> t_user t = u" by simp
  from sameView_tasks [OF assms] P have "find P (taskColl s) = find P (taskColl s')"
    by (rule view_find)
  moreover from sameView_tasks [OF assms] P
  have "filter (\<lambda>t. t_user t = u) (removeFirst P (taskColl s)) =
        filter (\<lambda>t. t_user t = u) (removeFirst P (taskColl s'))"
    by (rule view_removeFirst)
  then have "sameView u (s\<lparr>taskColl := removeFirst P (taskColl s)\<rparr>)
      (s'\<lparr>taskColl := removeFirst P (taskColl s')\<rparr>)"
    by (rule sameView_set_tasks [OF assms])
  ultimately show ?thesis
    using Inr by (simp add: Task_findOneAndDelete_def)
qed

lemma sim_Task_deleteMany:
  assumes "sameView u s s'"
  shows "rel_sum (=) (sameView u)
     (Task_deleteMany rt \<lparr>q_id = a, q_folder = b, q_user = u\<rparr> s)
     (Task_deleteMany rt \<lparr>q_id = a, q_folder = b, q_user = u\<rparr> s')"
proof (cases "castTaskQuery rt \<lparr>q_id = a, q_folder = b, q_user = u\<rparr>")
  case (Inl e)
  then show ?thesis by (simp add: Task_deleteMany_def)
next
  case (Inr P)
  from sameView_tasks [OF assms]
  have "filter (\<lambda>t. t_user t = u) (filter (\<lambda>t. \<not> P t) (taskColl s)) =
        filter (\<lambda>t. t_user t = u) (filter (\<lambda>t. \<not> P t) (taskColl s'))"
    by (rule view_filter_not)
  then have "sameView u (s\<lparr>taskColl := filter (\<lambda>t. \<not> P t) (taskColl s)\<rparr>)
      (s'\<lparr>taskColl := filter (\<lambda>t. \<not> P t) (taskColl s')\<rparr>)"
    by (rule sameView_set_tasks [OF assms])
  then show ?thesis
    using Inr by (simp add: Task_deleteMany_def)
qed

lemma sim_Task_updateMany:
  assumes "sameView u s s'"
  shows "rel_sum (=) (sameView u)
     (Task_updateMany rt \<lparr>q_id = a, q_folder = b, q_user = u\<rparr> upd s)
     (Task_updateMany rt \<lparr>q_id = a, q_folder = b, q_user = u\<rparr> upd s')"
proof (cases "castTaskQuery rt \<lparr>q_id = a, q_folder = b, q_user = u\<rparr>")
  case (Inl e)
  then show ?thesis by (simp add: Task_updateMany_def)
next
  case (Inr P)
  from castTaskQuery_user [OF Inr] have P: "\<And>t. P t \<Longrightarrow> t_user t = u" by simp
  show ?thesis
  proof (cases "castTaskUpdate rt upd")
    case (Inl e)
    with Inr show ?thesis by (simp add: Task_updateMany_def)
  next
    case g: (Inr g)
    from sameView_tasks [OF assms] P
    have "filter (\<lambda>t. t_user t = u) (map (\<lambda>t. if P t then g t else t) (taskColl s)) =
          filter (\<lambda>t. t_user t = u) (map (\<lambda>t. if P t then g t else t) (taskColl s'))"
      by (rule view_map_if)
    then have "sameView u (s\<lparr>taskColl := map (\<lambda>t. if P t then g t else t) (taskColl s)\<rparr>)
        (s'\<lparr>taskColl := map (\<lambda>t. if P t then g t else t) (taskColl s')\<rparr>)"
      by (rule sameView_set_tasks [OF assms])
    then show ?thesis
      using Inr g by (simp add: Task_updateMany_def)
  qed
qed

lemma sim_Folder_find:
  assumes "sameView u s s'"
  shows "rel_sum (=) (rel_prod (=) (sameView u))
     (Folder_find rt \<lparr>fq_id = a, fq_user = Some u\<rparr> s)
     (Folder_find rt \<lparr>fq_id = a, fq_user = Some u\<rparr> s')"
proof (cases "castFolderQuery rt \<lparr>fq_id = a, fq_user = Some u\<rparr>")
  case (Inl e)
  then show ?thesis by (simp add: Folder_find_def)
next
  case (Inr P)
  from castFolderQuery_user [OF Inr] have "\<And>f. P f \<Longrightarrow> f_user f = u" by simp
  with sameView_folders [OF assms] have "filter P (folderColl s) = filter P (folderColl s')"
    by (rule view_filter)
  with Inr assms show ?thesis by (simp add: Folder_find_def)
qed

lemma sim_Folder_findOne:
  assumes "sameView u s s'"
  shows "rel_sum (=) (rel_prod (=) (sameView u))
     (Folder_findOne rt \<lparr>fq_id = a, fq_user = Some u\<rparr> s)
     (Folder_findOne rt \<lparr>fq_id = a, fq_user = Some u\<rparr> s')"
proof (cases "castFolderQuery rt \<lparr>fq_id = a, fq_user = Some u\<rparr>")
  case (Inl e)
  then show ?thesis by (simp add: Folder_findOne_def)
next
  case (Inr P)
  from castFolderQuery_user [OF Inr] have "\<And>f. P f \<Longrightarrow> f_user f = u" by simp
  with sameView_folders [OF assms] have "find P (folderColl s) = find P (folderColl s')"
    by (rule view_find)
  with Inr assms show ?thesis by (simp add: Folder_findOne_def)
qed

lemma sim_Folder_findOneAndUpdate:
  assumes "sameView u s s'"
  shows "rel_sum (=) (rel_prod (=) (sameView u))
     (Folder_findOneAndUpdate rt \<lparr>fq_id = a, fq_user = Some u\<rparr> upd v s)
     (Folder_findOneAndUpdate rt \<lparr>fq_id = a, fq_user = Some u\<rparr> upd v s')"
proof (cases "castFolderQuery rt \<lparr>fq_id = a, fq_user = Some u\<rparr>")
  case (Inl e)
  then show ?thesis by (simp add: Folder_findOneAndUpdate_def)
next
  case (Inr P)
  from castFolderQuery_user [OF Inr] have P: "\<And>f. P f \<Longrightarrow> f_user f = u" by simp
  from sameView_folders [OF assms] P have "find P (folderColl s) = find P (folderColl s')"
    by (rule view_find)
  moreover from sameView_folders [OF assms] P
  have "filter (\<lambda>f. f_user f = u) (updateFirst P (applyFolderUpdate upd) (folderColl s)) =
        filter (\<lambda>f. f_user f = u) (updateFirst P (applyFolderUpdate upd) (folderColl s'))"
    by (rule view_updateFirst)
  then have "sameView u (s\<lparr>folderColl := updateFirst P (applyFolderUpdate upd) (folderColl s)\<rparr>)
      (s'\<lparr>folderColl := updateFirst P (applyFolderUpdate upd) (folderColl s')\<rparr>)"
    by (rule sameView_set_folders [OF assms])
  ultimately show ?thesis
    using Inr by (simp add: Folder_findOneAndUpdate_def)
qed

lemma sim_Folder_findOneAndDelete:
  assumes "sameView u s s'"
  shows "rel_sum (=) (rel_prod (=) (sameView u))
     (Folder_findOneAndDelete rt \<lparr>fq_id = a, fq_user = Some u\<rparr> s)
     (Folder_findOneAndDelete rt \<lparr>fq_id = a, fq_user = Some u\<rparr> s')"
proof (cases "castFolderQuery rt \<lparr>fq_id = a, fq_user = Some u\<rparr>")
  case (Inl e)
  then show ?thesis by (simp add: Folder_findOneAndDelete_def)
next
  case (Inr P)
  from castFolderQuery_user [OF Inr] have P: "\<And>f. P f \<Longrightarrow> f_user f = u" by simp
  from sameView_folders [OF assms] P have "find P (folderColl s) = find P (folderColl s')"
    by (rule view_find)
  moreover from sameView_folders [OF assms] P
  have "filter (\<lambda>f. f_user f = u) (removeFirst P (folderColl s)) =
        filter (\<lambda>f. f_user f = u) (removeFirst P (folderColl s'))"
    by (rule view_removeFirst)
  then have "sameView u (s\<lparr>folderColl := removeFirst P (folderColl s)\<rparr>)
      (s'\<lparr>folderColl := removeFirst P (folderColl s')\<rparr>)"
    by (rule sameView_set_folders [OF assms])
  ultimately show ?thesis
    using Inr by (simp add: Folder_findOneAndDelete_def)
qed

lemmas sim_storage = sim_Task_create sim_Folder_create sim_Task_find sim_Task_findOne
  sim_Task_findOneAndUpdate sim_Task_findOneAndDelete sim_Task_deleteMany sim_Task_updateMany
  sim_Folder_find sim_Folder_findOne sim_Folder_findOneAndUpdate sim_Folder_findOneAndDelete

subsection \<open>The shape of a handler\<close>

lemma sameResp_leaf: "r = r' \<Longrightarrow> sameResp (r, s) (r', s')"
  by (simp add: sameResp_def)

lemma sameResp_if:
  "(c \<Longrightarrow> sameResp x x') \<Longrightarrow> (\<not> c \<Longrightarrow> sameResp y y')
     \<Longrightarrow> sameResp (if c then x else y) (if c then x' else y')"
  by simp

lemma sameResp_Let: "sameResp (f x) (f' x) \<Longrightarrow> sameResp (Let x f) (Let x f')"
  by simp

lemma sameResp_option:
  "(r = None \<Longrightarrow> sameResp x x') \<Longrightarrow> (\<And>y. r = Some y \<Longrightarrow> sameResp (g y) (g' y))
     \<Longrightarrow> sameResp (case_option x g r) (case_option x' g' r)"
  by (cases r) simp_all

lemma sameResp_prod:
  "sameResp (f x y) (f' x' y') \<Longrightarrow> sameResp (case_prod f (x, y)) (case_prod f' (x', y'))"
  by simp

lemma sameResp_sum:
  assumes "rel_sum (=) (rel_prod (=) (sameView u)) a a'"
    and "\<And>e. sameResp (f e) (f' e)"
    and "\<And>r s1 s1'. sameView u s1 s1' \<Longrightarrow> sameResp (g (r, s1)) (g' (r, s1'))"
  shows "sameResp (case_sum f g a) (case_sum f' g' a')"
  using assms by (cases a; cases a') auto

lemma sameResp_sum_db:
  assumes "rel_sum (=) (sameView u) a a'"
    and "\<And>e. sameResp (f e) (f' e)"
    and "\<And>s1 s1'. sameView u s1 s1' \<Longrightarrow> sameResp (g s1) (g' s1')"
  shows "sameResp (case_sum f g a) (case_sum f' g' a')"
  using assms by (cases a; cases a') auto

text \<open>The writes to a folder by its identifier alone: whether they throw depends on the identifier.\<close>

lemma sameResp_byId:
  assumes "\<And>e. sameResp (f e) (f' e)"
    and "\<And>r s1 r' s1'. sameResp (g (r, s1)) (g' (r', s1'))"
  shows "sameResp (case_sum f g (Folder_findByIdAndUpdate rt i upd s))
                  (case_sum f' g' (Folder_findByIdAndUpdate rt i upd s'))"
proof (cases "castFolderQuery rt \<lparr>fq_id = Some i, fq_user = None\<rparr>")
  case (Inl e)
  with assms(1) show ?thesis
    by (simp add: Folder_findByIdAndUpdate_def Folder_findOneAndUpdate_def)
next
  case (Inr P)
  with assms(2) show ?thesis
    by (simp add: Folder_findByIdAndUpdate_def Folder_findOneAndUpdate_def)
qed

lemma sameResp_updateOne:
  assumes "\<And>e. sameResp (f e) (f' e)"
    and "\<And>s1 s1'. sameResp (g s1) (g' s1')"
  shows "sameResp (case_sum f g (Folder_updateOne rt q upd s))
                  (case_sum f' g' (Folder_updateOne rt q upd s'))"
proof (cases "castFolderQuery rt q")
  case (Inl e)
  with assms(1) show ?thesis
    by (simp add: Folder_updateOne_def Folder_findOneAndUpdate_def)
next
  case (Inr P)
  with assms(2) show ?thesis
    by (simp add: Folder_updateOne_def Folder_findOneAndUpdate_def)
qed

lemmas sameResp_rules = sameResp_byId sameResp_updateOne sameResp_sum sameResp_sum_db
  sameResp_if sameResp_Let sameResp_option sameResp_prod sameResp_leaf

subsection \<open>The handlers\<close>

lemma sim_createTaskOrFolder:
  "sameView u s s' \<Longrightarrow> sameResp (createTaskOrFolder rt u b s) (createTaskOrFolder rt u b s')"
  unfolding createTaskOrFolder_def createTask_def
  by (intro sameResp_byId sameResp_updateOne sameResp_sum [where u = u]
        sameResp_sum_db [where u = u] sameResp_if sameResp_Let sameResp_option sameResp_prod
        sameResp_leaf)
     (auto intro: sim_storage)

lemma sim_getAllTasksAndFolders:
  "sameView u s s' \<Longrightarrow> sameResp (getAllTasksAndFolders rt u s) (getAllTasksAndFolders rt u s')"
  unfolding getAllTasksAndFolders_def
  by (intro sameResp_byId sameResp_updateOne sameResp_sum [where u = u]
        sameResp_sum_db [where u = u] sameResp_if sameResp_Let sameResp_option sameResp_prod
        sameResp_leaf)
     (auto intro: sim_storage)

lemma sim_getTasksByFolder:
  "sameView u s s' \<Longrightarrow> sameResp (getTasksByFolder rt u x s) (getTasksByFolder rt u x s')"
  unfolding getTasksByFolder_def
  by (intro sameResp_byId sameResp_updateOne sameResp_sum [where u = u]
        sameResp_sum_db [where u = u] sameResp_if sameResp_Let sameResp_option sameResp_prod
        sameResp_leaf)
     (auto intro: sim_storage)

lemma sim_getAllTasksWithoutFolder:
  "sameView u s s' \<Longrightarrow> sameResp (getAllTasksWithoutFolder rt u s) (getAllTasksWithoutFolder rt u s')"
  unfolding getAllTasksWithoutFolder_def
  by (intro sameResp_byId sameResp_updateOne sameResp_sum [where u = u]
        sameResp_sum_db [where u = u] sameResp_if sameResp_Let sameResp_option sameResp_prod
        sameResp_leaf)
     (auto intro: sim_storage)

lemma sim_getTaskById:
  "sameView u s s' \<Longrightarrow> sameResp (getTaskById rt u x s) (getTaskById rt u x s')"
  unfolding getTaskById_def
  by (intro sameResp_byId sameResp_updateOne sameResp_sum [where u = u]
        sameResp_sum_db [where u = u] sameResp_if sameResp_Let sameResp_option sameResp_prod
        sameResp_leaf)
     (auto intro: sim_storage)

lemma sim_updateTaskStatus:
  "sameView u s s' \<Longrightarrow> sameResp (updateTaskStatus rt u x b s) (updateTaskStatus rt u x b s')"
  unfolding updateTaskStatus_def
  by (intro sameResp_byId sameResp_updateOne sameResp_sum [where u = u]
        sameResp_sum_db [where u = u] sameResp_if sameResp_Let sameResp_option sameResp_prod
        sameResp_leaf)
     (auto intro: sim_storage)

lemma sim_deleteTaskOrFolder:
  "sameView u s s' \<Longrightarrow> sameResp (deleteTaskOrFolder rt u ty x s) (deleteTaskOrFolder rt u ty x s')"
  unfolding deleteTaskOrFolder_def
  by (intro sameResp_byId sameResp_updateOne sameResp_sum [where u = u]
        sameResp_sum_db [where u = u] sameResp_if sameResp_Let sameResp_option sameResp_prod
        sameResp_leaf)
     (auto intro: sim_storage)

lemma sim_createFolder:
  "sameView u s s' \<Longrightarrow> sameResp (createFolder rt u b s) (createFolder rt u b s')"
  unfolding createFolder_def
  by (intro sameResp_byId sameResp_updateOne sameResp_sum [where u = u]
        sameResp_sum_db [where u = u] sameResp_if sameResp_Let sameResp_option sameResp_prod
        sameResp_leaf)
     (auto intro: sim_storage)

lemma sim_getTasksInFolder:
  "sameView u s s' \<Longrightarrow> sameResp (getTasksInFolder rt u x s) (getTasksInFolder rt u x s')"
  unfolding getTasksInFolder_def
  by (intro sameResp_byId sameResp_updateOne sameResp_sum [where u = u]
        sameResp_sum_db [where u = u] sameResp_if sameResp_Let sameResp_option sameResp_prod
        sameResp_leaf)
     (auto intro: sim_storage)

lemma sim_addTaskToFolder:
  "sameView u s s' \<Longrightarrow> sameResp (addTaskToFolder rt u x b s) (addTaskToFolder rt u x b s')"
  unfolding addTaskToFolder_def
  by (intro sameResp_byId sameResp_updateOne sameResp_sum [where u = u]
        sameResp_sum_db [where u = u] sameResp_if sameResp_Let sameResp_option sameResp_prod
        sameResp_leaf)
     (auto intro: sim_storage)

lemma sim_updateTaskInFolder:
  "sameView u s s' \<Longrightarrow> sameResp (updateTaskInFolder rt u x y b s) (updateTaskInFolder rt u x y b s')"
  unfolding updateTaskInFolder_def
  by (intro sameResp_byId sameResp_updateOne sameResp_sum [where u = u]
        sameResp_sum_db [where u = u] sameResp_if sameResp_Let sameResp_option sameResp_prod
        sameResp_leaf)
     (auto intro: sim_storage)

lemma sim_updateTaskStatusInFolder:
  "sameView u s s' \<Longrightarrow> sameResp (updateTaskStatusInFolder rt u x y b s) (updateTaskStatusInFolder rt u x y b s')"
  unfolding updateTaskStatusInFolder_def
  by (intro sameResp_byId sameResp_updateOne sameResp_sum [where u = u]
        sameResp_sum_db [where u = u] sameResp_if sameResp_Let sameResp_option sameResp_prod
        sameResp_leaf)
     (auto intro: sim_storage)

lemma sim_deleteTaskInFolder:
  "sameView u s s' \<Longrightarrow> sameResp (deleteTaskInFolder rt u x y s) (deleteTaskInFolder rt u x y s')"
  unfolding deleteTaskInFolder_def
  by (intro sameResp_byId sameResp_updateOne sameResp_sum [where u = u]
        sameResp_sum_db [where u = u] sameResp_if sameResp_Let sameResp_option sameResp_prod
        sameResp_leaf)
     (auto intro: sim_storage)

lemma sim_resetProgress:
  "sameView u s s' \<Longrightarrow> sameResp (resetProgress rt u x s) (resetProgress rt u x s')"
  unfolding resetProgress_def
  by (intro sameResp_byId sameResp_updateOne sameResp_sum [where u = u]
        sameResp_sum_db [where u = u] sameResp_if sameResp_Let sameResp_option sameResp_prod
        sameResp_leaf)
     (auto intro: sim_storage)

lemma sim_clearProgress:
  "sameView u s s' \<Longrightarrow> sameResp (clearProgress rt u x s) (clearProgress rt u x s')"
  unfolding clearProgress_def
  by (intro sameResp_byId sameResp_updateOne sameResp_sum [where u = u]
        sameResp_sum_db [where u = u] sameResp_if sameResp_Let sameResp_option sameResp_prod
        sameResp_leaf)
     (auto intro: sim_storage)

lemmas sim_handlers = sim_createTaskOrFolder sim_getAllTasksAndFolders sim_getTasksByFolder sim_getAllTasksWithoutFolder sim_getTaskById sim_updateTaskStatus sim_deleteTaskOrFolder sim_createFolder sim_getTasksInFolder sim_addTaskToFolder sim_updateTaskInFolder sim_updateTaskStatusInFolder sim_deleteTaskInFolder sim_resetProgress sim_clearProgress

subsection \<open>The database without a document of another user\<close>

text \<open>
  \<^verbatim>\<open>getFolderById\<close> resolves the task references of the caller's folder with no owner in
  the filter; its response is the same without the document \<open>i\<close> when no folder of the
  caller lists \<open>i\<close>.
\<close>


lemma sameView_withoutDoc:
  assumes "\<not> ownsTask s u i" and "\<not> ownsFolder s u i"
  shows "sameView u s (withoutDoc i s)"
proof -
  have "filter (\<lambda>t. t_user t = u) (filter (\<lambda>t. t_id t \<noteq> i) (taskColl s)) =
        filter (\<lambda>t. t_user t = u) (taskColl s)"
    using assms(1) by (auto simp: ownsTask_def intro: filter_cong)
  moreover have "filter (\<lambda>f. f_user f = u) (filter (\<lambda>f. f_id f \<noteq> i) (folderColl s)) =
        filter (\<lambda>f. f_user f = u) (folderColl s)"
    using assms(2) by (auto simp: ownsFolder_def intro: filter_cong)
  ultimately show ?thesis
    by (simp add: sameView_def withoutDoc_def)
qed

lemma getFolderById_not_owned:
  assumes "toObjectId rt (sanitize x) = Some i" and "\<not> ownsFolder s u i"
  shows "fst (getFolderById rt u x s) = (404, ErrorBody ''Folder not found'')"
  using assms
  by (simp add: getFolderById_def Let_def isValidId_def isValidObjectId_def sanitize_idem
      Folder_findOne_owned not_ownsFolder_find)

lemma ownsFolder_withoutDoc: "ownsFolder (withoutDoc i s) u j \<Longrightarrow> ownsFolder s u j"
  by (auto simp: ownsFolder_def withoutDoc_def)

lemma populate_withoutDoc:
  assumes "i \<notin> set (tasks f)"
  shows "fst (populateTasks f (called c (withoutDoc i s))) = fst (populateTasks f (called c s))"
proof -
  have "find (\<lambda>t. t_id t = j) (filter (\<lambda>t. t_id t \<noteq> i) (taskColl s)) =
        find (\<lambda>t. t_id t = j) (taskColl s)" if "j \<in> set (tasks f)" for j
    using that assms by (intro find_filter_imp) auto
  then show ?thesis
    by (auto simp: populateTasks_def called_def withoutDoc_def map_filter_def
        intro!: map_cong filter_cong)
qed

lemma sim_getFolderById:
  assumes none: "\<not> ownsFolder s u i"
    and unlisted: "\<forall>f\<in>set (folderColl s). f_user f = u \<longrightarrow> i \<notin> set (tasks f)"
  shows "fst (getFolderById rt u x s) = fst (getFolderById rt u x (withoutDoc i s))"
proof (cases "toObjectId rt (sanitize x)")
  case None
  then show ?thesis
    by (simp add: getFolderById_def Let_def isValidId_def isValidObjectId_def sanitize_idem)
next
  case (Some j)
  let ?P = "\<lambda>f. f_id f = j \<and> f_user f = u"
  have "find ?P (filter (\<lambda>f. f_id f \<noteq> i) (folderColl s)) = find ?P (folderColl s)"
  proof (cases "j = i")
    case True
    with none have "find ?P (folderColl s) = None"
      by (simp add: not_ownsFolder_find)
    moreover from True have "find ?P (filter (\<lambda>f. f_id f \<noteq> i) (folderColl s)) = None"
      by (auto simp: find_None_iff)
    ultimately show ?thesis by simp
  next
    case False
    then show ?thesis by (intro find_filter_imp) auto
  qed
  then have same: "find ?P (folderColl (withoutDoc i s)) = find ?P (folderColl s)"
    by (simp add: withoutDoc_def)
  show ?thesis
  proof (cases "find ?P (folderColl s)")
    case None
    with Some same show ?thesis
      by (simp add: getFolderById_def Let_def isValidId_def isValidObjectId_def sanitize_idem
          Folder_findOne_owned)
  next
    case (Some f)
    then have "f \<in> set (folderColl s)" "f_user f = u"
      by (auto dest: find_Some_mem)
    with unlisted have "i \<notin> set (tasks f)" by blast
    from populate_withoutDoc [OF this, of "Lookup Folders" s]
    have "fst (populateTasks f (called (Lookup Folders) (withoutDoc i s))) =
          fst (populateTasks f (called (Lookup Folders) s))" .
    with Some same \<open>toObjectId rt (sanitize x) = Some j\<close> show ?thesis
      by (simp add: getFolderById_def Let_def isValidId_def isValidObjectId_def sanitize_idem
          Folder_findOne_owned split_beta)
  qed
qed

lemma handle_without_foreign:
  assumes "\<not> ownsTask s u i" and "\<not> ownsFolder s u i"
    and "\<forall>x. req = GetFolder x \<longrightarrow>
           toObjectId rt (sanitize x) = Some i
           \<or> (\<forall>f\<in>set (folderColl s). f_user f = u \<longrightarrow> i \<notin> set (tasks f))"
  shows "fst (handle rt u req s) = fst (handle rt u req (withoutDoc i s))"
proof (cases "\<exists>x. req = GetFolder x")
  case True
  then obtain x where x: "req = GetFolder x" ..
  with assms(3) consider "toObjectId rt (sanitize x) = Some i"
    | "\<forall>f\<in>set (folderColl s). f_user f = u \<longrightarrow> i \<notin> set (tasks f)"
    by blast
  then show ?thesis
  proof cases
    case 1
    from assms(2) have "\<not> ownsFolder (withoutDoc i s) u i"
      by (auto dest: ownsFolder_withoutDoc)
    with assms(2) 1 show ?thesis
      by (simp add: x handle_def getFolderById_not_owned)
  next
    case 2
    with assms(2) show ?thesis
      by (simp add: x handle_def sim_getFolderById)
  qed
next
  case False
  from assms(1,2) have "sameView u s (withoutDoc i s)"
    by (rule sameView_withoutDoc)
  with False show ?thesis
    by (cases req) (simp_all add: handle_def sim_handlers [unfolded sameResp_def])
qed

text \<open>The status code of \<^verbatim>\<open>getFolderById\<close>, and so of every route, needs no such condition.\<close>

lemma folder_find_withoutDoc:
  assumes "\<not> ownsFolder s u i"
  shows "find (\<lambda>f. f_id f = j \<and> f_user f = u) (folderColl (withoutDoc i s)) =
         find (\<lambda>f. f_id f = j \<and> f_user f = u) (folderColl s)"
proof -
  have "find (\<lambda>f. f_id f = j \<and> f_user f = u) (filter (\<lambda>f. f_id f \<noteq> i) (folderColl s)) =
        find (\<lambda>f. f_id f = j \<and> f_user f = u) (filter (\<lambda>f. f_user f = u) (filter (\<lambda>f. f_id f \<noteq> i) (folderColl s)))"
    by (rule find_filter_imp [symmetric]) simp
  also have "filter (\<lambda>f. f_user f = u) (filter (\<lambda>f. f_id f \<noteq> i) (folderColl s)) =
        filter (\<lambda>f. f_user f = u) (folderColl s)"
    using assms by (auto simp: ownsFolder_def intro: filter_cong)
  also have "find (\<lambda>f. f_id f = j \<and> f_user f = u) (filter (\<lambda>f. f_user f = u) (folderColl s)) =
        find (\<lambda>f. f_id f = j \<and> f_user f = u) (folderColl s)"
    by (rule find_filter_imp) simp
  finally show ?thesis
    by (simp add: withoutDoc_def)
qed

lemma code_getFolderById_without:
  assumes "\<not> ownsFolder s u i"
  shows "fst (fst (getFolderById rt u x s)) = fst (fst (getFolderById rt u x (withoutDoc i s)))"
proof (cases "toObjectId rt (sanitize x)")
  case None
  then show ?thesis
    by (simp add: getFolderById_def Let_def isValidId_def isValidObjectId_def sanitize_idem)
next
  case (Some j)
  with folder_find_withoutDoc [OF assms, of j] show ?thesis
    by (simp add: getFolderById_def Let_def isValidId_def isValidObjectId_def sanitize_idem
        Folder_findOne_owned populateTasks_def split: option.splits)
qed

lemma handle_code_without_foreign:
  assumes "\<not> ownsTask s u i" and "\<not> ownsFolder s u i"
  shows "fst (fst (handle rt u req s)) = fst (fst (handle rt u req (withoutDoc i s)))"
proof (cases "\<exists>x. req = GetFolder x")
  case True
  with assms(2) show ?thesis
    by (auto simp: handle_def code_getFolderById_without)
next
  case False
  then have "\<forall>x. req = GetFolder x \<longrightarrow>
           toObjectId rt (sanitize x) = Some i
           \<or> (\<forall>f\<in>set (folderColl s). f_user f = u \<longrightarrow> i \<notin> set (tasks f))"
    by simp
  with assms have "fst (handle rt u req s) = fst (handle rt u req (withoutDoc i s))"
    by (rule handle_without_foreign)
  then show ?thesis by simp
qed

text \<open>
  Claim C7. In a database with unique identifiers, when a user owns a task or a folder,
  \<^verbatim>\<open>getTaskById\<close> by any other user with that identifier answers NotFoundError, with the
  very response it gives for a well-formed identifier that no document has, and so does the
  folder lookup \<^verbatim>\<open>getFolderById\<close>. No request to any route is answered with a status code
  outside 200, 201, 400, 404 and 500; in particular none is answered 403. And no response
  tells the other user that the document exists: each of that user's requests, to any route
  and with any parameters, is answered with the status code it gets in the database without
  the document, and with the same body as well. (The body of the lookup of a folder of the
  caller's own is shown to be the same when none of the caller's folders lists the document
  among its tasks: \<^verbatim>\<open>populate\<close> has no owner in its filter.)
\<close>

theorem C7_foreign_record_not_found:
  assumes wf: "wf_ids s" and diff: "u2 \<noteq> u1" and cast: "toObjectId rt sid = Some i"
    and owned: "ownsTask s u1 i \<or> ownsFolder s u1 i"
  shows "fst (getTaskById rt u2 sid s) = (404, ErrorBody ''Task or folder not found.'')
       \<and> NotFoundError (fst (getTaskById rt u2 sid s))
       \<and> (\<forall>sid' j. toObjectId rt sid' = Some j \<and> j \<notin> set (allIds s) \<longrightarrow>
              fst (getTaskById rt u2 sid' s) = fst (getTaskById rt u2 sid s))
       \<and> (\<forall>u req s0. fst (fst (handle rt u req s0)) \<in> httpCodes
              \<and> fst (fst (handle rt u req s0)) \<noteq> 403)
       \<and> (\<forall>x x' j. toObjectId rt (sanitize x) = Some i \<and> toObjectId rt (sanitize x') = Some j
                \<and> j \<notin> set (allIds s) \<longrightarrow>
              NotFoundError (fst (handle rt u2 (GetFolder x) s))
              \<and> fst (handle rt u2 (GetFolder x') s) = fst (handle rt u2 (GetFolder x) s))
       \<and> (\<forall>req. (\<forall>x. req = GetFolder x \<longrightarrow>
                     toObjectId rt (sanitize x) = Some i
                     \<or> (\<forall>f\<in>set (folderColl s). f_user f = u2 \<longrightarrow> i \<notin> set (tasks f))) \<longrightarrow>
              fst (handle rt u2 req s) = fst (handle rt u2 req (withoutDoc i s)))
       \<and> (\<forall>req. fst (fst (handle rt u2 req s)) =
                fst (fst (handle rt u2 req (withoutDoc i s))))"
proof -
  note mine = foreign_not_owned [OF wf diff owned]
  from mine
  have here: "fst (getTaskById rt u2 sid s) = (404, ErrorBody ''Task or folder not found.'')"
    using getTaskById_not_owned [OF cast] by simp
  have absent: "fst (getTaskById rt u2 sid' s) = (404, ErrorBody ''Task or folder not found.'')"
    if "toObjectId rt sid' = Some j" "j \<notin> set (allIds s)" for sid' j
    using getTaskById_not_owned [OF that(1)] absent_not_owned [OF that(2)] by simp
  have codes: "fst (fst (handle rt u req s0)) \<in> httpCodes \<and> fst (fst (handle rt u req s0)) \<noteq> 403"
    for u req s0
    using code_handle [of rt u req s0] by (auto simp: codeOk_def httpCodes_def)
  have folder: "NotFoundError (fst (handle rt u2 (GetFolder x) s))
      \<and> fst (handle rt u2 (GetFolder x') s) = fst (handle rt u2 (GetFolder x) s)"
    if "toObjectId rt (sanitize x) = Some i" "toObjectId rt (sanitize x') = Some j"
      "j \<notin> set (allIds s)" for x x' j
  proof -
    from mine have "fst (getFolderById rt u2 x s) = (404, ErrorBody ''Folder not found'')"
      by (intro getFolderById_not_owned [OF that(1)]) simp
    moreover from absent_not_owned [OF that(3)]
    have "fst (getFolderById rt u2 x' s) = (404, ErrorBody ''Folder not found'')"
      by (intro getFolderById_not_owned [OF that(2)]) simp
    ultimately show ?thesis
      by (simp add: handle_def NotFoundError_def)
  qed
  have without: "fst (handle rt u2 req s) = fst (handle rt u2 req (withoutDoc i s))"
    if "\<forall>x. req = GetFolder x \<longrightarrow>
           toObjectId rt (sanitize x) = Some i
           \<or> (\<forall>f\<in>set (folderColl s). f_user f = u2 \<longrightarrow> i \<notin> set (tasks f))" for req
    using mine that by (intro handle_without_foreign) simp_all
  have 1: "NotFoundError (fst (getTaskById rt u2 sid s))"
    using here by (simp add: NotFoundError_def)
  have 2: "\<forall>sid' j. toObjectId rt sid' = Some j \<and> j \<notin> set (allIds s) \<longrightarrow>
              fst (getTaskById rt u2 sid' s) = fst (getTaskById rt u2 sid s)"
    using here absent by simp
  have 3: "\<forall>u req s0. fst (fst (handle rt u req s0)) \<in> httpCodes
              \<and> fst (fst (handle rt u req s0)) \<noteq> 403"
    using codes by blast
  have 4: "\<forall>x x' j. toObjectId rt (sanitize x) = Some i \<and> toObjectId rt (sanitize x') = Some j
                \<and> j \<notin> set (allIds s) \<longrightarrow>
              NotFoundError (fst (handle rt u2 (GetFolder x) s))
              \<and> fst (handle rt u2 (GetFolder x') s) = fst (handle rt u2 (GetFolder x) s)"
    using folder by blast
  have 5: "\<forall>req. (\<forall>x. req = GetFolder x \<longrightarrow>
                     toObjectId rt (sanitize x) = Some i
                     \<or> (\<forall>f\<in>set (folderColl s). f_user f = u2 \<longrightarrow> i \<notin> set (tasks f))) \<longrightarrow>
              fst (handle rt u2 req s) = fst (handle rt u2 req (withoutDoc i s))"
    using without by blast
  have 6: "\<forall>req. fst (fst (handle rt u2 req s)) =
                fst (fst (handle rt u2 req (withoutDoc i s)))"
    using mine by (intro allI handle_code_without_foreign) simp_all
  from here 1 2 3 4 5 6 show ?thesis
    by (intro conjI)
qed

theorem C7_witness:
  "wf_ids sampleDb \<and> bob \<noteq> alice \<and> ownsTask sampleDb alice 2
   \<and> fst (getTaskById hexRuntime alice hex2 sampleDb) = (200, TaskBody dishes)
   \<and> fst (getTaskById hexRuntime bob hex2 sampleDb) =
       (404, ErrorBody ''Task or folder not found.'')
   \<and> fst (getTaskById hexRuntime bob hex9 sampleDb) =
       fst (getTaskById hexRuntime bob hex2 sampleDb)
   \<and> fst (handle hexRuntime bob (GetFolder hex9) sampleDb) =
       fst (handle hexRuntime bob (GetFolder hex2) sampleDb)
   \<and> fst (handle hexRuntime bob (DeleteById hex2) sampleDb) =
       fst (handle hexRuntime bob (DeleteById hex2) (withoutDoc 2 sampleDb))
   \<and> fst (handle hexRuntime bob (GetFolder hex4) sampleDb) =
       fst (handle hexRuntime bob (GetFolder hex4) (withoutDoc 2 sampleDb))
   \<and> taskColl (withoutDoc 2 sampleDb) = [taxes, report]"
proof -
  have wf: "wf_ids sampleDb"
    by (simp add: wf_ids_def allIds_def sample_defs)
  have diff: "bob \<noteq> alice"
    by (simp add: alice_def bob_def)
  have owned: "ownsTask sampleDb alice 2"
    by (simp add: ownsTask_def sample_defs)
  then have owned': "ownsTask sampleDb alice 2 \<or> ownsFolder sampleDb alice 2" ..
  have absent: "9 \<notin> set (allIds sampleDb)"
    by (simp add: allIds_def sample_defs)
  have own: "fst (getTaskById hexRuntime alice hex2 sampleDb) = (200, TaskBody dishes)"
    unfolding getTaskById_found [OF hex_ids(2)] by (simp add: sample_defs)
  have trimmed: "toObjectId hexRuntime (sanitize hex2) = Some 2"
    "toObjectId hexRuntime (sanitize hex9) = Some 9"
    using hex_ids(2,5) by (simp_all add: hex2_def hex9_def sanitize_hex)
  have unlisted: "\<forall>f\<in>set (folderColl sampleDb). f_user f = bob \<longrightarrow> 2 \<notin> set (tasks f)"
    by (simp add: sample_defs)
  have gone: "taskColl (withoutDoc 2 sampleDb) = [taxes, report]"
    by (simp add: withoutDoc_def sample_defs)
  note c = C7_foreign_record_not_found [OF wf diff hex_ids(2) owned']
  note k = conjunct1 conjunct2
  from c have "fst (getTaskById hexRuntime bob hex2 sampleDb) =
       (404, ErrorBody ''Task or folder not found.'')"
    by (rule conjunct1)
  moreover from c [THEN k(2), THEN k(2), THEN k(1)] hex_ids(5) absent
  have "fst (getTaskById hexRuntime bob hex9 sampleDb) =
       fst (getTaskById hexRuntime bob hex2 sampleDb)"
    by blast
  moreover from c [THEN k(2), THEN k(2), THEN k(2), THEN k(2), THEN k(1)] trimmed absent
  have "fst (handle hexRuntime bob (GetFolder hex9) sampleDb) =
       fst (handle hexRuntime bob (GetFolder hex2) sampleDb)"
    by blast
  moreover from c [THEN k(2), THEN k(2), THEN k(2), THEN k(2), THEN k(2), THEN k(1),
      rule_format, of "DeleteById hex2"]
  have "fst (handle hexRuntime bob (DeleteById hex2) sampleDb) =
       fst (handle hexRuntime bob (DeleteById hex2) (withoutDoc 2 sampleDb))"
    by simp
  moreover from c [THEN k(2), THEN k(2), THEN k(2), THEN k(2), THEN k(2), THEN k(1),
      rule_format, of "GetFolder hex4"] unlisted
  have "fst (handle hexRuntime bob (GetFolder hex4) sampleDb) =
       fst (handle hexRuntime bob (GetFolder hex4) (withoutDoc 2 sampleDb))"
    by blast
  ultimately show ?thesis
    using wf diff owned own gone by simp
qed

end
